theory Spec2Isabelle
  imports Main "HOL-Library.Word"
begin

unbundle bit_operations_syntax

section \<open>Machine types and constants of a4091.c\<close>

text \<open>
  The program is compiled for the 68k Amiga: \<open>int\<close> and \<open>uint\<close> are 32 bits wide,
  \<open>uint8_t\<close>, \<open>uint16_t\<close>, \<open>uint32_t\<close> and \<open>uint64_t\<close> are the usual fixed-width
  unsigned types.  Arithmetic on them wraps, which is what the word types do.
\<close>

type_synonym uint8_t = "8 word"
type_synonym uint16_t = "16 word"
type_synonym uint32_t = "32 word"
type_synonym uint64_t = "64 word"

text \<open>\<^verbatim>\<open>#define BIT(x) (1 << (x))\<close>, evaluated in a 32-bit \<open>int\<close>.\<close>

definition BIT :: "nat \<Rightarrow> uint32_t" where
  "BIT x = push_bit x 1"

definition A4091_OFFSET_AUTOCONFIG :: uint32_t where
  "A4091_OFFSET_AUTOCONFIG = 0x00000000"

definition A4091_OFFSET_REGISTERS :: uint32_t where
  "A4091_OFFSET_REGISTERS = 0x00800000"

definition A4091_IRQ :: nat where
  "A4091_IRQ = 3"

definition A4091_INTPRI :: int where
  "A4091_INTPRI = 30"

definition FLAG_DEBUG :: uint32_t where
  "FLAG_DEBUG = 0x01"

definition FLAG_MORE_DEBUG :: uint32_t where
  "FLAG_MORE_DEBUG = 0x02"

subsection \<open>NCR53C710 register offsets and bits\<close>

definition REG_SCNTL0 :: uint32_t where "REG_SCNTL0 = 0x03"
definition REG_SCNTL1 :: uint32_t where "REG_SCNTL1 = 0x02"
definition REG_SIEN :: uint32_t where "REG_SIEN = 0x00"
definition REG_SCID :: uint32_t where "REG_SCID = 0x07"
definition REG_SBDL :: uint32_t where "REG_SBDL = 0x09"
definition REG_SBCL :: uint32_t where "REG_SBCL = 0x08"
definition REG_DSTAT :: uint32_t where "REG_DSTAT = 0x0f"
definition REG_SSTAT0 :: uint32_t where "REG_SSTAT0 = 0x0e"
definition REG_SSTAT1 :: uint32_t where "REG_SSTAT1 = 0x0d"
definition REG_CTEST1 :: uint32_t where "REG_CTEST1 = 0x16"
definition REG_CTEST2 :: uint32_t where "REG_CTEST2 = 0x15"
definition REG_CTEST4 :: uint32_t where "REG_CTEST4 = 0x1b"
definition REG_CTEST6 :: uint32_t where "REG_CTEST6 = 0x19"
definition REG_CTEST7 :: uint32_t where "REG_CTEST7 = 0x18"
definition REG_TEMP :: uint32_t where "REG_TEMP = 0x1c"
definition REG_ISTAT :: uint32_t where "REG_ISTAT = 0x22"
definition REG_SCRATCH :: uint32_t where "REG_SCRATCH = 0x34"
definition REG_DWT :: uint32_t where "REG_DWT = 0x39"
definition REG_DCNTL :: uint32_t where "REG_DCNTL = 0x38"
definition REG_CTEST0 :: uint32_t where "REG_CTEST0 = 0x17"
definition REG_DIEN :: uint32_t where "REG_DIEN = 0x3a"

definition REG_ISTAT_DIP :: uint32_t where "REG_ISTAT_DIP = BIT 0"
definition REG_ISTAT_SIP :: uint32_t where "REG_ISTAT_SIP = BIT 1"
definition REG_ISTAT_RST :: uint32_t where "REG_ISTAT_RST = BIT 6"
definition REG_DCNTL_EA :: uint32_t where "REG_DCNTL_EA = BIT 5"
definition REG_SSTAT1_RST :: uint32_t where "REG_SSTAT1_RST = BIT 1"
definition REG_SCNTL1_RST :: uint32_t where "REG_SCNTL1_RST = BIT 3"
definition REG_CTEST4_FBL2 :: uint32_t where "REG_CTEST4_FBL2 = BIT 2"
definition REG_DSTAT_DFE :: uint32_t where "REG_DSTAT_DFE = BIT 7"

definition NCR_FIFO_SIZE :: nat where
  "NCR_FIFO_SIZE = 16"

section \<open>Session state, events and the register access layer\<close>

text \<open>
  \<^verbatim>\<open>a4091_save_t\<close>.  The fields \<^verbatim>\<open>reg_00\<close> .. \<^verbatim>\<open>reg_3c\<close> of the C structure are
  read and written only under \<^verbatim>\<open>#if 0\<close> and are left out.  Pointers are 32-bit
  addresses, \<open>0\<close> being \<^verbatim>\<open>NULL\<close>.
\<close>

record a4091_save_t =
  addr :: uint32_t
  intcount :: uint32_t
  card_owned :: uint8_t
  cleanup_installed :: uint8_t
  reg_dcntl :: uint8_t
  reg_istat :: uint8_t
  local_isr :: uint32_t
  driver_isr :: uint32_t
  ireg_istat :: uint8_t
  ireg_sien :: uint8_t
  ireg_sstat0 :: uint8_t
  ireg_dstat :: uint8_t

text \<open>The part of exec's \<^verbatim>\<open>struct Interrupt\<close> the program fills in.\<close>

record Interrupt =
  ln_Type :: nat
  ln_Pri :: int
  ln_Name :: "string option"
  is_Data :: uint32_t
  is_Code :: uint32_t

definition NT_INTERRUPT :: nat where
  "NT_INTERRUPT = 2"

text \<open>
  What the program does to the outside world is recorded as a list of events, oldest
  first: bus writes and reads (with the bus address), calls of the host system, and
  \<^verbatim>\<open>printf\<close> calls with their format string and arguments.  What a bus read returns is
  an input of the model; the event records only that the read took place.
\<close>

datatype parg = PInt int | PStr string

datatype event =
    Write8 uint32_t uint8_t
  | Write32 uint32_t uint32_t
  | Read8 uint32_t
  | Read32 uint32_t
  | Printf string "parg list"
  | Delay nat
  | Atexit_cleanup
  | AllocMem uint32_t uint32_t
  | AllocAbs uint32_t uint32_t
  | FreeMem uint32_t uint32_t
  | AddIntServer nat uint32_t
  | RemIntServer nat uint32_t
  | Disable
  | Enable
  | Memset uint32_t uint8_t uint32_t
  | Memcpy uint32_t uint32_t uint32_t
  | Forbid
  | Permit

text \<open>
  The globals of the program: \<^verbatim>\<open>a4091_base\<close>, \<^verbatim>\<open>runtime_flags\<close>, \<^verbatim>\<open>rand_seed\<close>,
  \<^verbatim>\<open>a4091_save\<close>, the
  \<^verbatim>\<open>struct Interrupt\<close> objects it has filled in (by address), and the events so far.
  \<^verbatim>\<open>TICKS_PER_SECOND\<close> is a constant of the host's headers and is carried as a field,
  as are the addresses of the global \<^verbatim>\<open>a4091_save\<close> and of the function
  \<^verbatim>\<open>a4091_irq_handler\<close>, which the linker decides.
\<close>

record world =
  a4091_base :: uint32_t
  runtime_flags :: uint32_t
  TICKS_PER_SECOND :: uint32_t
  save_addr :: uint32_t
  handler_addr :: uint32_t
  rand_seed :: uint32_t
  a4091_save :: a4091_save_t
  isr_mem :: "uint32_t \<Rightarrow> Interrupt option"
  trace :: "event list"

definition emit :: "event \<Rightarrow> world \<Rightarrow> world" where
  "emit e w = w\<lparr>trace := trace w @ [e]\<rparr>"

definition upd_save :: "(a4091_save_t \<Rightarrow> a4091_save_t) \<Rightarrow> world \<Rightarrow> world" where
  "upd_save f w = w\<lparr>a4091_save := f (a4091_save w)\<rparr>"

definition debug_on :: "world \<Rightarrow> bool" where
  "debug_on w = (runtime_flags w AND FLAG_DEBUG \<noteq> 0)"

text \<open>
  Reads go to the register window, writes to the shadow window \<open>0x40\<close> above it.
  \<^verbatim>\<open>get_ncrreg8\<close> and \<^verbatim>\<open>get_ncrreg32\<close> record the read; the value read is supplied by
  the caller's environment.
\<close>

definition get_ncrreg8 :: "uint32_t \<Rightarrow> world \<Rightarrow> world" where
  "get_ncrreg8 reg w = emit (Read8 (a4091_base w + A4091_OFFSET_REGISTERS + reg)) w"

definition get_ncrreg32 :: "uint32_t \<Rightarrow> world \<Rightarrow> world" where
  "get_ncrreg32 reg w = emit (Read32 (a4091_base w + A4091_OFFSET_REGISTERS + reg)) w"

definition set_ncrreg8 :: "uint32_t \<Rightarrow> uint8_t \<Rightarrow> world \<Rightarrow> world" where
  "set_ncrreg8 reg v w = emit (Write8 (a4091_base w + A4091_OFFSET_REGISTERS + 0x40 + reg) v) w"

definition set_ncrreg32 :: "uint32_t \<Rightarrow> uint32_t \<Rightarrow> world \<Rightarrow> world" where
  "set_ncrreg32 reg v w = emit (Write32 (a4091_base w + A4091_OFFSET_REGISTERS + 0x40 + reg) v) w"

text \<open>
  \<^verbatim>\<open>access_timeout(msg, ticks, tick_start)\<close>; \<open>tick_end\<close> is what \<^verbatim>\<open>read_system_ticks\<close>
  returns inside the call.  The comparison is made on the difference cast to a 32-bit
  signed \<open>int\<close>, as in the source.
\<close>

definition access_timeout :: "string \<Rightarrow> uint32_t \<Rightarrow> uint64_t \<Rightarrow> uint64_t \<Rightarrow> world \<Rightarrow> bool \<times> world" where
  "access_timeout msg ticks tick_start tick_end w =
     (if tick_end < tick_start then
        (False, emit (Printf ''Invalid time comparison: %08x:%08x < %08x:%08x\<newline>''
                  [PInt (uint (ucast (drop_bit 32 tick_end) :: uint32_t)),
                   PInt (uint (ucast tick_end :: uint32_t)),
                   PInt (uint (ucast (drop_bit 32 tick_start) :: uint32_t)),
                   PInt (uint (ucast tick_start :: uint32_t))]) w)
      else if sint (ucast (tick_end - tick_start) :: uint32_t) > sint ticks then
        (let w = emit (Printf ''%s: %d ticks''
                   [PStr msg, PInt (uint (ucast (tick_end - tick_start) :: uint32_t))]) w;
             diff = tick_end - tick_start;
             w = (if diff > ucast (TICKS_PER_SECOND w * 10) then
                    emit (Printf '': bug? %08x%08x %08x%08x\<newline>''
                      [PInt (uint (ucast (drop_bit 32 tick_end) :: uint32_t)),
                       PInt (uint (ucast tick_start :: uint32_t)),
                       PInt (uint (ucast (drop_bit 32 tick_end) :: uint32_t)),
                       PInt (uint (ucast tick_end :: uint32_t))]) w
                  else w);
             w = emit (Printf ''\<newline>'' []) w
         in (True, w))
      else (False, w))"

text \<open>\<^verbatim>\<open>a4091_reset\<close>: the two reads of ISTAT only push the writes out.\<close>

definition a4091_reset :: "world \<Rightarrow> world" where
  "a4091_reset w =
     (let w = set_ncrreg8 REG_DCNTL (ucast REG_DCNTL_EA) w;
          w = set_ncrreg8 REG_ISTAT (ucast REG_ISTAT_RST) w;
          w = get_ncrreg8 REG_ISTAT w;
          w = set_ncrreg8 REG_ISTAT 0 w;
          w = get_ncrreg8 REG_ISTAT w;
          w = set_ncrreg8 REG_SCID (ucast (BIT 7)) w;
          w = set_ncrreg8 REG_DCNTL (ucast REG_DCNTL_EA) w;
          w = set_ncrreg8 REG_DWT 0xff w
      in w)"

section \<open>Interrupt adapter\<close>

text \<open>
  The handler runs on the interrupt stack with the session pointer in \<open>a1\<close>; it touches
  only the session structure.  \<open>bus\<close> is what the card returns to the handler's reads
  during this one invocation.  The result is the handler's return value and the
  session structure it leaves.
\<close>

definition get_ncrreg8_noglob :: "(uint32_t \<Rightarrow> uint8_t) \<Rightarrow> uint32_t \<Rightarrow> uint32_t \<Rightarrow> uint8_t" where
  "get_ncrreg8_noglob bus base reg = bus (base + A4091_OFFSET_REGISTERS + reg)"

definition a4091_irq_handler :: "(uint32_t \<Rightarrow> uint8_t) \<Rightarrow> a4091_save_t \<Rightarrow> int \<times> a4091_save_t" where
  "a4091_irq_handler bus save =
     (let istat = get_ncrreg8_noglob bus (addr save) REG_ISTAT in
      if (ucast istat AND (REG_ISTAT_DIP OR REG_ISTAT_SIP)) \<noteq> (0 :: uint32_t) then
        (let save = save\<lparr>ireg_istat := istat\<rparr>;
             save = save\<lparr>ireg_sien := get_ncrreg8_noglob bus (addr save) REG_SIEN\<rparr>;
             save = save\<lparr>ireg_sstat0 := get_ncrreg8_noglob bus (addr save) REG_SSTAT0\<rparr>;
             save = save\<lparr>ireg_dstat := get_ncrreg8_noglob bus (addr save) REG_DSTAT\<rparr>;
             save = save\<lparr>intcount := intcount save + 1\<rparr>
         in if intcount save = 1 then (1, save) else (0, save))
      else (0, save))"


text \<open>
  \<^verbatim>\<open>sizeof (struct Interrupt)\<close>: a 14-byte \<^verbatim>\<open>struct Node\<close> and two pointers.
\<close>

definition sizeof_Interrupt :: uint32_t where
  "sizeof_Interrupt = 22"

text \<open>
  \<^verbatim>\<open>a4091_add_local_irq_handler\<close>; \<open>mem\<close> is what \<^verbatim>\<open>AllocMem\<close> returns.
\<close>

definition a4091_add_local_irq_handler :: "uint32_t \<Rightarrow> world \<Rightarrow> world" where
  "a4091_add_local_irq_handler mem w =
     (let w = upd_save (\<lambda>s. s\<lparr>intcount := 0\<rparr>) w;
          w = emit (AllocMem sizeof_Interrupt mem) w;
          w = upd_save (\<lambda>s. s\<lparr>local_isr := mem\<rparr>) w;
          w = w\<lparr>isr_mem := (isr_mem w)(local_isr (a4091_save w) \<mapsto>
                 \<lparr>ln_Type = NT_INTERRUPT, ln_Pri = A4091_INTPRI,
                  ln_Name = Some ''A4091 test'', is_Data = save_addr w,
                  is_Code = handler_addr w\<rparr>)\<rparr>;
          w = (if debug_on w then
                 emit (Printf ''my irq handler=%x %x\<newline>''
                   [PInt (uint (save_addr w)), PInt (uint (local_isr (a4091_save w)))]) w
               else w);
          w = emit (AddIntServer A4091_IRQ (local_isr (a4091_save w))) w
      in w)"

definition a4091_remove_local_irq_handler :: "world \<Rightarrow> world" where
  "a4091_remove_local_irq_handler w =
     (if local_isr (a4091_save w) \<noteq> 0 then
        (let w = emit (RemIntServer A4091_IRQ (local_isr (a4091_save w))) w;
             w = emit (FreeMem (local_isr (a4091_save w)) sizeof_Interrupt) w;
             w = w\<lparr>isr_mem := (isr_mem w)(local_isr (a4091_save w) := None)\<rparr>;
             w = upd_save (\<lambda>s. s\<lparr>local_isr := 0\<rparr>) w
         in w)
      else w)"

text \<open>
  An entry of the interrupt server chain of the card's IRQ line, as the walk in
  \<^verbatim>\<open>a4091_disable_driver_irq_handler\<close> sees it: the node's address and its
  \<^verbatim>\<open>struct Interrupt\<close>.
\<close>

type_synonym server = "uint32_t \<times> Interrupt"

definition GetNodeName :: "Interrupt \<Rightarrow> string" where
  "GetNodeName node = (case ln_Name node of None \<Rightarrow> ''(missing)'' | Some n \<Rightarrow> n)"

fun disable_driver_walk :: "server list \<Rightarrow> bool \<times> world \<Rightarrow> bool \<times> world" where
  "disable_driver_walk [] (suspended, w) = (suspended, w)"
| "disable_driver_walk ((s, node) # rest) (suspended, w) =
     (let name = GetNodeName node;
          w = (if debug_on w then
                 (let w = emit Enable w;
                      w = emit (Printf ''  %08x %08x %08x %s\<newline>''
                            [PInt (uint (is_Code node)), PInt (uint (is_Data node)),
                             PInt (uint s), PStr name]) w;
                      w = emit Disable w
                  in w)
               else w)
      in if name = ''NCR SCSI'' then
           (let w = upd_save (\<lambda>sv. sv\<lparr>driver_isr := s\<rparr>) w;
                w = emit (RemIntServer A4091_IRQ (driver_isr (a4091_save w))) w
            in disable_driver_walk rest (True, w))
         else disable_driver_walk rest (suspended, w))"

definition a4091_disable_driver_irq_handler :: "server list \<Rightarrow> uint32_t \<Rightarrow> world \<Rightarrow> world" where
  "a4091_disable_driver_irq_handler slist verbose w =
     (if slist = [] then w
      else
        (let w = emit Disable w;
             (suspended, w) = disable_driver_walk slist (False, w);
             w = emit Enable w
         in if suspended \<and> (debug_on w \<or> verbose \<noteq> 0) then
              emit (Printf ''Suspended NCR SCSI driver IRQ handler\<newline>'' []) w
            else w))"

definition a4091_enable_driver_irq_handler :: "world \<Rightarrow> world" where
  "a4091_enable_driver_irq_handler w =
     (if driver_isr (a4091_save w) \<noteq> 0 then
        (let w = (if debug_on w then
                    emit (Printf ''Restoring NCR SCSI driver IRQ handler\<newline>'' []) w
                  else w);
             w = emit (AddIntServer A4091_IRQ (driver_isr (a4091_save w))) w;
             w = upd_save (\<lambda>s. s\<lparr>driver_isr := 0\<rparr>) w
         in w)
      else w)"

section \<open>Takeover and restore\<close>

definition a4091_state_restore :: "world \<Rightarrow> world" where
  "a4091_state_restore w =
     (if card_owned (a4091_save w) \<noteq> 0 then
        (let w = upd_save (\<lambda>s. s\<lparr>card_owned := 0\<rparr>) w;
             w = a4091_reset w;
             w = a4091_enable_driver_irq_handler w;
             w = a4091_remove_local_irq_handler w
         in if ((if intcount (a4091_save w) \<noteq> 0 then 1 else 0) AND
                (runtime_flags w AND FLAG_DEBUG)) \<noteq> 0 then
              emit (Printf ''Interrupt count=%d ISTAT=%02x SSTAT0=%02x DSTAT=%02x SIEN=%02x\<newline>''
                [PInt (uint (intcount (a4091_save w))), PInt (uint (ireg_istat (a4091_save w))),
                 PInt (uint (ireg_sstat0 (a4091_save w))), PInt (uint (ireg_dstat (a4091_save w))),
                 PInt (uint (ireg_sien (a4091_save w)))]) w
            else w)
      else w)"

text \<open>\<^verbatim>\<open>a4091_cleanup\<close>, the function registered with \<^verbatim>\<open>atexit\<close>.\<close>

definition a4091_cleanup :: "world \<Rightarrow> world" where
  "a4091_cleanup w = a4091_state_restore w"

text \<open>
  What \<^verbatim>\<open>a4091_state_takeover\<close> receives from outside: the address \<^verbatim>\<open>AllocMem\<close>
  returns for the local interrupt server, the server chain of the IRQ line as the walk
  finds it, the byte ISTAT returns to the read that is saved in \<^verbatim>\<open>reg_istat\<close>, the
  value of \<^verbatim>\<open>read_system_ticks\<close> taken as \<^verbatim>\<open>tick_start\<close>, and for the \<open>n\<close>-th turn of
  the wait loop (from 0) the byte ISTAT returns to the loop's read and the tick count
  \<^verbatim>\<open>access_timeout\<close> reads.
\<close>

record takeover_env =
  te_alloc :: uint32_t
  te_chain :: "server list"
  te_istat :: uint8_t
  te_tick_start :: uint64_t
  te_poll :: "nat \<Rightarrow> uint8_t"
  te_tick :: "nat \<Rightarrow> uint64_t"

text \<open>
  The loop \<^verbatim>\<open>while ((get_ncrreg8(REG_ISTAT) & REG_ISTAT_RST) == 0)
  if (access_timeout("ISTAT_RST timeout", 2, tick_start)) break;\<close>.
  It need not end: \<open>None\<close> is the run that never leaves the loop.
\<close>

partial_function (option) takeover_wait :: "takeover_env \<Rightarrow> nat \<Rightarrow> world \<Rightarrow> world option" where
  "takeover_wait env n w =
     (let w = get_ncrreg8 REG_ISTAT w in
      if (ucast (te_poll env n) AND REG_ISTAT_RST) = (0 :: uint32_t) then
        (let r = access_timeout ''ISTAT_RST timeout'' 2 (te_tick_start env) (te_tick env n) w in
         if fst r then Some (snd r) else takeover_wait env (Suc n) (snd r))
      else Some w)"

definition a4091_state_takeover :: "takeover_env \<Rightarrow> world \<Rightarrow> world option" where
  "a4091_state_takeover env w =
     (let w = (if cleanup_installed (a4091_save w) = 0 then
                 (let w = upd_save (\<lambda>s. s\<lparr>cleanup_installed := 1\<rparr>) w
                  in emit Atexit_cleanup w)
               else w)
      in if card_owned (a4091_save w) = 0 then
           (let w = upd_save (\<lambda>s. s\<lparr>card_owned := 1\<rparr>) w;
                w = a4091_add_local_irq_handler (te_alloc env) w;
                w = a4091_disable_driver_irq_handler (te_chain env) 0 w;
                w = get_ncrreg8 REG_ISTAT w;
                w = upd_save (\<lambda>s. s\<lparr>reg_istat := te_istat env\<rparr>) w;
                w = (if debug_on w then emit (Printf ''Soft resetting SIOP\<newline>'' []) w else w);
                w = set_ncrreg8 REG_ISTAT
                      (ucast (ucast (reg_istat (a4091_save w)) OR REG_ISTAT_RST)) w;
                w = get_ncrreg8 REG_ISTAT w;
                w = set_ncrreg8 REG_ISTAT (reg_istat (a4091_save w)) w;
                w = set_ncrreg8 REG_ISTAT
                      (ucast (ucast (reg_istat (a4091_save w)) OR REG_ISTAT_RST)) w
            in case takeover_wait env 0 w of
                 None \<Rightarrow> None
               | Some w \<Rightarrow>
                   Some (set_ncrreg8 REG_ISTAT
                           (ucast (ucast (reg_istat (a4091_save w)) AND NOT REG_ISTAT_RST)) w))
         else Some w)"

section \<open>DMA/SCRIPTS engine\<close>










section \<open>Autoconfig nibble reader\<close>

text \<open>
  \<^verbatim>\<open>get_creg\<close> reads two bytes of the bus.  The bus is a function from addresses to the
  byte a read returns.  C promotes the byte read to \<open>int\<close> before \<open>~\<close> is applied and
  truncates on the assignment to the \<open>uint8_t\<close> local; the same holds for the returned
  expression.  The promotions are written out with \<open>ucast\<close>.
\<close>

definition get_creg :: "(uint32_t \<Rightarrow> uint8_t) \<Rightarrow> uint32_t \<Rightarrow> uint32_t \<Rightarrow> uint8_t" where
  "get_creg bus base reg =
     (let hi = (ucast (NOT (ucast (bus (base + A4091_OFFSET_AUTOCONFIG + reg)) :: uint32_t)) :: uint8_t);
          lo = (ucast (NOT (ucast (bus (base + A4091_OFFSET_AUTOCONFIG + reg + 0x100)) :: uint32_t)) :: uint8_t)
      in ucast (((ucast hi :: uint32_t) AND 0xf0) OR drop_bit 4 (ucast lo :: uint32_t)))"

section \<open>The handler over a session\<close>

text \<open>
  What happens to the session structure between the installation of the local handler
  and its removal, as far as the handler's return value is concerned: the main line
  marks an interrupt as expected by clearing the captured ISTAT (the first statement
  of \<^verbatim>\<open>execute_script\<close>), and the interrupt line calls the handler.  \<open>session\<close> runs
  such a sequence and collects what the handler returns at each call.
\<close>

datatype session_step = Expect_interrupt | Interrupt_call "uint32_t \<Rightarrow> uint8_t"

fun session :: "a4091_save_t \<Rightarrow> session_step list \<Rightarrow> int list \<times> a4091_save_t" where
  "session save [] = ([], save)"
| "session save (Expect_interrupt # steps) = session (save\<lparr>ireg_istat := 0\<rparr>) steps"
| "session save (Interrupt_call bus # steps) =
     (let r = a4091_irq_handler bus save;
          rest = session (snd r) steps
      in (fst r # fst rest, snd rest))"

text \<open>The handler finds DIP or SIP set in the ISTAT it reads.\<close>

definition irq_pending :: "(uint32_t \<Rightarrow> uint8_t) \<Rightarrow> a4091_save_t \<Rightarrow> bool" where
  "irq_pending bus save =
     (bus (addr save + A4091_OFFSET_REGISTERS + REG_ISTAT) AND 0x03 \<noteq> 0)"

definition calls_of :: "session_step list \<Rightarrow> nat" where
  "calls_of steps = length (filter (\<lambda>s. s \<noteq> Expect_interrupt) steps)"


section \<open>Test engine: common parts\<close>

definition show_test_state :: "string \<Rightarrow> uint32_t \<Rightarrow> world \<Rightarrow> world" where
  "show_test_state name state w =
     (if state = 0 then emit (Printf ''PASS\<newline>'' []) w
      else
        (let w = emit (Printf ''  %-15s '' [PStr name]) w
         in if state = - 1 then w
            else emit (Printf ''FAIL\<newline>'' []) w))"

text \<open>
  \<^verbatim>\<open>is_running_in_uae\<close> walks the server chain of the IRQ line and compares the first
  three characters of each name with \<open>UAE\<close>.
\<close>

fun uae_walk :: "server list \<Rightarrow> uint32_t" where
  "uae_walk [] = 0"
| "uae_walk ((s, node) # rest) =
     (if take 3 (GetNodeName node) = ''UAE'' then 1 else uae_walk rest)"

definition is_running_in_uae :: "server list \<Rightarrow> uint32_t" where
  "is_running_in_uae slist = (if slist = [] then 0 else uae_walk slist)"

text \<open>
  \<^verbatim>\<open>print_bits\<close> prints the name of every bit set in \<open>val\<close>, from bit 0 up.  The name
  vectors passed in the source have an entry for every bit the value can have; the
  model prints a placeholder where C would read beyond the vector.
\<close>

function print_bits :: "string list \<Rightarrow> nat \<Rightarrow> uint32_t \<Rightarrow> world \<Rightarrow> world" where
  "print_bits bits bitnr val w =
     (if val \<noteq> 0 then
        print_bits bits (bitnr + 1) (drop_bit 1 val)
          (if val AND 1 \<noteq> 0 then
             emit (Printf '' %s''
               [PStr (if bitnr < length bits then bits ! bitnr else ''(beyond the vector)'')]) w
           else w)
      else w)"
  by pat_completeness auto
termination
proof (relation "measure (\<lambda>(bits, bitnr, val, w). unat val)")
  show "wf (measure (\<lambda>(bits, bitnr, val, w). unat val))" by simp
next
  fix bits :: "string list" and bitnr :: nat and val :: uint32_t and w :: world
  assume "val \<noteq> 0"
  then have "unat val \<noteq> 0" by (simp add: unat_eq_0)
  then have "unat val div 2 < unat val" by simp
  then show "((bits, bitnr + 1, drop_bit 1 val,
               if val AND 1 \<noteq> 0
               then emit (Printf '' %s''
                 [PStr (if bitnr < length bits then bits ! bitnr else ''(beyond the vector)'')]) w
               else w),
              (bits, bitnr, val, w)) \<in> measure (\<lambda>(bits, bitnr, val, w). unat val)"
    by (simp add: drop_bit_eq_div unat_div)
qed

declare print_bits.simps [simp del]

definition data_pins :: "string list" where
  "data_pins =
     [''D0'', ''D1'', ''D2'', ''D3'', ''D4'', ''D5'', ''D6'', ''D7'',
      ''D8'', ''D9'', ''D10'', ''D11'', ''D12'', ''D13'', ''D14'', ''D15'',
      ''D16'', ''D17'', ''D18'', ''D19'', ''D20'', ''D21'', ''D22'', ''D23'',
      ''D24'', ''D25'', ''D26'', ''D27'', ''D28'', ''D29'', ''D30'', ''D31'']"

text \<open>
  \<^verbatim>\<open>check_ncrreg_bits\<close>; \<open>regval\<close> is the byte the register returns to the read.
\<close>

definition check_ncrreg_bits :: "uint32_t \<Rightarrow> uint32_t \<Rightarrow> string \<Rightarrow> uint8_t \<Rightarrow> uint8_t \<Rightarrow> world \<Rightarrow> uint32_t \<times> world" where
  "check_ncrreg_bits mode reg regname rbits regval w =
     (let w = get_ncrreg8 reg w in
      if regval AND rbits \<noteq> 0 then
        (let modestr = (if mode = 0 then ''reserved'' else ''unexpected'');
             w = emit (Printf ''%s reg %02x [value %02x] has %s bits set: %02x\<newline>''
                   [PStr regname, PInt (uint reg), PInt (uint regval), PStr modestr,
                    PInt (uint (regval AND rbits))]) w
         in (1, w))
      else (0, w))"

section \<open>Register-access test\<close>

text \<open>
  What the card returns during \<^verbatim>\<open>test_register_access\<close>: \<open>rt_reserved pass i\<close> to the
  \<open>i\<close>-th of the six reserved-bit reads of a pass, \<open>rt_istat\<close> and \<open>rt_dstat\<close> to the two
  reads after the reset, \<open>rt_scratch rot\<close> and \<open>rt_temp rot\<close> to the read-backs of
  rotation \<open>rot\<close>.
\<close>

record regtest_env =
  rt_reserved :: "nat \<Rightarrow> nat \<Rightarrow> uint8_t"
  rt_istat :: uint8_t
  rt_dstat :: uint8_t
  rt_scratch :: "nat \<Rightarrow> uint32_t"
  rt_temp :: "nat \<Rightarrow> uint32_t"

definition reserved_pass :: "regtest_env \<Rightarrow> nat \<Rightarrow> uint32_t \<Rightarrow> world \<Rightarrow> uint32_t \<times> world" where
  "reserved_pass env pass rc w =
     (let r = check_ncrreg_bits 0 REG_SCNTL1 ''SCNTL1'' (ucast (BIT 1 OR BIT 0))
                (rt_reserved env pass 0) w;
          rc = rc + fst r;
          r = check_ncrreg_bits 0 REG_DSTAT ''DSTAT'' (ucast (BIT 6))
                (rt_reserved env pass 1) (snd r);
          rc = rc + fst r;
          r = check_ncrreg_bits 0 REG_CTEST0 ''CTEST0'' (ucast (BIT 7 OR BIT 1))
                (rt_reserved env pass 2) (snd r);
          rc = rc + fst r;
          r = check_ncrreg_bits 0 REG_CTEST0 ''CTEST2'' (ucast (BIT 7))
                (rt_reserved env pass 3) (snd r);
          rc = rc + fst r;
          r = check_ncrreg_bits 0 REG_ISTAT ''ISTAT'' (ucast (BIT 4 OR BIT 2))
                (rt_reserved env pass 4) (snd r);
          rc = rc + fst r;
          r = check_ncrreg_bits 0 REG_DIEN ''DIEN'' (ucast (BIT 7 OR BIT 6))
                (rt_reserved env pass 5) (snd r);
          rc = rc + fst r
      in (rc, snd r))"

function reserved_loop :: "regtest_env \<Rightarrow> nat \<Rightarrow> uint32_t \<Rightarrow> world \<Rightarrow> uint32_t \<times> world" where
  "reserved_loop env pass rc w =
     (if pass < 100 then
        (let r = reserved_pass env pass rc w
         in if fst r \<noteq> 0 then r
            else reserved_loop env (pass + 1) (fst r) (snd r))
      else (rc, w))"
  by pat_completeness auto
termination
  by (relation "measure (\<lambda>(env, pass, rc, w). 100 - pass)") auto

declare reserved_loop.simps [simp del]

record walk_state =
  ws_patt :: uint32_t
  ws_stuck_high :: uint32_t
  ws_stuck_low :: uint32_t
  ws_pins_diff :: uint32_t
  ws_rc :: uint32_t
  ws_world :: world

text \<open>
  The block run when a read-back differs from what was written; the source has it
  twice, for SCRATCH and for TEMP, with different format strings.
\<close>

definition walk_mismatch :: "string \<Rightarrow> uint32_t \<Rightarrow> uint32_t \<Rightarrow> uint32_t \<Rightarrow> walk_state \<Rightarrow> walk_state" where
  "walk_mismatch fmt got expected diff st =
     (let st = st\<lparr>ws_pins_diff := ws_pins_diff st OR diff\<rparr>;
          st = (if ws_rc st = 0 then
                  st\<lparr>ws_world := emit (Printf ''\<newline>'' []) (ws_world st)\<rparr>
                else st);
          st = st\<lparr>ws_rc := ws_rc st + 1\<rparr>
      in if sint (ws_rc st) < 8 then
           (let w = emit (Printf fmt [PInt (uint got), PInt (uint expected), PInt (uint diff)])
                      (ws_world st);
                w = print_bits data_pins 0 diff w;
                w = emit (Printf '')\<newline>'' []) w
            in st\<lparr>ws_world := w\<rparr>)
         else st)"

definition walk_turn :: "regtest_env \<Rightarrow> nat \<Rightarrow> walk_state \<Rightarrow> walk_state" where
  "walk_turn env rot st =
     (let patt = ws_patt st;
          nxt = push_bit 1 patt OR drop_bit 31 patt;
          w = set_ncrreg32 REG_SCRATCH patt (ws_world st);
          w = set_ncrreg32 REG_TEMP nxt w;
          got_scratch = rt_scratch env rot;
          w = get_ncrreg32 REG_SCRATCH w;
          got_temp = rt_temp env rot;
          w = get_ncrreg32 REG_TEMP w;
          st = st\<lparr>ws_stuck_high := ws_stuck_high st AND (got_scratch AND got_temp),
                  ws_stuck_low := ws_stuck_low st AND NOT (got_scratch OR got_temp),
                  ws_world := w\<rparr>;
          diff_s = got_scratch XOR patt;
          diff_t = got_temp XOR nxt;
          st = (if diff_s \<noteq> 0 then
                  walk_mismatch ''Reg SCRATCH %08x != %08x (diff %08x'' got_scratch patt diff_s st
                else st);
          st = (if diff_t \<noteq> 0 then
                  walk_mismatch ''Reg TEMP    %08x != %08x (diff %08x'' got_temp nxt diff_t st
                else st)
      in st\<lparr>ws_patt := nxt\<rparr>)"

definition test_register_access :: "regtest_env \<Rightarrow> world \<Rightarrow> uint32_t \<times> world" where
  "test_register_access env w =
     (let w = show_test_state ''Register test:'' (- 1) w;
          r = reserved_loop env 0 0 w;
          rc = fst r;
          w = a4091_reset (snd r);
          r = check_ncrreg_bits 1 REG_ISTAT ''ISTAT'' 0xff (rt_istat env) w;
          rc = rc + fst r;
          r = check_ncrreg_bits 1 REG_DSTAT ''DSTAT'' 0x7f (rt_dstat env) (snd r);
          rc = rc + fst r;
          st = fold (walk_turn env) [0..<256]
                 \<lparr>ws_patt = 0xf0e7c3a5, ws_stuck_high = 0xffffffff, ws_stuck_low = 0xffffffff,
                  ws_pins_diff = 0x00000000, ws_rc = rc, ws_world = snd r\<rparr>;
          stuck_high = ws_stuck_high st;
          stuck_low = ws_stuck_low st;
          rc = ws_rc st;
          w = ws_world st;
          pins_diff = ws_pins_diff st AND NOT (stuck_high OR stuck_low);
          w = (if stuck_high \<noteq> 0 then
                 (let w = emit (Printf ''Stuck high: %08x'' [PInt (uint stuck_high)]) w;
                      w = print_bits data_pins 0 stuck_high w
                  in emit (Printf '' (check for short to VCC)\<newline>'' []) w)
               else w);
          w = (if stuck_low \<noteq> 0 then
                 (let w = emit (Printf ''Stuck low: %08x'' [PInt (uint stuck_low)]) w;
                      w = print_bits data_pins 0 stuck_low w
                  in emit (Printf '' (check for short to GND)\<newline>'' []) w)
               else w);
          w = (if pins_diff \<noteq> 0 then
                 (let w = emit (Printf ''Floating or bridged: %02x'' [PInt (uint pins_diff)]) w;
                      w = print_bits data_pins 0 pins_diff w
                  in emit (Printf ''\<newline>'' []) w)
               else w);
          w = show_test_state ''Register test:'' rc w
      in (rc, w))"

text \<open>The values written to a 32-bit register, in order, in a list of events.\<close>

definition writes32 :: "uint32_t \<Rightarrow> event list \<Rightarrow> uint32_t list" where
  "writes32 a es = concat (map (\<lambda>e. case e of Write32 a' v \<Rightarrow> (if a' = a then [v] else []) | _ \<Rightarrow> []) es)"

definition writes8 :: "uint32_t \<Rightarrow> event list \<Rightarrow> uint8_t list" where
  "writes8 a es = concat (map (\<lambda>e. case e of Write8 a' v \<Rightarrow> (if a' = a then [v] else []) | _ \<Rightarrow> []) es)"

text \<open>The events a run adds to the world it starts in.\<close>

definition new_events :: "world \<Rightarrow> world \<Rightarrow> event list" where
  "new_events w w' = drop (length (trace w)) (trace w')"

definition shadow :: "world \<Rightarrow> uint32_t \<Rightarrow> uint32_t" where
  "shadow w reg = a4091_base w + A4091_OFFSET_REGISTERS + 0x40 + reg"

definition window :: "world \<Rightarrow> uint32_t \<Rightarrow> uint32_t" where
  "window w reg = a4091_base w + A4091_OFFSET_REGISTERS + reg"


text \<open>
  \<open>quiet32 w w'\<close>: the world \<open>w'\<close> continues \<open>w\<close> with the same card base and with events
  among which there is no 32-bit write.
\<close>

definition quiet32 :: "world \<Rightarrow> world \<Rightarrow> bool" where
  "quiet32 w w' =
     (a4091_base w' = a4091_base w \<and>
      (\<exists>es. trace w' = trace w @ es \<and> (\<forall>a. writes32 a es = [])))"


text \<open>
  The values a run from \<open>w\<close> to \<open>w'\<close> writes to the 32-bit register at bus address \<open>a\<close>,
  in order.
\<close>

definition written32 :: "uint32_t \<Rightarrow> world \<Rightarrow> world \<Rightarrow> uint32_t list" where
  "written32 a w w' = drop (length (writes32 a (trace w))) (writes32 a (trace w'))"

definition written8 :: "uint32_t \<Rightarrow> world \<Rightarrow> world \<Rightarrow> uint8_t list" where
  "written8 a w w' = drop (length (writes8 a (trace w))) (writes8 a (trace w'))"


section \<open>What a run of \<^verbatim>\<open>execute_script\<close> observes\<close>


definition handle_all :: "(uint32_t \<Rightarrow> uint8_t) list \<Rightarrow> a4091_save_t \<Rightarrow> a4091_save_t" where
  "handle_all buses s = fold (\<lambda>bus s. snd (a4091_irq_handler bus s)) buses s"









text \<open>
  \<open>script_frame w w'\<close>: \<open>w'\<close> continues \<open>w\<close> with the same card base, flags and session
  address, and if the captured ISTAT shows ABRT or DIP in \<open>w'\<close> then it did so in \<open>w\<close>
  already or DSTAT has been read in between, at the card address of the session.
\<close>

definition script_frame :: "world \<Rightarrow> world \<Rightarrow> bool" where
  "script_frame w w' =
     (a4091_base w' = a4091_base w \<and> runtime_flags w' = runtime_flags w \<and>
      TICKS_PER_SECOND w' = TICKS_PER_SECOND w \<and>
      addr (a4091_save w') = addr (a4091_save w) \<and>
      (\<exists>es. trace w' = trace w @ es \<and>
         (ireg_istat (a4091_save w') AND 0x81 = 0 \<or>
          ireg_istat (a4091_save w) AND 0x81 \<noteq> 0 \<or>
          Read8 (addr (a4091_save w) + A4091_OFFSET_REGISTERS + REG_DSTAT) \<in> set es)))"


section \<open>What a run of \<^verbatim>\<open>a4091_state_takeover\<close> observes\<close>

text \<open>
  Turn \<open>n\<close> of the wait loop reads ISTAT with the RST bit set; or it reads it clear and
  \<^verbatim>\<open>access_timeout\<close> answers that more than 2 ticks have passed; or neither, and the
  loop goes on.
\<close>

definition rst_seen :: "takeover_env \<Rightarrow> nat \<Rightarrow> bool" where
  "rst_seen env n = (te_poll env n AND 0x40 \<noteq> 0)"

definition wait_expired :: "takeover_env \<Rightarrow> nat \<Rightarrow> bool" where
  "wait_expired env n =
     (te_tick_start env \<le> te_tick env n \<and>
      2 < sint (ucast (te_tick env n - te_tick_start env) :: uint32_t))"

definition waiting :: "takeover_env \<Rightarrow> nat \<Rightarrow> bool" where
  "waiting env n = (\<not> rst_seen env n \<and> \<not> wait_expired env n)"

text \<open>
  The accesses to ISTAT among a list of events, in order: the reads of the register
  and the writes to its shadow address, for the card base of world \<open>w\<close>.
\<close>

definition is_istat_access :: "world \<Rightarrow> event \<Rightarrow> bool" where
  "is_istat_access w e =
     (case e of
        Read8 a \<Rightarrow> a = window w REG_ISTAT
      | Write8 a v \<Rightarrow> a = shadow w REG_ISTAT
      | _ \<Rightarrow> False)"

definition istat_events :: "world \<Rightarrow> event list \<Rightarrow> event list" where
  "istat_events w es = filter (is_istat_access w) es"

text \<open>
  \<open>waited w w' k\<close>: \<open>w'\<close> continues \<open>w\<close> with the same globals and session structure, and
  the accesses to ISTAT among the events added are \<open>k\<close> reads.
\<close>

definition waited :: "world \<Rightarrow> world \<Rightarrow> nat \<Rightarrow> bool" where
  "waited w w' k =
     (a4091_base w' = a4091_base w \<and> runtime_flags w' = runtime_flags w \<and>
      TICKS_PER_SECOND w' = TICKS_PER_SECOND w \<and> a4091_save w' = a4091_save w \<and>
      (\<exists>es. trace w' = trace w @ es \<and>
         istat_events w es = replicate k (Read8 (window w REG_ISTAT))))"


text \<open>
  \<open>off_istat w w'\<close>: \<open>w'\<close> continues \<open>w\<close> with the same card base, flags and tick rate,
  and no event added is an access to ISTAT.
\<close>

definition off_istat :: "world \<Rightarrow> world \<Rightarrow> bool" where
  "off_istat w w' =
     (a4091_base w' = a4091_base w \<and> runtime_flags w' = runtime_flags w \<and>
      TICKS_PER_SECOND w' = TICKS_PER_SECOND w \<and>
      (\<exists>es. trace w' = trace w @ es \<and> istat_events w es = []))"


section \<open>SCSI pin test\<close>

text \<open>
  What the card returns during the first part of \<^verbatim>\<open>test_scsi_pins\<close>: the four
  registers saved on entry, SBDL and SBCL after the reset, SSTAT1 before the bus reset
  is tried and SSTAT1 while it is asserted.
\<close>

record pins_env =
  sp_ctest4 :: uint8_t
  sp_scntl0 :: uint8_t
  sp_scntl1 :: uint8_t
  sp_dcntl :: uint8_t
  sp_sbdl :: uint8_t
  sp_sbcl :: uint8_t
  sp_sstat1 :: uint8_t
  sp_sstat1_reset :: uint8_t

text \<open>
  The model of \<^verbatim>\<open>test_scsi_pins\<close> covers the function from its entry to the end of the
  bus-reset test.  It ends either where the function returns (\<open>Returned\<close>, with the
  return value), or where the function goes on to drive the data and control pins
  (\<open>Pin_walk\<close>, with the value of \<open>rc\<close> at that point); the walk over the pins is not
  part of the model.
\<close>

datatype pins_exit =
    Returned (exit_rc: uint32_t) (exit_world: world)
  | Pin_walk (exit_rc: uint32_t) (exit_world: world)

definition test_scsi_pins :: "pins_env \<Rightarrow> world \<Rightarrow> pins_exit" where
  "test_scsi_pins env w =
     (let rc = (0 :: uint32_t);
          w = show_test_state ''SCSI pin test:'' (- 1) w;
          ctest4 = sp_ctest4 env; w = get_ncrreg8 REG_CTEST4 w;
          scntl0 = sp_scntl0 env; w = get_ncrreg8 REG_SCNTL0 w;
          scntl1 = sp_scntl1 env; w = get_ncrreg8 REG_SCNTL1 w;
          dcntl = sp_dcntl env; w = get_ncrreg8 REG_DCNTL w;
          w = a4091_reset w;
          w = emit (Delay 1) w;
          sbdl = sp_sbdl env; w = get_ncrreg8 REG_SBDL w;
          sbcl = sp_sbcl env; w = get_ncrreg8 REG_SBCL w;
          sbcl = (ucast ((ucast sbcl :: uint32_t) OR 0x20) :: uint8_t)
      in if sbcl = 0xff \<and> sbdl = 0xff then
           (let w = (if rc = 0 then emit (Printf ''\<newline>'' []) w else w);
                rc = rc + 1;
                w = emit (Printf ''All SCSI pins low (check term power D309A and F309A/F309B)\<newline>'' []) w
            in Returned rc w)
         else
           (let sstat1 = sp_sstat1 env; w = get_ncrreg8 REG_SSTAT1 w
            in if (ucast sstat1 AND REG_SSTAT1_RST) \<noteq> (0 :: uint32_t) then
                 (let w = (if rc = 0 then emit (Printf ''\<newline>'' []) w else w);
                      rc = rc + 1;
                      w = emit (Printf ''SCSI bus is in reset (check for SCTRL_RST short to GND)\<newline>'' []) w
                  in Returned rc w)
               else
                 (let w = set_ncrreg8 REG_SCNTL1 (ucast REG_SCNTL1_RST) w;
                      w = emit (Delay 1) w;
                      sstat1 = sp_sstat1_reset env; w = get_ncrreg8 REG_SSTAT1 w;
                      stuck = ((ucast sstat1 AND REG_SSTAT1_RST) = (0 :: uint32_t));
                      w = (if stuck \<and> rc = 0 then emit (Printf ''\<newline>'' []) w else w);
                      w = (if stuck then
                             emit (Printf ''SCSI bus cannot be reset (check for SCTRL_RST short to VCC)\<newline>'' []) w
                           else w);
                      rc = (if stuck then rc + 1 else rc);
                      w = set_ncrreg8 REG_SCNTL1 0 w;
                      w = emit (Delay 1) w
                  in Pin_walk rc w)))"


section \<open>Listing the cards, and \<^verbatim>\<open>main\<close>\<close>

text \<open>
  A card as \<^verbatim>\<open>FindConfigDev\<close> reports it.  The three flag bits the program looks at
  are kept as booleans (their bit positions are constants of the host's headers).
  \<open>cd_binding\<close> is \<open>None\<close> when \<^verbatim>\<open>GetCurrentBinding\<close> reports less than a whole
  \<^verbatim>\<open>struct CurrentBinding\<close>, and otherwise the file name and the product string of the
  binding, each possibly a null pointer.
\<close>

record ConfigDev =
  cd_BoardAddr :: uint32_t
  cd_BoardSize :: uint32_t
  cd_shutup :: bool
  cd_configme :: bool
  cd_badmemory :: bool
  cd_binding :: "(string option \<times> string option) option"

text \<open>
  What the host system gives \<^verbatim>\<open>main\<close>: whether \<^verbatim>\<open>expansion.library\<close> opens, the A4091
  cards in the order \<^verbatim>\<open>FindConfigDev\<close> enumerates them, the text \<open>version + 7\<close> (it holds
  the build date), the text of the macro \<^verbatim>\<open>PRIx32\<close>, and the C library's \<^verbatim>\<open>sscanf\<close> with the format \<^verbatim>\<open>%x%n\<close>: \<open>None\<close> when
  it converts nothing.
\<close>

record host_env =
  he_library_opens :: bool
  he_cards :: "ConfigDev list"
  he_version :: string
  he_PRIx32 :: string
  he_scan_hex :: "string \<Rightarrow> uint32_t option"

record list_state =
  ls_count :: uint32_t
  ls_did_header :: uint32_t
  ls_world :: world

definition list_card ::
  "host_env \<Rightarrow> uint32_t \<Rightarrow> ConfigDev \<Rightarrow> list_state \<Rightarrow> list_state" where
  "list_card env a cdev st =
     (if (a > 0x10 \<and> cd_BoardAddr cdev \<noteq> a) \<or> (a \<le> 0x10 \<and> ls_count st \<noteq> a) then
        st\<lparr>ls_count := ls_count st + 1\<rparr>
      else
        (let st = (if ls_did_header st = 0 then
                     st\<lparr>ls_did_header := ls_did_header st + 1,
                        ls_world := emit (Printf ''  Index Address  Size     Flags\<newline>'' [])
                                      (ls_world st)\<rparr>
                   else st);
             w = emit (Printf (''  %-3d   %08x %08'' @ he_PRIx32 env)
                   [PInt (sint (ls_count st)), PInt (uint (cd_BoardAddr cdev)),
                    PInt (uint (cd_BoardSize cdev))]) (ls_world st);
             w = (if cd_shutup cdev then emit (Printf '' ShutUp'' []) w else w);
             w = (if cd_configme cdev then emit (Printf '' ConfigMe'' []) w else w);
             w = (if cd_badmemory cdev then emit (Printf '' BadMemory'' []) w else w);
             w = (case cd_binding cdev of
                    None \<Rightarrow> w
                  | Some (file_name, product) \<Rightarrow>
                      (let w = emit (Printf '' Bound'' []) w;
                           w = (case file_name of None \<Rightarrow> w
                                | Some f \<Rightarrow> emit (Printf '' to %s'' [PStr f]) w);
                           w = (case product of None \<Rightarrow> w
                                | Some p \<Rightarrow> emit (Printf '' prod %s'' [PStr p]) w)
                       in w));
             w = emit (Printf ''\<newline>'' []) w
         in st\<lparr>ls_count := ls_count st + 1, ls_world := w\<rparr>))"

definition a4091_list :: "host_env \<Rightarrow> uint32_t \<Rightarrow> world \<Rightarrow> uint32_t \<times> world" where
  "a4091_list env a w =
     (if \<not> he_library_opens env then
        (1, emit (Printf ''Could not open %s\<newline>'' [PStr ''expansion.library'']) w)
      else
        (let st = fold (list_card env a) (he_cards env)
                    \<lparr>ls_count = 0, ls_did_header = 0, ls_world = w\<rparr>;
             w = (if ls_count st = 0 then
                    emit (Printf ''No A4091 cards detected\<newline>'' []) (ls_world st)
                  else if ls_did_header st = 0 then
                    emit (Printf ''Specified card %x not detected\<newline>'' [PInt (uint a)])
                      (ls_world st)
                  else ls_world st)
         in (if ls_count st = 0 then 1 else 0, w)))"

definition usage_text :: string where
  "usage_text =
     ''%s\<newline>\<newline>'' @
     ''This tool will test an installed A4091 SCSI controller for correct operation.\<newline>'' @
     ''Options:\<newline>'' @
     [CHR 0x09] @ ''-a  specify card address (slot or physical address): <addr>\<newline>'' @
     [CHR 0x09] @ ''-c  decode device autoconfig area\<newline>'' @
     [CHR 0x09] @ ''-d  enable debug output\<newline>'' @
     [CHR 0x09] @ ''-D  perform DMA from/to Amiga memory: <src> <dst> <len>\<newline>'' @
     [CHR 0x09] @ ''-f  ignore fact enforcer is present\<newline>'' @
     [CHR 0x09] @ ''-h  display this help text\<newline>'' @
     [CHR 0x09] @ ''-k  kill (disable) active C= A4091 device driver\<newline>'' @
     [CHR 0x09] @ ''-L  loop until failure\<newline>'' @
     [CHR 0x09] @ ''-P  probe and list all detected A4091 cards\<newline>'' @
     [CHR 0x09] @ ''-r  display NCR53C710 registers\<newline>'' @
     [CHR 0x09] @ ''-s  decode device external switches\<newline>'' @
     [CHR 0x09] @ ''-t  test card\<newline>''"

definition usage :: "host_env \<Rightarrow> world \<Rightarrow> world" where
  "usage env w = emit (Printf usage_text [PStr (he_version env)]) w"

text \<open>
  The locals of \<^verbatim>\<open>main\<close> while it reads its arguments.  \<open>ms_argv\<close> is \<^verbatim>\<open>argv\<close>, the
  program name first; \<^verbatim>\<open>nextarg\<close> replaces the arguments it hands out by null
  pointers.  \<open>ms_arg\<close> is the index \<^verbatim>\<open>arg\<close>.
\<close>

record main_state =
  ms_argv :: "string option list"
  ms_arg :: nat
  flag_config :: uint32_t
  flag_dma :: uint32_t
  flag_force :: uint32_t
  flag_loop :: uint32_t
  flag_kill :: uint32_t
  flag_list :: uint32_t
  flag_regs :: uint32_t
  flag_switches :: uint32_t
  flag_test :: uint32_t
  test_flags :: uint32_t
  ms_addr :: uint32_t
  ms_dma :: "uint32_t list"
  ms_world :: world

text \<open>
  How the modelled part of \<^verbatim>\<open>main\<close> ends: in \<^verbatim>\<open>exit\<close> with its status; in a call of
  \<^verbatim>\<open>sscanf\<close> on a null pointer (an argument already handed out by \<^verbatim>\<open>nextarg\<close>); or by
  going on to the actions on a card, which start with the check for a resident memory
  checker and are not part of this model (the state carries the options read, and
  \<open>rc\<close> is the value of the variable at that point).
\<close>

datatype main_exit =
    Exit uint32_t world
  | Null_sscanf world
  | Card_actions uint32_t main_state

text \<open>\<^verbatim>\<open>nextarg\<close>: the index of the first argument from \<open>argnum\<close> that is not null.\<close>

fun nextarg_index :: "string option list \<Rightarrow> nat \<Rightarrow> nat option" where
  "nextarg_index [] argnum = None"
| "nextarg_index (x # xs) argnum =
     (if argnum = 0 then
        (case x of None \<Rightarrow> map_option Suc (nextarg_index xs 0) | Some s \<Rightarrow> Some 0)
      else map_option Suc (nextarg_index xs (argnum - 1)))"

definition nextarg :: "string option list \<Rightarrow> nat \<Rightarrow> string option \<times> string option list" where
  "nextarg av argnum =
     (case nextarg_index av argnum of
        None \<Rightarrow> (None, av)
      | Some i \<Rightarrow> (av ! i, av[i := None]))"

definition dma_which :: "string list" where
  "dma_which = [''src'', ''dst'', ''len'']"

text \<open>The loop \<^verbatim>\<open>for (i = 0; i < 3; i++)\<close> of the option \<open>-D\<close>, from \<open>i\<close> on.\<close>

function read_dma_args :: "host_env \<Rightarrow> nat \<Rightarrow> main_state \<Rightarrow> main_exit + main_state" where
  "read_dma_args env i st =
     (if i < 3 then
        (let r = nextarg (ms_argv st) (ms_arg st + 1);
             st = st\<lparr>ms_argv := snd r\<rparr>
         in case fst r of
              None \<Rightarrow>
                Inl (Exit 1 (emit (Printf ''Command requires <src> <dst> <len>\<newline>'' [])
                               (ms_world st)))
            | Some s \<Rightarrow>
                (case he_scan_hex env s of
                   None \<Rightarrow>
                     Inl (Exit 1 (emit (Printf ''Invalid DMA %s %s specified\<newline>''
                                    [PStr (dma_which ! i), PStr s]) (ms_world st)))
                 | Some v \<Rightarrow> read_dma_args env (i + 1) (st\<lparr>ms_dma := (ms_dma st)[i := v]\<rparr>)))
      else Inr st)"
  by pat_completeness auto
termination
  by (relation "measure (\<lambda>(env, i, st). 3 - i)") auto

declare read_dma_args.simps [simp del]

definition is_digit :: "char \<Rightarrow> bool" where
  "is_digit c = (c \<in> set ''0123456789'')"

text \<open>
  The loop \<^verbatim>\<open>while (*(++ptr) != '\0') switch (*ptr)\<close> over the characters of an argument
  that starts with \<open>-\<close>; the list is the text from \<^verbatim>\<open>ptr\<close> on.
\<close>

fun parse_option_chars :: "host_env \<Rightarrow> string \<Rightarrow> main_state \<Rightarrow> main_exit + main_state" where
  "parse_option_chars env [] st = Inr st"
| "parse_option_chars env (c # cs) st =
     (if is_digit c then
        parse_option_chars env cs
          (st\<lparr>test_flags := test_flags st OR BIT (of_char c - of_char (CHR ''0''))\<rparr>)
      else if c = CHR ''a'' then
        (let st = st\<lparr>ms_arg := ms_arg st + 1\<rparr>
         in if ms_arg st \<ge> length (ms_argv st) then
              Inl (Exit 1 (emit (Printf ''You must specify an address\<newline>'' []) (ms_world st)))
            else
              (case ms_argv st ! ms_arg st of
                 None \<Rightarrow> Inl (Null_sscanf (ms_world st))
               | Some s \<Rightarrow>
                   (case he_scan_hex env s of
                      None \<Rightarrow>
                        Inl (Exit 1 (emit (Printf ''Invalid card address %s specified\<newline>''
                                       [PStr (c # cs)]) (ms_world st)))
                    | Some v \<Rightarrow> parse_option_chars env cs (st\<lparr>ms_addr := v\<rparr>))))
      else if c = CHR ''c'' then parse_option_chars env cs (st\<lparr>flag_config := 1\<rparr>)
      else if c = CHR ''d'' then
        parse_option_chars env cs
          (st\<lparr>ms_world := (ms_world st)\<lparr>runtime_flags :=
               (if runtime_flags (ms_world st) AND FLAG_DEBUG \<noteq> 0
                then runtime_flags (ms_world st) OR FLAG_MORE_DEBUG
                else runtime_flags (ms_world st) OR FLAG_DEBUG)\<rparr>\<rparr>)
      else if c = CHR ''D'' then
        (case read_dma_args env 0 (st\<lparr>flag_dma := 1\<rparr>) of
           Inl e \<Rightarrow> Inl e
         | Inr st \<Rightarrow> parse_option_chars env cs st)
      else if c = CHR ''h'' then Inl (Exit 0 (usage env (ms_world st)))
      else if c = CHR ''f'' then parse_option_chars env cs (st\<lparr>flag_force := 1\<rparr>)
      else if c = CHR ''k'' then parse_option_chars env cs (st\<lparr>flag_kill := 1\<rparr>)
      else if c = CHR ''L'' then parse_option_chars env cs (st\<lparr>flag_loop := 1\<rparr>)
      else if c = CHR ''P'' then parse_option_chars env cs (st\<lparr>flag_list := 1\<rparr>)
      else if c = CHR ''r'' then parse_option_chars env cs (st\<lparr>flag_regs := 1\<rparr>)
      else if c = CHR ''s'' then parse_option_chars env cs (st\<lparr>flag_switches := 1\<rparr>)
      else if c = CHR ''t'' then parse_option_chars env cs (st\<lparr>flag_test := 1\<rparr>)
      else
        Inl (Exit 1 (usage env (emit (Printf ''Unknown -%s\<newline>'' [PStr (c # cs)])
                                 (ms_world st)))))"




definition unknown_argument :: "host_env \<Rightarrow> string \<Rightarrow> main_state \<Rightarrow> main_exit" where
  "unknown_argument env ptr st =
     Exit 1 (usage env (emit (Printf ''Unknown argument %s\<newline>'' [PStr ptr]) (ms_world st)))"

text \<open>The loop \<^verbatim>\<open>for (arg = 1; arg < argc; arg++)\<close>, from the current \<^verbatim>\<open>arg\<close> on.\<close>

function parse_args :: "host_env \<Rightarrow> main_state \<Rightarrow> main_exit + main_state" where
  "parse_args env st =
     (if ms_arg st < length (ms_argv st) then
        (case ms_argv st ! ms_arg st of
           None \<Rightarrow> parse_args env (st\<lparr>ms_arg := ms_arg st + 1\<rparr>)
         | Some ptr \<Rightarrow>
             (case ptr of
                [] \<Rightarrow> Inl (unknown_argument env ptr st)
              | c # cs \<Rightarrow>
                  if c = CHR ''-'' then
                    (case parse_option_chars env cs st of
                       Inl e \<Rightarrow> Inl e
                     | Inr st' \<Rightarrow> parse_args env (st'\<lparr>ms_arg := ms_arg st' + 1\<rparr>))
                  else Inl (unknown_argument env ptr st)))
      else Inr st)"
  by pat_completeness auto
termination
proof (relation "measure (\<lambda>(env, st). length (ms_argv st) - ms_arg st)")
  show "wf (measure (\<lambda>(env, st). length (ms_argv st) - ms_arg st))"
    by simp
next
  fix env :: host_env and st :: main_state
  assume "ms_arg st < length (ms_argv st)"
  then show "((env, st\<lparr>ms_arg := ms_arg st + 1\<rparr>), (env, st))
               \<in> measure (\<lambda>(env, st). length (ms_argv st) - ms_arg st)"
    by simp
next
  fix env :: host_env and st st' :: main_state and ptr cs :: string and c :: char
  assume inside: "ms_arg st < length (ms_argv st)"
    and run: "parse_option_chars env cs st = Inr st'"
  have dma: "\<And>i s s'. read_dma_args env i s = Inr s' \<Longrightarrow>
               ms_arg s' = ms_arg s \<and> length (ms_argv s') = length (ms_argv s)"
  proof -
    fix i s s'
    show "read_dma_args env i s = Inr s' \<Longrightarrow>
            ms_arg s' = ms_arg s \<and> length (ms_argv s') = length (ms_argv s)"
    proof (induction env i s rule: read_dma_args.induct)
      case (1 env i st)
      show ?case
        using "1.prems" "1.IH"
        by (subst (asm) read_dma_args.simps)
           (auto simp add: Let_def nextarg_def split: if_splits option.splits)
    qed
  qed
  have "ms_arg st \<le> ms_arg st' \<and> length (ms_argv st') = length (ms_argv st)"
    using run
  proof (induction cs arbitrary: st)
    case Nil
    then show ?case by simp
  next
    case (Cons c cs)
    show ?case
      using Cons.prems
      by (auto simp add: Let_def split: if_splits option.splits sum.splits
            dest!: Cons.IH dma)
  qed
  with inside show "((env, st'\<lparr>ms_arg := ms_arg st' + 1\<rparr>), (env, st))
               \<in> measure (\<lambda>(env, st). length (ms_argv st) - ms_arg st)"
    by (simp, arith)
qed

declare parse_args.simps [simp del]

text \<open>
  \<^verbatim>\<open>main\<close>, up to the point where it either leaves through \<^verbatim>\<open>exit\<close> or turns to a card.
  The array \<^verbatim>\<open>dma\<close> starts out unset in the source; it is read only after \<open>-D\<close> has
  set all three entries.
\<close>

definition main :: "host_env \<Rightarrow> string list \<Rightarrow> world \<Rightarrow> main_exit" where
  "main env argv w =
     (case parse_args env
             \<lparr>ms_argv = map Some argv, ms_arg = 1, flag_config = 0, flag_dma = 0,
              flag_force = 0, flag_loop = 0, flag_kill = 0, flag_list = 0, flag_regs = 0,
              flag_switches = 0, flag_test = 0, test_flags = 0, ms_addr = 0,
              ms_dma = [0, 0, 0], ms_world = w\<rparr> of
        Inl e \<Rightarrow> e
      | Inr st \<Rightarrow>
          (let r = (if flag_list st \<noteq> 0 then a4091_list env (ms_addr st) (ms_world st)
                    else (0, ms_world st));
               rc = fst r;
               w = snd r
           in if (flag_config st OR flag_dma st OR flag_regs st OR flag_switches st OR
                  flag_test st OR flag_kill st) = 0 then
                (if flag_list st \<noteq> 0 then Exit rc w else Exit 1 (usage env w))
              else Card_actions rc (st\<lparr>ms_world := w\<rparr>)))"


section \<open>DMA FIFO test\<close>

text \<open>\<^verbatim>\<open>rand32\<close> and \<^verbatim>\<open>srand32\<close>, on the static \<^verbatim>\<open>rand_seed\<close>.\<close>

definition rand32 :: "world \<Rightarrow> uint32_t \<times> world" where
  "rand32 w =
     (let w = w\<lparr>rand_seed := rand_seed w * 25173 + 13849\<rparr>
      in (rand_seed w, w))"

definition srand32 :: "uint32_t \<Rightarrow> world \<Rightarrow> world" where
  "srand32 seed w = w\<lparr>rand_seed := seed\<rparr>"

text \<open>
  What the host and the card return during \<^verbatim>\<open>test_dma_fifo\<close>: the server chain of the
  IRQ line, CTEST1 and DSTAT after the reset, CTEST4 and CTEST7, DSTAT and CTEST1 after
  the push phase, CTEST6 and CTEST2 at each lane and byte of the pop phase, and CTEST1
  at the end.
\<close>

record fifo_env =
  ff_servers :: "server list"
  ff_ctest1_start :: uint8_t
  ff_dstat_start :: uint8_t
  ff_ctest4 :: uint8_t
  ff_ctest7 :: uint8_t
  ff_dstat_full :: uint8_t
  ff_ctest1_full :: uint8_t
  ff_ctest6 :: "nat \<Rightarrow> nat \<Rightarrow> uint8_t"
  ff_ctest2 :: "nat \<Rightarrow> nat \<Rightarrow> uint8_t"
  ff_ctest1_end :: uint8_t

text \<open>The value \<^verbatim>\<open>(ctest4 & ~3) | REG_CTEST4_FBL2 | lane\<close> written to CTEST4.\<close>

definition fifo_lane_select :: "uint8_t \<Rightarrow> nat \<Rightarrow> uint8_t" where
  "fifo_lane_select ctest4 lane =
     ucast (((ucast ctest4 :: uint32_t) AND NOT 3) OR REG_CTEST4_FBL2 OR of_nat lane)"

text \<open>The body of the inner push loop.\<close>

definition fifo_push_byte :: "uint8_t \<Rightarrow> nat \<Rightarrow> world \<Rightarrow> world" where
  "fifo_push_byte ctest7 cbyte w =
     (let r = rand32 w;
          rvalue = (ucast (drop_bit 8 (fst r)) :: uint16_t);
          w = snd r;
          pvalue = (ucast ((ucast ctest7 :: uint32_t) OR
                           (drop_bit 5 (ucast rvalue) AND BIT 3)) :: uint8_t);
          w = set_ncrreg8 REG_CTEST7 pvalue w;
          w = set_ncrreg8 REG_CTEST6 (ucast rvalue) w
      in if debug_on w then
           emit (Printf '' %02x'' [PInt (uint ((ucast rvalue :: uint32_t) AND 0x1ff))]) w
         else w)"

definition fifo_push_lane :: "uint8_t \<Rightarrow> uint8_t \<Rightarrow> nat \<Rightarrow> world \<Rightarrow> world" where
  "fifo_push_lane ctest4 ctest7 lane w =
     fold (fifo_push_byte ctest7) [0..<NCR_FIFO_SIZE]
       (set_ncrreg8 REG_CTEST4 (fifo_lane_select ctest4 lane) w)"

text \<open>
  The pop loops carry \<^verbatim>\<open>rc\<close> and, within a lane, \<^verbatim>\<open>count\<close>.  In
  \<^verbatim>\<open>((rc & BIT(lane)) == 0) || (count++ < 2)\<close> the count goes up only when the lane has
  failed before.
\<close>

record pop_state =
  ps_rc :: uint32_t
  ps_count :: int
  ps_world :: world

definition fifo_pop_byte :: "fifo_env \<Rightarrow> nat \<Rightarrow> nat \<Rightarrow> pop_state \<Rightarrow> pop_state" where
  "fifo_pop_byte env lane cbyte st =
     (let r = rand32 (ps_world st);
          rvalue = (ucast (drop_bit 8 (fst r) AND (BIT 9 - 1)) :: uint16_t);
          w = snd r;
          got = (ucast (ff_ctest6 env lane cbyte) :: uint16_t);
          w = get_ncrreg8 REG_CTEST6 w;
          pvalue = (ucast (push_bit 5 ((ucast (ff_ctest2 env lane cbyte) :: uint32_t) AND BIT 3))
                      :: uint16_t);
          w = get_ncrreg8 REG_CTEST2 w;
          got = got OR pvalue
      in if got \<noteq> rvalue then
           (let first = (ps_rc st AND BIT lane = 0);
                shown = (first \<or> ps_count st < 2);
                count = (if first then ps_count st else ps_count st + 1);
                w = (if shown then
                       emit (Printf ''Lane %d byte %d FIFO got %03x, expected %03x\<newline>''
                               [PInt (int lane), PInt (int cbyte), PInt (uint got),
                                PInt (uint rvalue)])
                         (if ps_rc st = 0 then emit (Printf ''\<newline>'' []) w else w)
                     else if count = 3 then emit (Printf ''...\<newline>'' []) w
                     else w)
            in \<lparr>ps_rc = ps_rc st OR BIT lane, ps_count = count, ps_world = w\<rparr>)
         else st\<lparr>ps_world := w\<rparr>)"

definition fifo_pop_lane :: "fifo_env \<Rightarrow> uint8_t \<Rightarrow> nat \<Rightarrow> pop_state \<Rightarrow> pop_state" where
  "fifo_pop_lane env ctest4 lane st =
     fold (fifo_pop_byte env lane) [0..<NCR_FIFO_SIZE]
       (st\<lparr>ps_count := 0,
           ps_world := set_ncrreg8 REG_CTEST4 (fifo_lane_select ctest4 lane) (ps_world st)\<rparr>)"

text \<open>The label \<^verbatim>\<open>fail:\<close> and what follows it.\<close>

definition fifo_fail :: "uint8_t \<Rightarrow> uint32_t \<Rightarrow> world \<Rightarrow> uint32_t \<times> world" where
  "fifo_fail ctest4 rc w =
     (let w = set_ncrreg8 REG_CTEST4 (ucast ((ucast ctest4 :: uint32_t) AND NOT 7)) w;
          w = show_test_state ''DMA FIFO test:'' rc w
      in (rc, w))"

definition fifo_pop_phase :: "fifo_env \<Rightarrow> uint8_t \<Rightarrow> uint32_t \<Rightarrow> world \<Rightarrow> uint32_t \<times> world" where
  "fifo_pop_phase env ctest4 rc w =
     (let w = srand32 19700119 w;
          st = fold (fifo_pop_lane env ctest4) [0..<4] \<lparr>ps_rc = rc, ps_count = 0, ps_world = w\<rparr>;
          rc = ps_rc st;
          w = ps_world st;
          ctest1 = ff_ctest1_end env;
          w = get_ncrreg8 REG_CTEST1 w;
          w = (if ctest1 \<noteq> 0xf0 then
                 emit (Printf
                   ''\<newline>DMA FIFO not empty after test: CTEST1 should be 0xf0, but is 0x%02x\<newline>''
                   [PInt (uint ctest1)]) w
               else w);
          rc = (if ctest1 \<noteq> 0xf0 then 0xff else rc)
      in fifo_fail ctest4 rc w)"

text \<open>
  \<^verbatim>\<open>test_dma_fifo\<close> from the point where CTEST4 is read: the push phase, the two checks
  that the FIFO is full, and the pop phase.
\<close>

definition fifo_push_phase :: "fifo_env \<Rightarrow> uint32_t \<Rightarrow> world \<Rightarrow> uint32_t \<times> world" where
  "fifo_push_phase env rc w =
     (let ctest4 = ff_ctest4 env;
          w = get_ncrreg8 REG_CTEST4 w;
          ctest7 = (ucast ((ucast (ff_ctest7 env) :: uint32_t) AND NOT (BIT 3)) :: uint8_t);
          w = get_ncrreg8 REG_CTEST7 w;
          w = srand32 19700119 w;
          w = fold (fifo_push_lane ctest4 ctest7) [0..<4] w;
          empty = ((ucast (ff_dstat_full env) AND REG_DSTAT_DFE) \<noteq> 0);
          w = get_ncrreg8 REG_DSTAT w;
          w = (if empty \<and> rc = 0 then emit (Printf ''\<newline>'' []) w else w);
          w = (if empty then emit (Printf ''DMA FIFO is empty: DSTAT DFE not 1\<newline>'' []) w
               else w);
          rc = (if empty then rc + 1 else rc)
      in if empty \<and> runtime_flags w AND FLAG_MORE_DEBUG = 0 then (0x0f, w)
         else
           (let ctest1 = ff_ctest1_full env;
                w = get_ncrreg8 REG_CTEST1 w;
                w = (if ctest1 \<noteq> 0x0f then
                       emit (Printf
                         ''DMA FIFO not full: CTEST1 should be 0x0f, but is 0x%02x\<newline>''
                         [PInt (uint ctest1)]) w
                     else w);
                rc = (if ctest1 \<noteq> 0x0f then 0xff else rc)
            in if ctest1 \<noteq> 0x0f \<and> runtime_flags w AND FLAG_MORE_DEBUG = 0 then
                 fifo_fail ctest4 rc w
               else fifo_pop_phase env ctest4 rc w))"

definition test_dma_fifo :: "fifo_env \<Rightarrow> world \<Rightarrow> uint32_t \<times> world" where
  "test_dma_fifo env w =
     (if is_running_in_uae (ff_servers env) \<noteq> 0 then (0, w)
      else
        (let rc = (0 :: uint32_t);
             w = show_test_state ''DMA FIFO test:'' (- 1) w;
             w = a4091_reset w;
             ctest1 = ff_ctest1_start env;
             w = get_ncrreg8 REG_CTEST1 w;
             w = (if ctest1 \<noteq> 0xf0 then
                    emit (Printf
                      ''DMA FIFO not empty before test: CTEST1 should be 0xf0, but is 0x%02x\<newline>''
                      [PInt (uint ctest1)]) w
                  else w)
         in if ctest1 \<noteq> 0xf0 \<and> runtime_flags w AND FLAG_MORE_DEBUG = 0 then (0x0f, w)
            else
              (let not_empty = ((ucast (ff_dstat_start env) AND REG_DSTAT_DFE) = 0);
                   w = get_ncrreg8 REG_DSTAT w;
                   w = (if not_empty \<and> rc = 0 then emit (Printf ''\<newline>'' []) w else w);
                   w = (if not_empty then
                          emit (Printf ''DMA FIFO not empty: DSTAT DFE not 1\<newline>'' []) w
                        else w);
                   rc = (if not_empty then rc + 1 else rc)
               in if not_empty \<and> runtime_flags w AND FLAG_MORE_DEBUG = 0 then (0x0f, w)
                  else fifo_push_phase env rc w)))"

text \<open>
  The numbers \<^verbatim>\<open>rand32\<close> returns after \<^verbatim>\<open>srand32(19700119)\<close>: \<open>fifo_random k\<close> is the
  value of \<^verbatim>\<open>rand_seed\<close> after \<open>k\<close> calls.  \<open>fifo_expected lane cbyte\<close> is the value the pop
  phase compares with at this lane and byte, \<open>(rand32() >> 8) & 0x1ff\<close>.
\<close>

definition rand_step :: "uint32_t \<Rightarrow> uint32_t" where
  "rand_step s = s * 25173 + 13849"

definition fifo_random :: "nat \<Rightarrow> uint32_t" where
  "fifo_random k = (rand_step ^^ k) 19700119"

definition fifo_expected :: "nat \<Rightarrow> nat \<Rightarrow> uint16_t" where
  "fifo_expected lane cbyte =
     ucast (drop_bit 8 (fifo_random (NCR_FIFO_SIZE * lane + cbyte + 1)) AND (BIT 9 - 1))"

text \<open>
  The two bytes the push loop writes for the random number \<open>r\<close>: \<^verbatim>\<open>rvalue\<close> cut to a byte
  for CTEST6, and \<^verbatim>\<open>pvalue\<close> for CTEST7.
\<close>

definition fifo_data :: "uint32_t \<Rightarrow> uint8_t" where
  "fifo_data r = ucast (ucast (drop_bit 8 r) :: uint16_t)"

definition fifo_parity :: "uint8_t \<Rightarrow> uint32_t \<Rightarrow> uint8_t" where
  "fifo_parity ctest7 r =
     ucast ((ucast ctest7 :: uint32_t) OR
            (drop_bit 5 (ucast (ucast (drop_bit 8 r) :: uint16_t)) AND BIT 3))"

text \<open>
  The 9-bit value a run from \<open>w\<close> to \<open>w'\<close> has pushed at a lane and byte: the byte written
  to CTEST6, with bit 3 of the byte written to CTEST7 just before it as bit 8.
\<close>

definition fifo_pushed :: "world \<Rightarrow> world \<Rightarrow> nat \<Rightarrow> nat \<Rightarrow> uint16_t" where
  "fifo_pushed w w' lane cbyte =
     (let k = NCR_FIFO_SIZE * lane + cbyte;
          d = written8 (shadow w REG_CTEST6) w w' ! k;
          p = written8 (shadow w REG_CTEST7) w w' ! k
      in ucast d OR push_bit 5 (ucast p AND 8))"

text \<open>The 9-bit value the card hands back at a lane and byte of the pop phase.\<close>

definition fifo_popped :: "fifo_env \<Rightarrow> nat \<Rightarrow> nat \<Rightarrow> uint16_t" where
  "fifo_popped env lane cbyte =
     ucast (ff_ctest6 env lane cbyte) OR
     ucast (push_bit 5 ((ucast (ff_ctest2 env lane cbyte) :: uint32_t) AND BIT 3))"

text \<open>
  Which parts of \<^verbatim>\<open>test_dma_fifo\<close> a run reaches.  The push loop runs unless the test is
  skipped under UAE or one of the two checks after the reset fails without
  \<^verbatim>\<open>FLAG_MORE_DEBUG\<close>; the pop loop runs when moreover neither of the two checks after
  the push loop ends the test.  \<open>fifo_entry_rc\<close> is the value of \<^verbatim>\<open>rc\<close> at the start of
  the pop loop.
\<close>

definition fifo_pushes :: "fifo_env \<Rightarrow> world \<Rightarrow> bool" where
  "fifo_pushes env w =
     (is_running_in_uae (ff_servers env) = 0 \<and>
      (ff_ctest1_start env = 0xf0 \<or> runtime_flags w AND FLAG_MORE_DEBUG \<noteq> 0) \<and>
      ((ucast (ff_dstat_start env) AND REG_DSTAT_DFE) \<noteq> 0 \<or>
       runtime_flags w AND FLAG_MORE_DEBUG \<noteq> 0))"

definition fifo_pops :: "fifo_env \<Rightarrow> world \<Rightarrow> bool" where
  "fifo_pops env w =
     (fifo_pushes env w \<and>
      ((ucast (ff_dstat_full env) AND REG_DSTAT_DFE) = 0 \<or>
       runtime_flags w AND FLAG_MORE_DEBUG \<noteq> 0) \<and>
      (ff_ctest1_full env = 0x0f \<or> runtime_flags w AND FLAG_MORE_DEBUG \<noteq> 0))"

definition fifo_entry_rc :: "fifo_env \<Rightarrow> uint32_t" where
  "fifo_entry_rc env =
     (if ff_ctest1_full env \<noteq> 0x0f then 0xff
      else (if (ucast (ff_dstat_start env) AND REG_DSTAT_DFE) = 0 then 1 else 0) +
           (if (ucast (ff_dstat_full env) AND REG_DSTAT_DFE) \<noteq> 0 then 1 else 0))"

text \<open>
  The bus traffic of the FIFO among a list of events: the writes to CTEST4, CTEST6 and
  CTEST7 and the reads of CTEST6 and CTEST2, in their order.
\<close>

definition fifo_bus :: "world \<Rightarrow> event list \<Rightarrow> event list" where
  "fifo_bus w es =
     filter (\<lambda>e. case e of
                   Write8 a v \<Rightarrow> a = shadow w REG_CTEST4 \<or> a = shadow w REG_CTEST6 \<or>
                                 a = shadow w REG_CTEST7
                 | Read8 a \<Rightarrow> a = window w REG_CTEST6 \<or> a = window w REG_CTEST2
                 | _ \<Rightarrow> False) es"

text \<open>
  What the two loops put on the bus.  Pushing lane by lane: the lane is selected in
  CTEST4, then for each of the 16 bytes the parity goes to CTEST7 and the data byte to
  CTEST6, both taken from the next number of the generator.  Popping lane by lane: the
  lane is selected, then each byte is read from CTEST6 and its parity from CTEST2.
\<close>

definition fifo_push_script :: "world \<Rightarrow> uint8_t \<Rightarrow> uint8_t \<Rightarrow> nat \<Rightarrow> event list" where
  "fifo_push_script w ctest4 ctest7 lanes =
     concat (map (\<lambda>lane.
       Write8 (shadow w REG_CTEST4) (fifo_lane_select ctest4 lane) #
       concat (map (\<lambda>cbyte.
         [Write8 (shadow w REG_CTEST7)
            (fifo_parity ctest7 (fifo_random (Suc (NCR_FIFO_SIZE * lane + cbyte)))),
          Write8 (shadow w REG_CTEST6)
            (fifo_data (fifo_random (Suc (NCR_FIFO_SIZE * lane + cbyte))))])
         [0..<NCR_FIFO_SIZE])) [0..<lanes])"

definition fifo_pop_script :: "world \<Rightarrow> uint8_t \<Rightarrow> nat \<Rightarrow> event list" where
  "fifo_pop_script w ctest4 lanes =
     concat (map (\<lambda>lane.
       Write8 (shadow w REG_CTEST4) (fifo_lane_select ctest4 lane) #
       concat (map (\<lambda>cbyte. [Read8 (window w REG_CTEST6), Read8 (window w REG_CTEST2)])
         [0..<NCR_FIFO_SIZE])) [0..<lanes])"

text \<open>
  The report of a miscompare at a lane and byte, with the value the card handed back
  and the value expected there.
\<close>

definition lane_report :: "fifo_env \<Rightarrow> nat \<Rightarrow> nat \<Rightarrow> event" where
  "lane_report env lane cbyte =
     Printf ''Lane %d byte %d FIFO got %03x, expected %03x\<newline>''
       [PInt (int lane), PInt (int cbyte), PInt (uint (fifo_popped env lane cbyte)),
        PInt (uint (fifo_expected lane cbyte))]"

definition is_lane_report :: "event \<Rightarrow> bool" where
  "is_lane_report e =
     (case e of
        Printf f args \<Rightarrow> f = ''Lane %d byte %d FIFO got %03x, expected %03x\<newline>''
      | _ \<Rightarrow> False)"

definition truthful_report :: "fifo_env \<Rightarrow> event \<Rightarrow> bool" where
  "truthful_report env e =
     (\<exists>lane<4. \<exists>cbyte<NCR_FIFO_SIZE.
        e = lane_report env lane cbyte \<and> fifo_popped env lane cbyte \<noteq> fifo_expected lane cbyte)"

text \<open>
  \<open>fifo_ran env w w' script\<close>: \<open>w'\<close> continues \<open>w\<close> with the same card base and flags, the
  FIFO traffic among the events added is \<open>script\<close>, and every miscompare reported among
  them is one at a lane and byte where the card handed back another value than the
  expected one.
\<close>

definition fifo_ran :: "fifo_env \<Rightarrow> world \<Rightarrow> world \<Rightarrow> event list \<Rightarrow> bool" where
  "fifo_ran env w w' script =
     (a4091_base w' = a4091_base w \<and> runtime_flags w' = runtime_flags w \<and>
      (\<exists>es. trace w' = trace w @ es \<and> fifo_bus w es = script \<and>
            list_all (\<lambda>e. is_lane_report e \<longrightarrow> truthful_report env e) es))"



section \<open>DMA copy test: the protection of bit-flip addresses\<close>

definition DMA_LEN_BIT :: nat where
  "DMA_LEN_BIT = 12"

definition BF_FLAG_COPY :: uint8_t where
  "BF_FLAG_COPY = 0x01"

definition BF_FLAG_CORRUPT :: uint8_t where
  "BF_FLAG_CORRUPT = 0x02"

text \<open>\<^verbatim>\<open>BFADDR_SIZE\<close>: 32 rows of 32 entries of four bytes.\<close>

definition BFADDR_SIZE :: uint32_t where
  "BFADDR_SIZE = 32 * 32 * 4"

text \<open>
  What the host gives \<^verbatim>\<open>test_dma_copy\<close> up to the end of the protection loops: the
  clock, what \<^verbatim>\<open>AllocMem\<close> and \<^verbatim>\<open>AllocAbs\<close> return inside the two calls of
  \<^verbatim>\<open>AllocMem_aligned\<close>, what \<^verbatim>\<open>AllocMem\<close> returns for the two arrays, and for every
  pair of bits what \<^verbatim>\<open>AllocAbs\<close> returns for the flipped address and what the fallback
  \<^verbatim>\<open>AllocMem\<close> returns.  \<open>0\<close> is the null pointer of a failed allocation.
\<close>

record copy_env =
  ce_time :: uint32_t
  ce_src_probe :: uint32_t
  ce_src :: uint32_t
  ce_dst_probe :: uint32_t
  ce_dst_buf :: uint32_t
  ce_bf_addr_array :: uint32_t
  ce_bf_mem_array :: uint32_t
  ce_abs :: "nat \<Rightarrow> nat \<Rightarrow> uint32_t"
  ce_mem :: "nat \<Rightarrow> nat \<Rightarrow> uint32_t"

text \<open>
  \<^verbatim>\<open>AllocMem_aligned(len, alignment)\<close>; \<open>probe\<close> is what \<^verbatim>\<open>AllocMem\<close> returns and \<open>placed\<close>
  what \<^verbatim>\<open>AllocAbs\<close> returns.
\<close>

definition AllocMem_aligned ::
  "uint32_t \<Rightarrow> uint32_t \<Rightarrow> uint32_t \<Rightarrow> uint32_t \<Rightarrow> world \<Rightarrow> uint32_t \<times> world" where
  "AllocMem_aligned len alignment probe placed w =
     (let w = emit Forbid w;
          w = emit (AllocMem (len + alignment) probe) w
      in if probe \<noteq> 0 then
           (let w = emit (FreeMem probe (len + alignment)) w;
                w = emit (AllocAbs len ((probe + alignment - 1) AND NOT (alignment - 1))) w
            in (placed, emit Permit w))
         else (probe, emit Permit w))"

text \<open>
  The locals of \<^verbatim>\<open>test_dma_copy\<close> that the protection loops work on: the two arrays
  \<^verbatim>\<open>bf_addr\<close> and \<^verbatim>\<open>bf_mem\<close> (handed out cleared), the flags and the two counters.
\<close>

record flip_grid =
  bf_addr :: "nat \<Rightarrow> nat \<Rightarrow> uint32_t"
  bf_mem :: "nat \<Rightarrow> nat \<Rightarrow> uint32_t"
  bf_flags :: "nat \<Rightarrow> nat \<Rightarrow> uint8_t"
  bf_copies :: uint32_t
  bf_buffers :: uint32_t
  fg_world :: world

definition grid_update :: "(nat \<Rightarrow> nat \<Rightarrow> 'a) \<Rightarrow> nat \<Rightarrow> nat \<Rightarrow> 'a \<Rightarrow> nat \<Rightarrow> nat \<Rightarrow> 'a" where
  "grid_update g i j v = g(i := (g i)(j := v))"

text \<open>The body of the inner protection loop.\<close>

definition protect_entry ::
  "copy_env \<Rightarrow> uint32_t \<Rightarrow> uint32_t \<Rightarrow> nat \<Rightarrow> nat \<Rightarrow> flip_grid \<Rightarrow> flip_grid" where
  "protect_entry env dma_len dst bit1 bit2 st =
     (let a = (if bit1 = bit2 then dst XOR BIT bit1 else dst XOR BIT bit1 XOR BIT bit2);
          st = st\<lparr>bf_addr := grid_update (bf_addr st) bit1 bit2 a\<rparr>;
          m = ce_abs env bit1 bit2;
          st = st\<lparr>bf_mem := grid_update (bf_mem st) bit1 bit2 m,
                  fg_world := emit (AllocAbs dma_len (bf_addr st bit1 bit2)) (fg_world st)\<rparr>
      in if bf_mem st bit1 bit2 = 0 then
           (let m = ce_mem env bit1 bit2
            in st\<lparr>bf_mem := grid_update (bf_mem st) bit1 bit2 m,
                  bf_flags := grid_update (bf_flags st) bit1 bit2
                                (bf_flags st bit1 bit2 OR BF_FLAG_COPY),
                  bf_copies := bf_copies st + 1,
                  fg_world := emit (AllocMem dma_len m) (fg_world st)\<rparr>)
         else
           st\<lparr>bf_buffers := bf_buffers st + 1,
              fg_world := emit (Memset (bf_mem st bit1 bit2) 0 dma_len) (fg_world st)\<rparr>)"

definition protect_grid :: "copy_env \<Rightarrow> uint32_t \<Rightarrow> uint32_t \<Rightarrow> flip_grid \<Rightarrow> flip_grid" where
  "protect_grid env dma_len dst st =
     fold (\<lambda>bit1. fold (protect_entry env dma_len dst bit1) [bit1..<32]) [DMA_LEN_BIT..<32] st"

text \<open>The listing of the addresses under \<^verbatim>\<open>FLAG_DEBUG\<close>.\<close>

definition show_flip_addrs :: "flip_grid \<Rightarrow> world \<Rightarrow> world" where
  "show_flip_addrs st w =
     (if debug_on w then
        fold (\<lambda>bit1 w.
                emit (Printf ''\<newline>'' [])
                  (fold (\<lambda>bit2. emit (Printf '' %08x'' [PInt (uint (bf_addr st bit1 bit2))]))
                     [bit1..<32] w))
          [DMA_LEN_BIT..<32] (emit (Printf ''Bit flip addrs:\<newline>'' []) w)
      else w)"

text \<open>
  The loop after \<^verbatim>\<open>dma_init_siop()\<close> and \<^verbatim>\<open>Forbid()\<close> that saves the contents of the
  addresses that could not be reserved.
\<close>

definition capture_entry :: "uint32_t \<Rightarrow> flip_grid \<Rightarrow> nat \<Rightarrow> nat \<Rightarrow> world \<Rightarrow> world" where
  "capture_entry dma_len st bit1 bit2 w =
     (if bf_flags st bit1 bit2 AND BF_FLAG_COPY \<noteq> 0 then
        emit (Memcpy (bf_mem st bit1 bit2) (bf_addr st bit1 bit2) dma_len) w
      else w)"

definition capture_grid :: "uint32_t \<Rightarrow> flip_grid \<Rightarrow> world \<Rightarrow> world" where
  "capture_grid dma_len st w =
     fold (\<lambda>bit1. fold (capture_entry dma_len st bit1) [bit1..<32]) [DMA_LEN_BIT..<32] w"

text \<open>
  The protection loops, the listing, \<^verbatim>\<open>Forbid()\<close> and the saving loop, as they follow one
  another in \<^verbatim>\<open>test_dma_copy\<close>; the call of \<^verbatim>\<open>dma_init_siop\<close> before \<^verbatim>\<open>Forbid()\<close> is left
  out (it touches the card only).  \<^verbatim>\<open>bf_flags\<close> has been cleared by \<^verbatim>\<open>memset\<close> and the two
  arrays were handed out cleared (\<^verbatim>\<open>MEMF_CLEAR\<close>).
\<close>

definition copy_protect :: "copy_env \<Rightarrow> uint32_t \<Rightarrow> uint32_t \<Rightarrow> world \<Rightarrow> flip_grid" where
  "copy_protect env dma_len dst w =
     (let st = protect_grid env dma_len dst
                 \<lparr>bf_addr = (\<lambda>i j. 0), bf_mem = (\<lambda>i j. 0),
                  bf_flags = (\<lambda>i j. 0), bf_copies = 0, bf_buffers = 0,
                  fg_world = w\<rparr>;
          w = show_flip_addrs st (fg_world st);
          w = emit Forbid w;
          w = capture_grid dma_len st w
      in st\<lparr>fg_world := w\<rparr>)"

text \<open>
  The model of \<^verbatim>\<open>test_dma_copy\<close> covers the function from its entry to the end of the
  loop that saves the unreserved addresses.  It ends where the function returns after
  a failed allocation (\<open>Copy_failed\<close>, with the return value), or where the function
  goes on to the DMA passes (\<open>Protected\<close>, with \<^verbatim>\<open>src\<close>, \<^verbatim>\<open>dst\<close> and the grid); the passes
  and the release of the memory are not part of the model.
\<close>

datatype copy_exit =
    Copy_failed uint32_t world
  | Protected uint32_t uint32_t flip_grid

definition test_dma_copy :: "copy_env \<Rightarrow> world \<Rightarrow> copy_exit" where
  "test_dma_copy env w =
     (let dma_len = BIT DMA_LEN_BIT;
          w = show_test_state ''DMA copy:'' (- 1) w;
          w = srand32 (ce_time env) w;
          r = AllocMem_aligned dma_len 16 (ce_src_probe env) (ce_src env) w;
          src = fst r;
          w = snd r
      in if src = 0 then
           (let w = emit (Printf ''Failed to allocate src buffer\<newline>'' []) w
            in Copy_failed 1 (show_test_state ''DMA copy:'' 1 w))
         else
           (let r = AllocMem_aligned (dma_len * 3) 16 (ce_dst_probe env) (ce_dst_buf env) w;
                dst_buf = fst r;
                w = snd r
            in if dst_buf = 0 then
                 (let w = emit (Printf ''Failed to allocate dst buffer\<newline>'' []) w;
                      w = emit (FreeMem src dma_len) w
                  in Copy_failed 1 (show_test_state ''DMA copy:'' 1 w))
               else
                 (let dst = dst_buf + dma_len;
                      addr_array = ce_bf_addr_array env;
                      w = emit (AllocMem BFADDR_SIZE addr_array) w;
                      mem_array = ce_bf_mem_array env;
                      w = emit (AllocMem BFADDR_SIZE mem_array) w
                  in if addr_array = 0 \<or> mem_array = 0 then
                       (let w = emit (Printf ''Failed to allocate protection array\<newline>'' []) w;
                            w = (if mem_array \<noteq> 0 then emit (FreeMem mem_array BFADDR_SIZE) w
                                 else w);
                            w = (if addr_array \<noteq> 0 then emit (FreeMem addr_array BFADDR_SIZE) w
                                 else w);
                            w = emit (FreeMem dst_buf (dma_len * 3)) w;
                            w = emit (FreeMem src dma_len) w
                        in Copy_failed 1 (show_test_state ''DMA copy:'' 1 w))
                     else
                       (let w = (if debug_on w then
                                   emit (Printf ''\<newline>DMA src=%08x dst=%08x len=%x\<newline>''
                                     [PInt (uint src), PInt (uint dst), PInt (uint dma_len)]) w
                                 else w)
                        in Protected src dst (copy_protect env dma_len dst w)))))"

text \<open>
  The address the grid records for a pair of bits, and what the protection of a pair
  leaves on the record of events.
\<close>

definition flip_address :: "uint32_t \<Rightarrow> nat \<Rightarrow> nat \<Rightarrow> uint32_t" where
  "flip_address dst bit1 bit2 =
     (if bit1 = bit2 then dst XOR push_bit bit1 1 else dst XOR push_bit bit1 1 XOR push_bit bit2 1)"

definition in_grid :: "nat \<Rightarrow> nat \<Rightarrow> bool" where
  "in_grid bit1 bit2 = (DMA_LEN_BIT \<le> bit1 \<and> bit1 \<le> bit2 \<and> bit2 < 32)"


definition grid_entry :: "flip_grid \<Rightarrow> nat \<Rightarrow> nat \<Rightarrow> uint32_t \<times> uint32_t \<times> uint8_t" where
  "grid_entry st bit1 bit2 = (bf_addr st bit1 bit2, bf_mem st bit1 bit2, bf_flags st bit1 bit2)"

text \<open>
  What the protection of a pair leaves in the grid, given the flags the entry had, and
  the calls it makes; and the call the saving loop makes for a pair.
\<close>

definition protected_entry ::
  "copy_env \<Rightarrow> uint32_t \<Rightarrow> nat \<Rightarrow> nat \<Rightarrow> uint8_t \<Rightarrow> uint32_t \<times> uint32_t \<times> uint8_t" where
  "protected_entry env dst bit1 bit2 old =
     (flip_address dst bit1 bit2,
      if ce_abs env bit1 bit2 = 0 then ce_mem env bit1 bit2 else ce_abs env bit1 bit2,
      if ce_abs env bit1 bit2 = 0 then old OR BF_FLAG_COPY else old)"

definition protect_events :: "copy_env \<Rightarrow> uint32_t \<Rightarrow> uint32_t \<Rightarrow> nat \<Rightarrow> nat \<Rightarrow> event list" where
  "protect_events env dma_len dst bit1 bit2 =
     AllocAbs dma_len (flip_address dst bit1 bit2) #
     (if ce_abs env bit1 bit2 = 0 then [AllocMem dma_len (ce_mem env bit1 bit2)]
      else [Memset (ce_abs env bit1 bit2) 0 dma_len])"

definition capture_events :: "uint32_t \<Rightarrow> flip_grid \<Rightarrow> nat \<Rightarrow> nat \<Rightarrow> event list" where
  "capture_events dma_len st bit1 bit2 =
     (if bf_flags st bit1 bit2 AND BF_FLAG_COPY \<noteq> 0 then
        [Memcpy (bf_mem st bit1 bit2) (bf_addr st bit1 bit2) dma_len]
      else [])"


section \<open>Concrete inputs used by the examples\<close>

text \<open>
  A card at bus address \<open>0x40000000\<close> that has been seized: the local interrupt server
  lives at \<open>0x00200000\<close>, the driver's displaced server at \<open>0x00100000\<close>, and three
  interrupts have been counted.  \<open>released_world\<close> is the same session never seized.
\<close>

definition idle_save :: a4091_save_t where
  "idle_save = \<lparr>addr = 0x40000000, intcount = 0, card_owned = 0, cleanup_installed = 0,
       reg_dcntl = 0, reg_istat = 0, local_isr = 0, driver_isr = 0,
       ireg_istat = 0, ireg_sien = 0, ireg_sstat0 = 0, ireg_dstat = 0\<rparr>"

definition released_world :: world where
  "released_world = \<lparr>a4091_base = 0x40000000, runtime_flags = 0, TICKS_PER_SECOND = 50,
       save_addr = 0x00300000, handler_addr = 0x00300100, rand_seed = 0,
       a4091_save = idle_save, isr_mem = Map.empty, trace = []\<rparr>"

definition owned_world :: world where
  "owned_world = released_world\<lparr>a4091_save :=
       idle_save\<lparr>intcount := 3, card_owned := 1, cleanup_installed := 1,
                  local_isr := 0x00200000, driver_isr := 0x00100000\<rparr>\<rparr>"

text \<open>
  A card whose SCRATCH and TEMP registers read back what was written, with no reserved
  bit set and DSTAT showing only an empty DMA FIFO.
\<close>

definition healthy_regs :: regtest_env where
  "healthy_regs = \<lparr>rt_reserved = (\<lambda>pass i. 0), rt_istat = 0, rt_dstat = 0x80,
       rt_scratch = (\<lambda>rot. word_rotl rot 0xf0e7c3a5),
       rt_temp = (\<lambda>rot. word_rotl (Suc rot) 0xf0e7c3a5)\<rparr>"


text \<open>
  What the card at \<open>0x40000000\<close> returns to the handler when a DMA interrupt is pending:
  ISTAT reads \<open>0x01\<close> (DIP), DSTAT reads \<open>0x04\<close> (SCRIPTS interrupt instruction), every
  other register reads \<open>0\<close>.  \<open>installed_save\<close> is the session structure right after
  the local handler has been installed.
\<close>

definition dma_done_bus :: "uint32_t \<Rightarrow> uint8_t" where
  "dma_done_bus a = (if a = 0x40800022 then 0x01 else if a = 0x4080000f then 0x04 else 0)"

definition installed_save :: a4091_save_t where
  "installed_save = a4091_save (a4091_add_local_irq_handler 0x00200000 released_world)"







text \<open>
  A takeover during which the card answers the reset at once: ISTAT reads 0 when it is
  saved and \<open>0x40\<close> (RST) at the first read of the wait loop; no other interrupt server
  is on the chain; \<^verbatim>\<open>AllocMem\<close> returns \<open>0x00200000\<close>.
\<close>

definition reset_ack_run :: takeover_env where
  "reset_ack_run = \<lparr>te_alloc = 0x00200000, te_chain = [], te_istat = 0,
       te_tick_start = 100, te_poll = (\<lambda>n. 0x40), te_tick = (\<lambda>n. 100)\<rparr>"


text \<open>
  A SCSI bus on which every data line reads asserted and every control line but
  \<^verbatim>\<open>SCTRL_BSY\<close> (bit 5 of SBCL) does: SBDL reads \<open>0xFF\<close>, SBCL reads \<open>0xDF\<close>.
\<close>

definition bsy_clear_pins :: pins_env where
  "bsy_clear_pins = \<lparr>sp_ctest4 = 0, sp_scntl0 = 0, sp_scntl1 = 0, sp_dcntl = 0,
       sp_sbdl = 0xff, sp_sbcl = 0xdf, sp_sstat1 = 0, sp_sstat1_reset = 0x02\<rparr>"

text \<open>A quiet, terminated bus: SBDL and SBCL read 0.\<close>

definition quiet_pins :: pins_env where
  "quiet_pins = \<lparr>sp_ctest4 = 0, sp_scntl0 = 0, sp_scntl1 = 0, sp_dcntl = 0,
       sp_sbdl = 0, sp_sbcl = 0, sp_sstat1 = 0, sp_sstat1_reset = 0x02\<rparr>"


text \<open>A machine with \<^verbatim>\<open>expansion.library\<close> and no A4091 card, and the command line \<open>a4091 -P\<close>.\<close>

definition cardless_host :: host_env where
  "cardless_host =
     \<lparr>he_library_opens = True, he_cards = [], he_version = ''A4091 0.4'',
      he_PRIx32 = ''lx'', he_scan_hex = (\<lambda>s. None)\<rparr>"

definition list_only_argv :: "string list" where
  "list_only_argv = [''a4091'', ''-P'']"


text \<open>
  A card that passes the FIFO status checks but whose FIFO hands back zero for every
  byte and parity bit; no interrupt server in the chain.
\<close>

definition stuck_fifo :: fifo_env where
  "stuck_fifo =
     \<lparr>ff_servers = [], ff_ctest1_start = 0xf0, ff_dstat_start = 0x80, ff_ctest4 = 0,
      ff_ctest7 = 0, ff_dstat_full = 0, ff_ctest1_full = 0x0f,
      ff_ctest6 = (\<lambda>lane cbyte. 0), ff_ctest2 = (\<lambda>lane cbyte. 0), ff_ctest1_end = 0xf0\<rparr>"


text \<open>
  A run with both debug flags set on a card that fails every status check of the FIFO
  test and hands back zero throughout; and a card whose FIFO is not empty after the
  reset, on which the test ends before it pushes anything.
\<close>

definition debug_world :: world where
  "debug_world = released_world\<lparr>runtime_flags := 3\<rparr>"

definition failing_fifo :: fifo_env where
  "failing_fifo =
     \<lparr>ff_servers = [], ff_ctest1_start = 0, ff_dstat_start = 0, ff_ctest4 = 0,
      ff_ctest7 = 0, ff_dstat_full = 0x80, ff_ctest1_full = 0,
      ff_ctest6 = (\<lambda>lane cbyte. 0), ff_ctest2 = (\<lambda>lane cbyte. 0), ff_ctest1_end = 0\<rparr>"

definition dirty_fifo :: fifo_env where
  "dirty_fifo = stuck_fifo\<lparr>ff_ctest1_start := 0\<rparr>"


text \<open>
  A host with its memory at \<open>0x07000000\<close> and almost none of it free: \<^verbatim>\<open>src\<close> lands at
  \<open>0x07f00000\<close> and \<^verbatim>\<open>dst_buf\<close> at \<open>0x07f02000\<close>, none of the flipped addresses can be
  reserved, and \<^verbatim>\<open>AllocMem\<close> hands out a buffer for every pair of bits but the last,
  for which it has nothing left and returns \<^verbatim>\<open>NULL\<close>.
\<close>

definition starved_host :: copy_env where
  "starved_host =
     \<lparr>ce_time = 0, ce_src_probe = 0x07f00000, ce_src = 0x07f00000,
      ce_dst_probe = 0x07f02000, ce_dst_buf = 0x07f02000,
      ce_bf_addr_array = 0x07f10000, ce_bf_mem_array = 0x07f11000,
      ce_abs = (\<lambda>bit1 bit2. 0),
      ce_mem = (\<lambda>bit1 bit2. if bit1 = 31 \<and> bit2 = 31 then 0
                             else 0x07800000 + 0x1000 * of_nat (32 * bit1 + bit2))\<rparr>"


section \<open>Properties\<close>

subsection \<open>Words\<close>

lemma ucast_not_ucast8: "(ucast (NOT (ucast (x :: 8 word) :: 32 word)) :: 8 word) = NOT x"
  by (rule bit_word_eqI) (auto simp add: bit_simps)

lemma ucast_eq_0_8_32: "((ucast (y :: 8 word) :: 32 word) = 0) = (y = 0)"
proof
  assume a: "(ucast y :: 32 word) = 0"
  show "y = 0"
  proof (rule bit_word_eqI)
    fix n assume "n < LENGTH(8)"
    then have "bit y n = bit (ucast y :: 32 word) n"
      by (simp add: bit_simps)
    with a show "bit y n = bit (0 :: 8 word) n" by simp
  qed
qed simp

lemma ucast_and_u8:
  "((ucast (x :: 8 word) :: 32 word) AND ucast (m :: 8 word) = 0) = (x AND m = 0)"
proof -
  have "(ucast x :: 32 word) AND ucast m = ucast (x AND m)"
    by (rule bit_word_eqI) (auto simp add: bit_simps)
  then show ?thesis by (simp add: ucast_eq_0_8_32)
qed

subsection \<open>Autoconfig nibble reader\<close>

text \<open>
  C6.  For every register offset \<open>r\<close>, \<^verbatim>\<open>get_creg(r)\<close> is
  \<open>(~hi & 0xF0) | (~lo >> 4)\<close> with the complement, the mask and the shift taken on
  8-bit values, where \<open>hi\<close> is the byte the bus returns at the card base plus \<open>r\<close> and
  \<open>lo\<close> the byte at the card base plus \<open>r + 0x100\<close>: the promotions to \<open>int\<close> that C
  performs in between change nothing.
\<close>

theorem get_creg_nibbles:
  "get_creg bus base r =
     ((NOT (bus (base + r)) AND 0xF0) OR drop_bit 4 (NOT (bus (base + r + 0x100))))"
  unfolding get_creg_def Let_def A4091_OFFSET_AUTOCONFIG_def ucast_not_ucast8
  by (rule bit_word_eqI) (auto simp add: bit_simps)

subsection \<open>Takeover and restore\<close>

lemma save_emit [simp]: "a4091_save (emit e w) = a4091_save w"
  by (simp add: emit_def)

lemma save_reset [simp]: "a4091_save (a4091_reset w) = a4091_save w"
  by (simp add: a4091_reset_def set_ncrreg8_def get_ncrreg8_def Let_def)

lemma card_owned_enable [simp]:
  "card_owned (a4091_save (a4091_enable_driver_irq_handler w)) = card_owned (a4091_save w)"
  by (simp add: a4091_enable_driver_irq_handler_def upd_save_def Let_def)

lemma card_owned_remove [simp]:
  "card_owned (a4091_save (a4091_remove_local_irq_handler w)) = card_owned (a4091_save w)"
  by (simp add: a4091_remove_local_irq_handler_def upd_save_def Let_def)

lemma restore_not_owned:
  "card_owned (a4091_save w) = 0 \<Longrightarrow> a4091_state_restore w = w"
  by (simp add: a4091_state_restore_def)

lemma card_owned_restore: "card_owned (a4091_save (a4091_state_restore w)) = 0"
  by (simp add: a4091_state_restore_def upd_save_def Let_def)

lemma enable_driver_guard:
  "(a4091_enable_driver_irq_handler w = w) = (driver_isr (a4091_save w) = 0)"
proof
  assume e: "a4091_enable_driver_irq_handler w = w"
  have "driver_isr (a4091_save (a4091_enable_driver_irq_handler w)) = 0"
    by (simp add: a4091_enable_driver_irq_handler_def upd_save_def Let_def)
  with e show "driver_isr (a4091_save w) = 0" by simp
qed (simp add: a4091_enable_driver_irq_handler_def)

lemma remove_local_guard:
  "(a4091_remove_local_irq_handler w = w) = (local_isr (a4091_save w) = 0)"
proof
  assume e: "a4091_remove_local_irq_handler w = w"
  have "local_isr (a4091_save (a4091_remove_local_irq_handler w)) = 0"
    by (simp add: a4091_remove_local_irq_handler_def upd_save_def Let_def)
  with e show "local_isr (a4091_save w) = 0" by simp
qed (simp add: a4091_remove_local_irq_handler_def)

text \<open>
  C4.  The release path is idempotent: \<^verbatim>\<open>a4091_state_restore\<close> called twice leaves the
  state (session structure, interrupt structures and the record of bus accesses and
  host calls) that one call leaves, because the first call clears the ownership flag.
  Called on a card that is not owned it changes nothing: no register is written and no
  interrupt server is added or removed.  The two undo steps are guarded each by its
  own pointer: re-adding the driver's server does something exactly when
  \<^verbatim>\<open>driver_isr\<close> is non-null, removing the local server exactly when \<^verbatim>\<open>local_isr\<close> is
  non-null.
\<close>

theorem state_restore_idempotent:
  "a4091_state_restore (a4091_state_restore w) = a4091_state_restore w \<and>
   (card_owned (a4091_save w) = 0 \<longrightarrow>
      a4091_state_restore w = w \<and> trace (a4091_state_restore w) = trace w) \<and>
   (a4091_enable_driver_irq_handler w = w) = (driver_isr (a4091_save w) = 0) \<and>
   (a4091_remove_local_irq_handler w = w) = (local_isr (a4091_save w) = 0)"
  using restore_not_owned [OF card_owned_restore, of w] restore_not_owned [of w]
    enable_driver_guard [of w] remove_local_guard [of w]
  by simp

theorem state_restore_idempotent_witness:
  "card_owned (a4091_save released_world) = 0 \<and>
   a4091_state_restore released_world = released_world \<and>
   card_owned (a4091_save owned_world) = 1 \<and>
   trace (a4091_state_restore owned_world) =
     [Write8 0x40800078 0x20, Write8 0x40800062 0x40, Read8 0x40800022,
      Write8 0x40800062 0, Read8 0x40800022, Write8 0x40800047 0x80,
      Write8 0x40800078 0x20, Write8 0x40800079 0xff,
      AddIntServer 3 0x00100000, RemIntServer 3 0x00200000, FreeMem 0x00200000 22] \<and>
   a4091_state_restore (a4091_state_restore owned_world) = a4091_state_restore owned_world"
proof -
  have o: "card_owned (a4091_save released_world) = 0"
    by (simp add: released_world_def idle_save_def)
  have t: "trace (a4091_state_restore owned_world) =
     [Write8 0x40800078 0x20, Write8 0x40800062 0x40, Read8 0x40800022,
      Write8 0x40800062 0, Read8 0x40800022, Write8 0x40800047 0x80,
      Write8 0x40800078 0x20, Write8 0x40800079 0xff,
      AddIntServer 3 0x00100000, RemIntServer 3 0x00200000, FreeMem 0x00200000 22]"
    by (simp add: a4091_state_restore_def owned_world_def released_world_def idle_save_def
        a4091_reset_def a4091_enable_driver_irq_handler_def a4091_remove_local_irq_handler_def
        set_ncrreg8_def get_ncrreg8_def emit_def upd_save_def debug_on_def Let_def
        FLAG_DEBUG_def A4091_OFFSET_REGISTERS_def A4091_IRQ_def sizeof_Interrupt_def
        REG_DCNTL_def REG_ISTAT_def REG_SCID_def REG_DWT_def REG_DCNTL_EA_def
        REG_ISTAT_RST_def BIT_def)
  have c: "card_owned (a4091_save owned_world) = 1"
    by (simp add: owned_world_def)
  from o t c state_restore_idempotent [of released_world]
    state_restore_idempotent [of owned_world]
  show ?thesis by simp
qed

subsection \<open>Frames: what the parts of a test add to the record of events\<close>

lemma writes32_append [simp]: "writes32 a (xs @ ys) = writes32 a xs @ writes32 a ys"
  by (simp add: writes32_def)

lemma writes32_Nil [simp]: "writes32 a [] = []"
  by (simp add: writes32_def)

lemma writes32_Cons: "writes32 a (e # es) = writes32 a [e] @ writes32 a es"
  by (simp add: writes32_def)

lemma quiet32_refl [simp]: "quiet32 w w"
  by (simp add: quiet32_def)

lemma quiet32_trans: "quiet32 w w' \<Longrightarrow> quiet32 w' w'' \<Longrightarrow> quiet32 w w''"
  by (auto simp add: quiet32_def)

lemma quiet32_emit:
  "quiet32 w w' \<Longrightarrow> (\<And>a v. e \<noteq> Write32 a v) \<Longrightarrow> quiet32 w (emit e w')"
  by (cases e) (auto simp add: quiet32_def emit_def writes32_def)

lemma quiet32_get8: "quiet32 w w' \<Longrightarrow> quiet32 w (get_ncrreg8 r w')"
  by (simp add: get_ncrreg8_def quiet32_emit)

lemma quiet32_set8: "quiet32 w w' \<Longrightarrow> quiet32 w (set_ncrreg8 r v w')"
  by (simp add: set_ncrreg8_def quiet32_emit)

lemma quiet32_get32: "quiet32 w w' \<Longrightarrow> quiet32 w (get_ncrreg32 r w')"
  by (simp add: get_ncrreg32_def quiet32_emit)

lemma quiet32_printf: "quiet32 w w' \<Longrightarrow> quiet32 w (emit (Printf f args) w')"
  by (simp add: quiet32_emit)

lemma quiet32_print_bits: "quiet32 w0 w \<Longrightarrow> quiet32 w0 (print_bits bits n v w)"
proof (induction bits n v w rule: print_bits.induct)
  case (1 bits bitnr val w)
  show ?case
  proof (cases "val = 0")
    case True
    with "1.prems" show ?thesis by (subst print_bits.simps) simp
  next
    case False
    with "1.prems" "1.IH" show ?thesis
      by (subst print_bits.simps) (simp add: quiet32_printf)
  qed
qed

lemma quiet32_reset: "quiet32 w0 w \<Longrightarrow> quiet32 w0 (a4091_reset w)"
  by (simp add: a4091_reset_def Let_def quiet32_get8 quiet32_set8)

lemma quiet32_show: "quiet32 w0 w \<Longrightarrow> quiet32 w0 (show_test_state name st w)"
  by (simp add: show_test_state_def Let_def quiet32_printf)

lemma quiet32_check:
  "quiet32 w0 w \<Longrightarrow> quiet32 w0 (snd (check_ncrreg_bits mode reg name rbits v w))"
  by (simp add: check_ncrreg_bits_def Let_def quiet32_printf quiet32_get8)

lemma quiet32_reserved_pass:
  "quiet32 w0 w \<Longrightarrow> quiet32 w0 (snd (reserved_pass env pass rc w))"
  by (simp add: reserved_pass_def Let_def quiet32_check)


lemma quiet32_reserved_loop:
  "quiet32 w0 w \<Longrightarrow> quiet32 w0 (snd (reserved_loop env pass rc w))"
proof (induction env pass rc w rule: reserved_loop.induct)
  case (1 env pass rc w)
  show ?case
  proof (cases "pass < 100")
    case False
    with "1.prems" show ?thesis by (subst reserved_loop.simps) simp
  next
    case True
    note lt = this
    show ?thesis
    proof (cases "fst (reserved_pass env pass rc w) \<noteq> 0")
      case True
      with lt "1.prems" show ?thesis
        by (subst reserved_loop.simps) (simp add: Let_def quiet32_reserved_pass)
    next
      case False
      with lt "1.IH" [OF lt refl] "1.prems" show ?thesis
        by (subst reserved_loop.simps) (simp add: Let_def quiet32_reserved_pass)
    qed
  qed
qed

subsection \<open>Rotations\<close>

lemma bit_shl1: "bit (push_bit 1 (p :: 32 word)) n = (n < 32 \<and> 1 \<le> n \<and> bit p (n - 1))"
proof -
  have "possible_bit TYPE(32 word) n = (n < 32)" by simp
  then show ?thesis
    by (simp only: bit_push_bit_iff) (auto dest: bit_imp_le_length)
qed

lemma bit_shr31: "bit (drop_bit 31 (p :: 32 word)) n = (n = 0 \<and> bit p 31)"
proof (cases "n = 0")
  case True
  then show ?thesis by (simp add: bit_drop_bit_eq)
next
  case False
  then have "\<not> bit p (31 + n)" by (auto dest: bit_imp_le_length)
  with False show ?thesis by (simp add: bit_drop_bit_eq)
qed

lemma bit_rotl1: "n < 32 \<Longrightarrow> bit (word_rotl 1 (p :: 32 word)) n = (if n = 0 then bit p 31 else bit p (n - 1))"
proof -
  assume n: "n < 32"
  show ?thesis
  proof (cases n)
    case 0
    then show ?thesis by (simp add: bit_word_rotl_iff)
  next
    case (Suc m)
    with n have "(Suc m + 31) mod 32 = m" by simp
    with Suc n show ?thesis by (simp add: bit_word_rotl_iff)
  qed
qed

lemma rotl1: "push_bit 1 (p :: 32 word) OR drop_bit 31 p = word_rotl 1 p"
proof (rule bit_word_eqI)
  fix n assume n: "n < LENGTH(32)"
  then have n': "n < 32" by simp
  show "bit (push_bit 1 p OR drop_bit 31 p) n = bit (word_rotl 1 p) n"
    unfolding bit_or_iff bit_shl1 bit_shr31 bit_rotl1 [OF n']
    using n' by (cases "n = 0") auto
qed


lemma rotl_0: "word_rotl 0 (w :: 32 word) = w"
  by (rule bit_word_eqI) (simp add: bit_word_rotl_iff)

lemma rotl_as_roti: "word_rotl k (w :: 32 word) = word_roti (- int k) w"
proof (cases "k = 0")
  case True
  then show ?thesis by (simp add: rotl_0 del: word_roti_eq_word_rotr_word_rotl)
next
  case False
  then show ?thesis by simp
qed

lemma rotl_Suc: "word_rotl 1 (word_rotl k (w :: 32 word)) = word_rotl (Suc k) w"
proof -
  have "word_roti (- 1) (word_roti (- int k) w) = word_roti (- 1 + - int k) w"
    by (rule word_roti_add [symmetric])
  moreover have "- 1 + - int k = - int (Suc k)" by simp
  ultimately have "word_roti (- int 1) (word_roti (- int k) w) = word_roti (- int (Suc k)) w"
    by (simp del: word_roti_eq_word_rotr_word_rotl)
  then show ?thesis
    by (simp only: rotl_as_roti [symmetric])
qed

lemma seed_bit_set: "b < 32 \<Longrightarrow> bit (word_rotl b (0xf0e7c3a5 :: 32 word)) b"
  by (simp add: bit_word_rotl_iff)

lemma seed_bit_set': "b < 32 \<Longrightarrow> bit (word_rotl (b + 32) (0xf0e7c3a5 :: 32 word)) b"
  by (simp add: bit_word_rotl_iff)

lemma seed_bit_clear: "b < 32 \<Longrightarrow> \<not> bit (word_rotl (b + 31) (0xf0e7c3a5 :: 32 word)) b"
proof (cases b)
  case 0
  then show ?thesis by (simp add: bit_word_rotl_iff)
next
  case (Suc m)
  assume b: "b < 32"
  with Suc have "(Suc m + 31) mod 32 = m" by simp
  moreover from Suc b have "Suc (m + (32 - m)) = 33" by arith
  ultimately show ?thesis using Suc b by (simp add: bit_word_rotl_iff)
qed

subsection \<open>Register-access test\<close>

lemma quiet32_writes: "quiet32 w w' \<Longrightarrow> writes32 a (trace w') = writes32 a (trace w)"
  by (auto simp add: quiet32_def)

lemma quiet32_base: "quiet32 w w' \<Longrightarrow> a4091_base w' = a4091_base w"
  by (simp add: quiet32_def)

lemma quiet32_mismatch:
  "quiet32 w0 (ws_world st) \<Longrightarrow> quiet32 w0 (ws_world (walk_mismatch fmt g e d st))"
  by (simp add: walk_mismatch_def Let_def quiet32_printf quiet32_print_bits)

lemma patt_mismatch [simp]: "ws_patt (walk_mismatch fmt g e d st) = ws_patt st"
  by (simp add: walk_mismatch_def Let_def)

definition walk_bus :: "uint32_t \<Rightarrow> world \<Rightarrow> world" where
  "walk_bus p w = get_ncrreg32 REG_TEMP (get_ncrreg32 REG_SCRATCH
      (set_ncrreg32 REG_TEMP (word_rotl 1 p) (set_ncrreg32 REG_SCRATCH p w)))"

lemma walk_turn_world:
  "quiet32 (walk_bus (ws_patt st) (ws_world st)) (ws_world (walk_turn env rot st))"
  unfolding walk_turn_def walk_bus_def Let_def rotl1
  by (simp add: quiet32_mismatch)

lemma walk_turn_patt: "ws_patt (walk_turn env rot st) = word_rotl 1 (ws_patt st)"
  unfolding walk_turn_def Let_def rotl1 by simp

lemma walk_bus_base: "a4091_base (walk_bus p w) = a4091_base w"
  by (simp add: walk_bus_def get_ncrreg32_def set_ncrreg32_def emit_def)

lemma walk_bus_writes:
  "writes32 a (trace (walk_bus p w)) =
     writes32 a (trace w) @ (if a = shadow w REG_SCRATCH then [p] else []) @
       (if a = shadow w REG_TEMP then [word_rotl 1 p] else [])"
  by (simp add: walk_bus_def get_ncrreg32_def set_ncrreg32_def emit_def writes32_def shadow_def)

lemma walk_turn_base: "a4091_base (ws_world (walk_turn env rot st)) = a4091_base (ws_world st)"
  using quiet32_base [OF walk_turn_world [of st env rot]] by (simp add: walk_bus_base)

lemma walk_turn_writes:
  "writes32 a (trace (ws_world (walk_turn env rot st))) =
     writes32 a (trace (ws_world st)) @
       (if a = shadow (ws_world st) REG_SCRATCH then [ws_patt st] else []) @
       (if a = shadow (ws_world st) REG_TEMP then [word_rotl 1 (ws_patt st)] else [])"
  using quiet32_writes [OF walk_turn_world [of st env rot], of a] by (simp add: walk_bus_writes)

lemma shadow_base: "a4091_base w' = a4091_base w \<Longrightarrow> shadow w' r = shadow w r"
  by (simp add: shadow_def)

lemma walk_fold:
  "ws_patt (fold (walk_turn env) [0..<n] st) = word_rotl n (ws_patt st) \<and>
   a4091_base (ws_world (fold (walk_turn env) [0..<n] st)) = a4091_base (ws_world st) \<and>
   writes32 a (trace (ws_world (fold (walk_turn env) [0..<n] st))) =
     writes32 a (trace (ws_world st)) @
       concat (map (\<lambda>rot.
         (if a = shadow (ws_world st) REG_SCRATCH then [word_rotl rot (ws_patt st)] else []) @
         (if a = shadow (ws_world st) REG_TEMP then [word_rotl (Suc rot) (ws_patt st)] else []))
         [0..<n])"
proof (induction n)
  case 0
  show ?case by (simp add: rotl_0)
next
  case (Suc n)
  let ?st = "fold (walk_turn env) [0..<n] st"
  from Suc have p: "ws_patt ?st = word_rotl n (ws_patt st)"
    and b: "a4091_base (ws_world ?st) = a4091_base (ws_world st)" by simp_all
  from Suc have t: "writes32 a (trace (ws_world ?st)) =
     writes32 a (trace (ws_world st)) @
       concat (map (\<lambda>rot.
         (if a = shadow (ws_world st) REG_SCRATCH then [word_rotl rot (ws_patt st)] else []) @
         (if a = shadow (ws_world st) REG_TEMP then [word_rotl (Suc rot) (ws_patt st)] else []))
         [0..<n])" by simp
  have f: "fold (walk_turn env) [0..<Suc n] st = walk_turn env n ?st" by simp
  show ?case
    unfolding f walk_turn_patt walk_turn_base walk_turn_writes p b t shadow_base [OF b] rotl_Suc
    by simp
qed


lemma shadow_distinct: "shadow w REG_SCRATCH \<noteq> shadow w REG_TEMP"
  by (simp add: shadow_def REG_SCRATCH_def REG_TEMP_def)

lemma concat_map_single: "concat (map (\<lambda>x. [f x]) xs) = map f xs"
  by (induction xs) simp_all

lemma register_access_writes:
  "writes32 a (trace (snd (test_register_access env w))) =
     writes32 a (trace w) @
       concat (map (\<lambda>rot.
         (if a = shadow w REG_SCRATCH then [word_rotl rot 0xf0e7c3a5] else []) @
         (if a = shadow w REG_TEMP then [word_rotl (Suc rot) 0xf0e7c3a5] else []))
         [0..<256])"
proof -
  define w1 where "w1 = show_test_state ''Register test:'' (- 1) w"
  define r1 where "r1 = reserved_loop env 0 0 w1"
  define w2 where "w2 = a4091_reset (snd r1)"
  define r2 where "r2 = check_ncrreg_bits 1 REG_ISTAT ''ISTAT'' 0xff (rt_istat env) w2"
  define r3 where "r3 = check_ncrreg_bits 1 REG_DSTAT ''DSTAT'' 0x7f (rt_dstat env) (snd r2)"
  define st0 where "st0 = \<lparr>ws_patt = 0xf0e7c3a5, ws_stuck_high = 0xffffffff,
      ws_stuck_low = 0xffffffff, ws_pins_diff = 0x00000000,
      ws_rc = fst r1 + fst r2 + fst r3, ws_world = snd r3\<rparr>"
  define st where "st = fold (walk_turn env) [0..<256] st0"
  have q: "quiet32 w (snd r3)"
    unfolding r3_def r2_def w2_def r1_def w1_def
    by (intro quiet32_check quiet32_reset quiet32_reserved_loop quiet32_show quiet32_refl)
  have after: "quiet32 (ws_world st) (snd (test_register_access env w))"
    unfolding test_register_access_def Let_def
    apply (fold w1_def)
    apply (fold r1_def)
    apply (fold w2_def)
    apply (fold r2_def)
    apply (fold r3_def)
    apply (fold st0_def)
    apply (fold st_def)
    apply (simp add: quiet32_show quiet32_printf quiet32_print_bits)
    done
  have b: "a4091_base (snd r3) = a4091_base w" by (rule quiet32_base [OF q])
  have e1: "ws_world st0 = snd r3" and e2: "ws_patt st0 = 0xf0e7c3a5"
    by (simp_all add: st0_def)
  have "writes32 a (trace (ws_world st)) =
     writes32 a (trace (snd r3)) @
       concat (map (\<lambda>rot.
         (if a = shadow (snd r3) REG_SCRATCH then [word_rotl rot 0xf0e7c3a5] else []) @
         (if a = shadow (snd r3) REG_TEMP then [word_rotl (Suc rot) 0xf0e7c3a5] else []))
         [0..<256])"
    using walk_fold [of env 256 st0 a] unfolding e1 e2 st_def by (rule conjunct2 [THEN conjunct2])
  then show ?thesis
    unfolding shadow_base [OF b] quiet32_writes [OF after] quiet32_writes [OF q] .
qed

text \<open>
  C8.  In the register-access test the values written to SCRATCH are the seed
  \<open>0xF0E7C3A5\<close> rotated left by 0, 1, .., 255 positions, in this order, and the values
  written to TEMP are the same patterns rotated by one more position.  For every bit
  position \<open>b\<close> below 32, among the values written to SCRATCH there is one with bit \<open>b\<close>
  set and one with bit \<open>b\<close> clear, and likewise among the values written to TEMP:
  every data bit is driven high and low in both registers, whatever the card returns.
\<close>

theorem walking_bit_coverage:
  "written32 (shadow w REG_SCRATCH) w (snd (test_register_access env w)) =
     map (\<lambda>rot. word_rotl rot 0xf0e7c3a5) [0..<256] \<and>
   written32 (shadow w REG_TEMP) w (snd (test_register_access env w)) =
     map (\<lambda>rot. word_rotl (Suc rot) 0xf0e7c3a5) [0..<256] \<and>
   (\<forall>b<32.
      (\<exists>v \<in> set (written32 (shadow w REG_SCRATCH) w (snd (test_register_access env w))). bit v b) \<and>
      (\<exists>v \<in> set (written32 (shadow w REG_SCRATCH) w (snd (test_register_access env w))). \<not> bit v b) \<and>
      (\<exists>v \<in> set (written32 (shadow w REG_TEMP) w (snd (test_register_access env w))). bit v b) \<and>
      (\<exists>v \<in> set (written32 (shadow w REG_TEMP) w (snd (test_register_access env w))). \<not> bit v b))"
proof -
  let ?w' = "snd (test_register_access env w)"
  have s: "written32 (shadow w REG_SCRATCH) w ?w' = map (\<lambda>rot. word_rotl rot 0xf0e7c3a5) [0..<256]"
    unfolding written32_def register_access_writes
    using shadow_distinct [of w] by (simp add: concat_map_single)
  have t: "written32 (shadow w REG_TEMP) w ?w' = map (\<lambda>rot. word_rotl (Suc rot) 0xf0e7c3a5) [0..<256]"
    unfolding written32_def register_access_writes
    using shadow_distinct [of w] by (simp add: concat_map_single)
  have c: "(\<exists>v \<in> set (map (\<lambda>rot. word_rotl rot (0xf0e7c3a5 :: 32 word)) [0..<256]). bit v b) \<and>
      (\<exists>v \<in> set (map (\<lambda>rot. word_rotl rot (0xf0e7c3a5 :: 32 word)) [0..<256]). \<not> bit v b) \<and>
      (\<exists>v \<in> set (map (\<lambda>rot. word_rotl (Suc rot) (0xf0e7c3a5 :: 32 word)) [0..<256]). bit v b) \<and>
      (\<exists>v \<in> set (map (\<lambda>rot. word_rotl (Suc rot) (0xf0e7c3a5 :: 32 word)) [0..<256]). \<not> bit v b)"
    if b: "b < 32" for b
  proof (intro conjI)
    from b have "b \<in> set [0..<256]" by simp
    with seed_bit_set [OF b]
    show "\<exists>v \<in> set (map (\<lambda>rot. word_rotl rot (0xf0e7c3a5 :: 32 word)) [0..<256]). bit v b"
      by (auto simp add: image_iff intro!: bexI [of _ b])
    from b have "b + 31 \<in> set [0..<256]" by simp
    with seed_bit_clear [OF b]
    show "\<exists>v \<in> set (map (\<lambda>rot. word_rotl rot (0xf0e7c3a5 :: 32 word)) [0..<256]). \<not> bit v b"
      by (auto simp add: image_iff intro!: bexI [of _ "b + 31"])
    have e: "Suc (b + 31) = b + 32" "Suc (b + 30) = b + 31" by simp_all
    from b have "b + 31 \<in> set [0..<256]" by simp
    moreover have "bit (word_rotl (Suc (b + 31)) (0xf0e7c3a5 :: 32 word)) b"
      unfolding e by (rule seed_bit_set' [OF b])
    ultimately
    show "\<exists>v \<in> set (map (\<lambda>rot. word_rotl (Suc rot) (0xf0e7c3a5 :: 32 word)) [0..<256]). bit v b"
      unfolding set_map by (intro bexI [of _ "word_rotl (Suc (b + 31)) 0xf0e7c3a5"] imageI)
    from b have "b + 30 \<in> set [0..<256]" by simp
    moreover have "\<not> bit (word_rotl (Suc (b + 30)) (0xf0e7c3a5 :: 32 word)) b"
      unfolding e by (rule seed_bit_clear [OF b])
    ultimately
    show "\<exists>v \<in> set (map (\<lambda>rot. word_rotl (Suc rot) (0xf0e7c3a5 :: 32 word)) [0..<256]). \<not> bit v b"
      unfolding set_map by (intro bexI [of _ "word_rotl (Suc (b + 30)) 0xf0e7c3a5"] imageI)
  qed
  show ?thesis
    unfolding s t using c by blast
qed

theorem walking_bit_coverage_witness:
  "(5 :: nat) < 32 \<and>
   (\<exists>v \<in> set (written32 (shadow released_world REG_SCRATCH) released_world
                 (snd (test_register_access healthy_regs released_world))). bit v 5) \<and>
   (\<exists>v \<in> set (written32 (shadow released_world REG_SCRATCH) released_world
                 (snd (test_register_access healthy_regs released_world))). \<not> bit v 5) \<and>
   (\<exists>v \<in> set (written32 (shadow released_world REG_TEMP) released_world
                 (snd (test_register_access healthy_regs released_world))). bit v 5) \<and>
   (\<exists>v \<in> set (written32 (shadow released_world REG_TEMP) released_world
                 (snd (test_register_access healthy_regs released_world))). \<not> bit v 5) \<and>
   hd (written32 (shadow released_world REG_SCRATCH) released_world
         (snd (test_register_access healthy_regs released_world))) = 0xf0e7c3a5"
proof -
  note th = walking_bit_coverage [of released_world healthy_regs]
  have five: "(5 :: nat) < 32" by simp
  from th have s: "written32 (shadow released_world REG_SCRATCH) released_world
      (snd (test_register_access healthy_regs released_world)) =
      map (\<lambda>rot. word_rotl rot 0xf0e7c3a5) [0..<256]"
    by (rule conjunct1)
  have h: "hd (written32 (shadow released_world REG_SCRATCH) released_world
         (snd (test_register_access healthy_regs released_world))) = 0xf0e7c3a5"
    unfolding s by (simp add: upt_rec [of 0 256] rotl_0)
  from th five h show ?thesis by blast
qed

subsection \<open>Interrupt adapter\<close>

lemma dip_sip: "REG_ISTAT_DIP OR REG_ISTAT_SIP = 0x03"
  by (simp add: REG_ISTAT_DIP_def REG_ISTAT_SIP_def BIT_def)

lemma ucast_and_3: "((ucast (x :: 8 word) :: 32 word) AND 0x03 = 0) = (x AND 0x03 = 0)"
  using ucast_and_u8 [of x "0x03"] by simp

lemma irq_handler_pending:
  "irq_pending bus save \<Longrightarrow>
   a4091_irq_handler bus save =
     (if intcount save = 0 then 1 else 0,
      save\<lparr>ireg_istat := bus (addr save + A4091_OFFSET_REGISTERS + REG_ISTAT),
           ireg_sien := bus (addr save + A4091_OFFSET_REGISTERS + REG_SIEN),
           ireg_sstat0 := bus (addr save + A4091_OFFSET_REGISTERS + REG_SSTAT0),
           ireg_dstat := bus (addr save + A4091_OFFSET_REGISTERS + REG_DSTAT),
           intcount := intcount save + 1\<rparr>)"
  by (simp add: a4091_irq_handler_def irq_pending_def get_ncrreg8_noglob_def Let_def
      dip_sip ucast_and_3)

lemma irq_handler_idle:
  "\<not> irq_pending bus save \<Longrightarrow> a4091_irq_handler bus save = (0, save)"
  by (simp add: a4091_irq_handler_def irq_pending_def get_ncrreg8_noglob_def Let_def
      dip_sip ucast_and_3)

lemma irq_handler_count:
  "unat (intcount save) + 1 < 2 ^ 32 \<Longrightarrow>
   unat (intcount (snd (a4091_irq_handler bus save))) \<le> unat (intcount save) + 1 \<and>
   unat (intcount save) \<le> unat (intcount (snd (a4091_irq_handler bus save)))"
  apply (cases "irq_pending bus save")
   apply (simp_all add: irq_handler_pending irq_handler_idle)
  apply (simp add: unat_word_ariths)
  done

lemma session_after_first:
  "intcount save \<noteq> 0 \<Longrightarrow> unat (intcount save) + length steps < 2 ^ 32 \<Longrightarrow>
   fst (session save steps) = replicate (calls_of steps) 0"
proof (induction steps arbitrary: save)
  case Nil
  then show ?case by (simp add: calls_of_def)
next
  case (Cons s steps)
  show ?case
  proof (cases s)
    case Expect_interrupt
    with Cons.prems Cons.IH [of "save\<lparr>ireg_istat := 0\<rparr>"] show ?thesis
      by (simp add: calls_of_def)
  next
    case (Interrupt_call bus)
    let ?s' = "snd (a4091_irq_handler bus save)"
    from Cons.prems have b: "unat (intcount save) + 1 < 2 ^ 32" by simp
    from irq_handler_count [OF b, of bus]
    have le: "unat (intcount ?s') \<le> unat (intcount save) + 1"
      and ge: "unat (intcount save) \<le> unat (intcount ?s')" by simp_all
    from Cons.prems(1) have "unat (intcount save) \<noteq> 0" by (simp add: unat_eq_0)
    with ge have "unat (intcount ?s') \<noteq> 0" by simp
    then have nz: "intcount ?s' \<noteq> 0" by (simp add: unat_eq_0)
    from le Cons.prems(2) have "unat (intcount ?s') + length steps < 2 ^ 32" by simp
    from Cons.IH [OF nz this] have ih: "fst (session ?s' steps) = replicate (calls_of steps) 0" .
    have r0: "fst (a4091_irq_handler bus save) = 0"
      using Cons.prems(1)
      by (cases "irq_pending bus save") (simp_all add: irq_handler_pending irq_handler_idle)
    from ih r0 Interrupt_call show ?thesis
      by (simp add: calls_of_def Let_def)
  qed
qed

lemma add_local_intcount:
  "intcount (a4091_save (a4091_add_local_irq_handler mem w)) = 0"
  by (simp add: a4091_add_local_irq_handler_def upd_save_def Let_def)

text \<open>
  C3, as the code has it.  When the handler finds DIP or SIP set in ISTAT it captures
  the four snapshot bytes (ISTAT, SIEN, SSTAT0, DSTAT) and increments the interrupt
  count; otherwise it changes nothing and returns 0.  It returns 1 exactly when the
  count was 0 before the call, that is, on the first capturing call since
  \<^verbatim>\<open>a4091_add_local_irq_handler\<close> zeroed the count.  Once the count is non-zero every
  later call returns 0, whether or not the main line has cleared the captured ISTAT in
  between (as long as the 32-bit count does not wrap).
\<close>

theorem irq_handler_handled_first_only:
  "(irq_pending bus save \<longrightarrow>
      a4091_irq_handler bus save =
        (if intcount save = 0 then 1 else 0,
         save\<lparr>ireg_istat := bus (addr save + A4091_OFFSET_REGISTERS + REG_ISTAT),
              ireg_sien := bus (addr save + A4091_OFFSET_REGISTERS + REG_SIEN),
              ireg_sstat0 := bus (addr save + A4091_OFFSET_REGISTERS + REG_SSTAT0),
              ireg_dstat := bus (addr save + A4091_OFFSET_REGISTERS + REG_DSTAT),
              intcount := intcount save + 1\<rparr>)) \<and>
   (\<not> irq_pending bus save \<longrightarrow> a4091_irq_handler bus save = (0, save)) \<and>
   intcount (a4091_save (a4091_add_local_irq_handler mem w)) = 0 \<and>
   (intcount save \<noteq> 0 \<and> unat (intcount save) + length steps < 2 ^ 32 \<longrightarrow>
      fst (session save steps) = replicate (calls_of steps) 0)"
  using irq_handler_pending [of bus save] irq_handler_idle [of bus save]
    add_local_intcount [of mem w] session_after_first [of save steps]
  by blast


lemma installed_save_eq:
  "installed_save = idle_save\<lparr>local_isr := 0x00200000\<rparr>"
  by (simp add: installed_save_def a4091_add_local_irq_handler_def upd_save_def emit_def
      Let_def released_world_def debug_on_def FLAG_DEBUG_def idle_save_def)

lemma dma_done_pending: "irq_pending dma_done_bus (idle_save\<lparr>local_isr := 0x00200000\<rparr>)"
  by (simp add: irq_pending_def dma_done_bus_def idle_save_def A4091_OFFSET_REGISTERS_def
      REG_ISTAT_def)

lemma silent_bus_idle: "\<not> irq_pending (\<lambda>a. 0) installed_save"
  by (simp add: irq_pending_def)

theorem irq_handler_handled_first_only_witness:
  "irq_pending dma_done_bus installed_save \<and>
   fst (a4091_irq_handler dma_done_bus installed_save) = 1 \<and>
   intcount (snd (a4091_irq_handler dma_done_bus installed_save)) = 1 \<and>
   ireg_istat (snd (a4091_irq_handler dma_done_bus installed_save)) = 0x01 \<and>
   ireg_dstat (snd (a4091_irq_handler dma_done_bus installed_save)) = 0x04 \<and>
   \<not> irq_pending (\<lambda>a. 0) installed_save \<and>
   a4091_irq_handler (\<lambda>a. 0) installed_save = (0, installed_save) \<and>
   intcount (snd (a4091_irq_handler dma_done_bus installed_save)) \<noteq> 0 \<and>
   unat (intcount (snd (a4091_irq_handler dma_done_bus installed_save))) +
     length [Expect_interrupt, Interrupt_call dma_done_bus] < 2 ^ 32 \<and>
   fst (session (snd (a4091_irq_handler dma_done_bus installed_save))
          [Expect_interrupt, Interrupt_call dma_done_bus]) = [0]"
proof -
  have p: "irq_pending dma_done_bus installed_save"
    by (simp add: installed_save_eq dma_done_pending)
  have i0: "intcount installed_save = 0"
    by (simp add: installed_save_eq idle_save_def)
  note a = irq_handler_handled_first_only [of dma_done_bus installed_save 0 released_world "[]"]
  from a p i0 have h: "a4091_irq_handler dma_done_bus installed_save =
        (1, installed_save\<lparr>ireg_istat := dma_done_bus (addr installed_save + A4091_OFFSET_REGISTERS + REG_ISTAT),
              ireg_sien := dma_done_bus (addr installed_save + A4091_OFFSET_REGISTERS + REG_SIEN),
              ireg_sstat0 := dma_done_bus (addr installed_save + A4091_OFFSET_REGISTERS + REG_SSTAT0),
              ireg_dstat := dma_done_bus (addr installed_save + A4091_OFFSET_REGISTERS + REG_DSTAT),
              intcount := intcount installed_save + 1\<rparr>)"
    by simp
  have v: "fst (a4091_irq_handler dma_done_bus installed_save) = 1 \<and>
   intcount (snd (a4091_irq_handler dma_done_bus installed_save)) = 1 \<and>
   ireg_istat (snd (a4091_irq_handler dma_done_bus installed_save)) = 0x01 \<and>
   ireg_dstat (snd (a4091_irq_handler dma_done_bus installed_save)) = 0x04"
    unfolding h
    by (simp add: i0) (simp add: installed_save_eq idle_save_def dma_done_bus_def
        A4091_OFFSET_REGISTERS_def REG_ISTAT_def REG_DSTAT_def)
  note b = irq_handler_handled_first_only [of "\<lambda>a. 0" installed_save 0 released_world "[]"]
  from b silent_bus_idle have q: "a4091_irq_handler (\<lambda>a. 0) installed_save = (0, installed_save)"
    by blast
  from v have nz: "intcount (snd (a4091_irq_handler dma_done_bus installed_save)) \<noteq> 0"
    and bd: "unat (intcount (snd (a4091_irq_handler dma_done_bus installed_save))) +
     length [Expect_interrupt, Interrupt_call dma_done_bus] < 2 ^ 32"
    by simp_all
  note c = irq_handler_handled_first_only [of dma_done_bus
      "snd (a4091_irq_handler dma_done_bus installed_save)" 0 released_world
      "[Expect_interrupt, Interrupt_call dma_done_bus]"]
  from c nz bd have "fst (session (snd (a4091_irq_handler dma_done_bus installed_save))
          [Expect_interrupt, Interrupt_call dma_done_bus]) =
     replicate (calls_of [Expect_interrupt, Interrupt_call dma_done_bus]) 0"
    by blast
  then have r: "fst (session (snd (a4091_irq_handler dma_done_bus installed_save))
          [Expect_interrupt, Interrupt_call dma_done_bus]) = [0]"
    by (simp add: calls_of_def)
  from p v silent_bus_idle q nz bd r show ?thesis by blast
qed

text \<open>
  The claim as stated fails.  After the handler has been installed, the main line
  marks an interrupt as expected and the handler is called with DIP set: it returns 1.
  The main line marks a second interrupt as expected and the handler is called with
  DIP set again: it returns 0, not 1.
\<close>

theorem irq_handler_once_per_expected_counterexample:
  "irq_pending dma_done_bus installed_save \<and>
   fst (session installed_save
          [Expect_interrupt, Interrupt_call dma_done_bus,
           Expect_interrupt, Interrupt_call dma_done_bus]) = [1, 0]"
proof -
  have p: "irq_pending dma_done_bus installed_save"
    by (simp add: installed_save_eq dma_done_pending)
  have p0: "irq_pending dma_done_bus (installed_save\<lparr>ireg_istat := 0\<rparr>)"
    using p by (simp add: irq_pending_def)
  have i0: "intcount (installed_save\<lparr>ireg_istat := 0\<rparr>) = 0"
    by (simp add: installed_save_eq idle_save_def)
  let ?s1 = "snd (a4091_irq_handler dma_done_bus (installed_save\<lparr>ireg_istat := 0\<rparr>))"
  have r1: "fst (a4091_irq_handler dma_done_bus (installed_save\<lparr>ireg_istat := 0\<rparr>)) = 1"
    by (simp add: irq_handler_pending [OF p0] i0)
  have c1: "intcount ?s1 = 1"
    by (simp add: irq_handler_pending [OF p0] i0)
  have p1: "irq_pending dma_done_bus (?s1\<lparr>ireg_istat := 0\<rparr>)"
    using p0 by (simp add: irq_handler_pending [OF p0] irq_pending_def)
  have r2: "fst (a4091_irq_handler dma_done_bus (?s1\<lparr>ireg_istat := 0\<rparr>)) = 0"
    by (simp add: irq_handler_pending [OF p1] c1)
  from p r1 r2 show ?thesis by (simp add: Let_def)
qed

subsection \<open>The loop counter\<close>







subsection \<open>\<^verbatim>\<open>access_timeout\<close>\<close>

lemma access_timeout_fst:
  "fst (access_timeout msg ticks tick_start tick_end w) =
     (tick_start \<le> tick_end \<and> sint ticks < sint (ucast (tick_end - tick_start) :: uint32_t))"
  by (auto simp add: access_timeout_def Let_def not_less)

subsection \<open>Handler calls during a script\<close>

lemma handler_keeps_addr: "addr (snd (a4091_irq_handler bus s)) = addr s"
  by (simp add: a4091_irq_handler_def Let_def)

lemma handle_all_addr: "addr (handle_all bs s) = addr s"
  unfolding handle_all_def by (induction bs arbitrary: s) (simp_all add: handler_keeps_addr)



lemma script_frame_refl [simp]: "script_frame w w"
  by (simp add: script_frame_def)









lemma save_get [simp]: "a4091_save (get_ncrreg8 r w) = a4091_save w"
  by (simp add: get_ncrreg8_def)

lemma save_timeout [simp]:
  "a4091_save (snd (access_timeout msg ticks tick_start tick_end w)) = a4091_save w"
  by (simp add: access_timeout_def Let_def)




subsection \<open>One turn of the loop of \<^verbatim>\<open>execute_script\<close>\<close>









subsection \<open>The loop of \<^verbatim>\<open>execute_script\<close>\<close>














subsection \<open>The wait loop of \<^verbatim>\<open>a4091_state_takeover\<close>\<close>

lemma rst_bit: "REG_ISTAT_RST = 0x40"
  by (simp add: REG_ISTAT_RST_def BIT_def)

lemma ucast_and_0x40: "((ucast (x :: 8 word) :: 32 word) AND 0x40 = 0) = (x AND 0x40 = 0)"
  using ucast_and_u8 [of x "0x40"] by simp

lemma istat_events_append [simp]:
  "istat_events w (xs @ ys) = istat_events w xs @ istat_events w ys"
  by (simp add: istat_events_def)

lemma istat_events_Nil [simp]: "istat_events w [] = []"
  by (simp add: istat_events_def)

lemma waited_refl [simp]: "waited w w 0"
  by (simp add: waited_def)

lemma istat_access_base:
  "a4091_base w' = a4091_base w \<Longrightarrow> is_istat_access w' = is_istat_access w"
  by (rule ext) (simp add: is_istat_access_def window_def shadow_def split: event.split)

lemma waited_trans:
  assumes "waited w w' j" "waited w' w'' k"
  shows "waited w w'' (j + k)"
proof -
  from assms(1) obtain es where g: "a4091_base w' = a4091_base w"
    "runtime_flags w' = runtime_flags w" "TICKS_PER_SECOND w' = TICKS_PER_SECOND w"
    "a4091_save w' = a4091_save w" and t: "trace w' = trace w @ es"
    and i: "istat_events w es = replicate j (Read8 (window w REG_ISTAT))"
    unfolding waited_def by blast
  from assms(2) obtain es' where g': "a4091_base w'' = a4091_base w'"
    "runtime_flags w'' = runtime_flags w'" "TICKS_PER_SECOND w'' = TICKS_PER_SECOND w'"
    "a4091_save w'' = a4091_save w'" and t': "trace w'' = trace w' @ es'"
    and i': "istat_events w' es' = replicate k (Read8 (window w' REG_ISTAT))"
    unfolding waited_def by blast
  from g(1) have e: "istat_events w' es' = istat_events w es'" "window w' REG_ISTAT = window w REG_ISTAT"
    by (simp_all add: istat_events_def istat_access_base [OF g(1)] window_def)
  have "trace w'' = trace w @ (es @ es')" using t t' by simp
  moreover have "istat_events w (es @ es') = replicate (j + k) (Read8 (window w REG_ISTAT))"
    using i i' e by (simp add: replicate_add)
  ultimately show ?thesis
    unfolding waited_def using g g' by (intro conjI exI [of _ "es @ es'"]) simp_all
qed

lemma waited_print: "waited w w' k \<Longrightarrow> waited w (emit (Printf f args) w') k"
  by (auto simp add: waited_def emit_def istat_events_def is_istat_access_def)

lemma waited_timeout:
  "waited w w' k \<Longrightarrow> waited w (snd (access_timeout msg ticks tick_start tick_end w')) k"
  by (simp add: access_timeout_def Let_def waited_print)

lemma waited_read: "waited w (get_ncrreg8 REG_ISTAT w) 1"
  by (simp add: waited_def get_ncrreg8_def emit_def istat_events_def is_istat_access_def
      window_def)

lemma wait_turn_waiting:
  assumes "waiting env n"
  shows "\<exists>w'. waited w w' 1 \<and> takeover_wait env n w = takeover_wait env (Suc n) w'"
proof -
  let ?w1 = "get_ncrreg8 REG_ISTAT w"
  let ?r = "access_timeout ''ISTAT_RST timeout'' 2 (te_tick_start env) (te_tick env n) ?w1"
  from assms have a: "te_poll env n AND 0x40 = 0" and b: "\<not> fst ?r"
    by (simp_all add: waiting_def rst_seen_def wait_expired_def access_timeout_fst)
  have "takeover_wait env n w = takeover_wait env (Suc n) (snd ?r)"
    by (subst takeover_wait.simps) (simp add: Let_def rst_bit ucast_and_0x40 a b)
  moreover have "waited w (snd ?r) 1"
    by (rule waited_timeout) (rule waited_read)
  ultimately show ?thesis by blast
qed

lemma wait_turn_done:
  assumes "\<not> waiting env n"
  shows "\<exists>w'. waited w w' 1 \<and> takeover_wait env n w = Some w'"
proof (cases "rst_seen env n")
  case True
  then have "takeover_wait env n w = Some (get_ncrreg8 REG_ISTAT w)"
    by (subst takeover_wait.simps) (simp add: Let_def rst_bit ucast_and_0x40 rst_seen_def)
  with waited_read [of w] show ?thesis by blast
next
  case False
  let ?w1 = "get_ncrreg8 REG_ISTAT w"
  let ?r = "access_timeout ''ISTAT_RST timeout'' 2 (te_tick_start env) (te_tick env n) ?w1"
  from False assms have a: "te_poll env n AND 0x40 = 0" and b: "fst ?r"
    by (simp_all add: waiting_def rst_seen_def wait_expired_def access_timeout_fst)
  have "takeover_wait env n w = Some (snd ?r)"
    by (subst takeover_wait.simps) (simp add: Let_def rst_bit ucast_and_0x40 a b)
  moreover have "waited w (snd ?r) 1"
    by (rule waited_timeout) (rule waited_read)
  ultimately show ?thesis by blast
qed

lemma wait_skips:
  "(\<forall>m. k \<le> m \<and> m < k + d \<longrightarrow> waiting env m) \<Longrightarrow>
   \<exists>w1. waited w w1 d \<and> takeover_wait env k w = takeover_wait env (k + d) w1"
proof (induction d arbitrary: k w)
  case 0
  show ?case by (rule exI [of _ w]) simp
next
  case (Suc d)
  from Suc.prems have u: "waiting env k" by simp
  from wait_turn_waiting [OF u, of w] obtain w' where
    p: "waited w w' 1" and step: "takeover_wait env k w = takeover_wait env (Suc k) w'" by blast
  from Suc.prems have "\<forall>m. Suc k \<le> m \<and> m < Suc k + d \<longrightarrow> waiting env m" by simp
  from Suc.IH [OF this, of w'] obtain w1 where
    p1: "waited w' w1 d" and
    e: "takeover_wait env (Suc k) w' = takeover_wait env (Suc k + d) w1" by blast
  from waited_trans [OF p p1] step e show ?case
    by (intro exI [of _ w1]) simp
qed

lemma wait_result:
  assumes "\<forall>m<n. waiting env m" "\<not> waiting env n"
  shows "\<exists>w'. waited w w' (Suc n) \<and> takeover_wait env 0 w = Some w'"
proof -
  from assms(1) have "\<forall>m. 0 \<le> m \<and> m < 0 + n \<longrightarrow> waiting env m" by simp
  from wait_skips [OF this, of w] obtain w1 where
    p: "waited w w1 n" and e: "takeover_wait env 0 w = takeover_wait env n w1" by auto
  from wait_turn_done [OF assms(2), of w1] obtain w' where
    p': "waited w1 w' 1" and r: "takeover_wait env n w1 = Some w'" by blast
  from waited_trans [OF p p'] e r show ?thesis by (intro exI [of _ w']) simp
qed

lemma wait_returns_decided_aux:
  assumes "takeover_wait env k w = Some r"
  shows "\<exists>n\<ge>k. (\<forall>m. k \<le> m \<and> m < n \<longrightarrow> waiting env m) \<and> \<not> waiting env n"
proof (rule takeover_wait.raw_induct [where P = "\<lambda>env k w r.
     (\<exists>n\<ge>k. (\<forall>m. k \<le> m \<and> m < n \<longrightarrow> waiting env m) \<and> \<not> waiting env n)", OF _ assms])
  fix wait' :: "takeover_env \<Rightarrow> nat \<Rightarrow> world \<Rightarrow> world option"
  fix env k w r
  assume IH: "\<And>env k w r. wait' env k w = Some r \<Longrightarrow>
     (\<exists>n\<ge>k. (\<forall>m. k \<le> m \<and> m < n \<longrightarrow> waiting env m) \<and> \<not> waiting env n)"
  assume eq: "(let w = get_ncrreg8 REG_ISTAT w in
      if (ucast (te_poll env k) AND REG_ISTAT_RST) = (0 :: uint32_t) then
        (let r = access_timeout ''ISTAT_RST timeout'' 2 (te_tick_start env) (te_tick env k) w in
         if fst r then Some (snd r) else wait' env (Suc k) (snd r))
      else Some w) = Some r"
  show "\<exists>n\<ge>k. (\<forall>m. k \<le> m \<and> m < n \<longrightarrow> waiting env m) \<and> \<not> waiting env n"
  proof (cases "waiting env k")
    case False
    then show ?thesis by (intro exI [of _ k]) auto
  next
    case True
    let ?w1 = "get_ncrreg8 REG_ISTAT w"
    let ?r = "access_timeout ''ISTAT_RST timeout'' 2 (te_tick_start env) (te_tick env k) ?w1"
    from True have a: "te_poll env k AND 0x40 = 0" and b: "\<not> fst ?r"
      by (simp_all add: waiting_def rst_seen_def wait_expired_def access_timeout_fst)
    from eq a b have "wait' env (Suc k) (snd ?r) = Some r"
      by (simp add: Let_def rst_bit ucast_and_0x40)
    from IH [OF this] obtain n where n: "Suc k \<le> n"
      and u: "\<forall>m. Suc k \<le> m \<and> m < n \<longrightarrow> waiting env m" and d: "\<not> waiting env n"
      by auto
    have "\<forall>m. k \<le> m \<and> m < n \<longrightarrow> waiting env m"
    proof (intro allI impI)
      fix m assume "k \<le> m \<and> m < n"
      with True u show "waiting env m" by (cases "m = k") auto
    qed
    with n d show ?thesis by (intro exI [of _ n]) simp
  qed
qed

lemma wait_returns_decided:
  "takeover_wait env 0 w = Some r \<Longrightarrow> \<exists>n. (\<forall>m<n. waiting env m) \<and> \<not> waiting env n"
  using wait_returns_decided_aux [of env 0 w r] by auto

subsection \<open>\<^verbatim>\<open>a4091_state_takeover\<close>\<close>

lemma off_istat_refl [simp]: "off_istat w w"
  by (simp add: off_istat_def)

lemma off_istat_upd_save: "off_istat w w' \<Longrightarrow> off_istat w (upd_save f w')"
  by (simp add: off_istat_def upd_save_def)

lemma off_istat_isr_mem: "off_istat w w' \<Longrightarrow> off_istat w (w'\<lparr>isr_mem := m\<rparr>)"
  by (simp add: off_istat_def)

lemma off_istat_emit:
  "off_istat w w' \<Longrightarrow> \<not> is_istat_access w e \<Longrightarrow> off_istat w (emit e w')"
  by (auto simp add: off_istat_def emit_def istat_events_def)

lemma not_istat_simps [simp]:
  "\<not> is_istat_access w (Printf f args)"
  "\<not> is_istat_access w Atexit_cleanup"
  "\<not> is_istat_access w (AllocMem a b)"
  "\<not> is_istat_access w (AddIntServer n a)"
  "\<not> is_istat_access w (RemIntServer n a)"
  "\<not> is_istat_access w Disable"
  "\<not> is_istat_access w Enable"
  by (simp_all add: is_istat_access_def)

lemma off_istat_add_local:
  "off_istat w w' \<Longrightarrow> off_istat w (a4091_add_local_irq_handler mem w')"
  by (simp add: a4091_add_local_irq_handler_def Let_def off_istat_emit off_istat_upd_save
      off_istat_isr_mem)

lemma off_istat_walk:
  "off_istat w w' \<Longrightarrow> off_istat w (snd (disable_driver_walk slist (suspended, w')))"
proof (induction slist arbitrary: suspended w')
  case Nil
  then show ?case by simp
next
  case (Cons x rest)
  obtain s node where x: "x = (s, node)" by (cases x)
  define wd where "wd = (if debug_on w' then
      emit Disable (emit (Printf ''  %08x %08x %08x %s\<newline>''
        [PInt (uint (is_Code node)), PInt (uint (is_Data node)), PInt (uint s),
         PStr (GetNodeName node)]) (emit Enable w')) else w')"
  from Cons.prems have d: "off_istat w wd" by (simp add: wd_def off_istat_emit)
  define w3 where "w3 = emit (RemIntServer A4091_IRQ s) (upd_save (\<lambda>sv. sv\<lparr>driver_isr := s\<rparr>) wd)"
  from d have d3: "off_istat w w3" by (simp add: w3_def off_istat_emit off_istat_upd_save)
  have "disable_driver_walk (x # rest) (suspended, w') =
      (if GetNodeName node = ''NCR SCSI'' then disable_driver_walk rest (True, w3)
       else disable_driver_walk rest (suspended, wd))"
    by (simp add: x Let_def wd_def w3_def upd_save_def)
  with Cons.IH [OF d, of suspended] Cons.IH [OF d3, of True] show ?case by simp
qed

lemma off_istat_disable:
  "off_istat w w' \<Longrightarrow> off_istat w (a4091_disable_driver_irq_handler slist verbose w')"
proof -
  assume a: "off_istat w w'"
  then have "off_istat w (emit Disable w')" by (simp add: off_istat_emit)
  from off_istat_walk [OF this, of slist False] a show ?thesis
    by (simp add: a4091_disable_driver_irq_handler_def Let_def split_beta off_istat_emit)
qed


lemma or_rst_u8: "(ucast ((ucast (x :: 8 word) :: 32 word) OR REG_ISTAT_RST) :: 8 word) = x OR 0x40"
  unfolding rst_bit by (rule bit_word_eqI) (auto simp add: bit_simps)

lemma and_not_rst_u8:
  "(ucast ((ucast (x :: 8 word) :: 32 word) AND NOT REG_ISTAT_RST) :: 8 word) = x AND NOT 0x40"
  unfolding rst_bit by (rule bit_word_eqI) (auto simp add: bit_simps)

lemma takeover_prologue:
  assumes "card_owned (a4091_save w) = 0"
  shows "\<exists>w5. reg_istat (a4091_save w5) = te_istat env \<and> a4091_base w5 = a4091_base w \<and>
     (\<exists>es. trace w5 = trace w @ es \<and>
        istat_events w es =
          [Read8 (window w REG_ISTAT),
           Write8 (shadow w REG_ISTAT) (te_istat env OR 0x40),
           Read8 (window w REG_ISTAT),
           Write8 (shadow w REG_ISTAT) (te_istat env),
           Write8 (shadow w REG_ISTAT) (te_istat env OR 0x40)]) \<and>
     a4091_state_takeover env w =
       (case takeover_wait env 0 w5 of
          None \<Rightarrow> None
        | Some w6 \<Rightarrow>
            Some (set_ncrreg8 REG_ISTAT
                    (ucast (ucast (reg_istat (a4091_save w6)) AND NOT REG_ISTAT_RST)) w6))"
proof -
  define w1 where "w1 = (if cleanup_installed (a4091_save w) = 0 then
      emit Atexit_cleanup (upd_save (\<lambda>s. s\<lparr>cleanup_installed := 1\<rparr>) w) else w)"
  define w4 where "w4 = a4091_disable_driver_irq_handler (te_chain env) 0
      (a4091_add_local_irq_handler (te_alloc env) (upd_save (\<lambda>s. s\<lparr>card_owned := 1\<rparr>) w1))"
  define wb where "wb = upd_save (\<lambda>s. s\<lparr>reg_istat := te_istat env\<rparr>) (get_ncrreg8 REG_ISTAT w4)"
  define wc where "wc = (if debug_on wb then emit (Printf ''Soft resetting SIOP\<newline>'' []) wb else wb)"
  define w5 where "w5 = set_ncrreg8 REG_ISTAT (te_istat env OR 0x40)
      (set_ncrreg8 REG_ISTAT (te_istat env)
        (get_ncrreg8 REG_ISTAT (set_ncrreg8 REG_ISTAT (te_istat env OR 0x40) wc)))"
  have o1: "off_istat w w1"
    by (simp add: w1_def off_istat_emit off_istat_upd_save)
  have c1: "card_owned (a4091_save w1) = 0"
    using assms by (simp add: w1_def upd_save_def)
  from o1 have o4: "off_istat w w4"
    unfolding w4_def by (intro off_istat_disable off_istat_add_local off_istat_upd_save)
  then obtain es4 where b4: "a4091_base w4 = a4091_base w" and t4: "trace w4 = trace w @ es4"
    and i4: "istat_events w es4 = []"
    by (auto simp add: off_istat_def)
  have rc: "reg_istat (a4091_save wc) = te_istat env"
    by (simp add: wc_def wb_def upd_save_def)
  have r5: "reg_istat (a4091_save w5) = te_istat env"
    using rc by (simp add: w5_def set_ncrreg8_def get_ncrreg8_def)
  have b5: "a4091_base w5 = a4091_base w"
    using b4 by (simp add: w5_def wc_def wb_def set_ncrreg8_def get_ncrreg8_def emit_def
        upd_save_def)
  have tc: "\<exists>ps. trace wc = trace w4 @ Read8 (window w REG_ISTAT) # ps \<and> istat_events w ps = []"
    using b4 by (simp add: wc_def wb_def get_ncrreg8_def emit_def upd_save_def window_def
        istat_events_def)
  then obtain ps where tc': "trace wc = trace w4 @ Read8 (window w REG_ISTAT) # ps"
    and ips: "istat_events w ps = []" by blast
  have bc: "a4091_base wc = a4091_base w"
    using b4 by (simp add: wc_def wb_def get_ncrreg8_def emit_def upd_save_def)
  have t5: "trace w5 = trace w @ (es4 @ Read8 (window w REG_ISTAT) # ps @
      [Write8 (shadow w REG_ISTAT) (te_istat env OR 0x40),
       Read8 (window w REG_ISTAT),
       Write8 (shadow w REG_ISTAT) (te_istat env),
       Write8 (shadow w REG_ISTAT) (te_istat env OR 0x40)])"
    using bc by (simp add: w5_def tc' t4 set_ncrreg8_def get_ncrreg8_def emit_def window_def
        shadow_def)
  have i5: "istat_events w (es4 @ Read8 (window w REG_ISTAT) # ps @
      [Write8 (shadow w REG_ISTAT) (te_istat env OR 0x40),
       Read8 (window w REG_ISTAT),
       Write8 (shadow w REG_ISTAT) (te_istat env),
       Write8 (shadow w REG_ISTAT) (te_istat env OR 0x40)]) =
          [Read8 (window w REG_ISTAT),
           Write8 (shadow w REG_ISTAT) (te_istat env OR 0x40),
           Read8 (window w REG_ISTAT),
           Write8 (shadow w REG_ISTAT) (te_istat env),
           Write8 (shadow w REG_ISTAT) (te_istat env OR 0x40)]"
    using i4 ips by (simp add: istat_events_def is_istat_access_def)
  have e: "a4091_state_takeover env w =
       (case takeover_wait env 0 w5 of
          None \<Rightarrow> None
        | Some w6 \<Rightarrow>
            Some (set_ncrreg8 REG_ISTAT
                    (ucast (ucast (reg_istat (a4091_save w6)) AND NOT REG_ISTAT_RST)) w6))"
    unfolding a4091_state_takeover_def Let_def
    apply (fold w1_def)
    apply (simp only: c1 if_True)
    apply (fold w4_def)
    apply (fold wb_def)
    apply (fold wc_def)
    apply (simp only: or_rst_u8 rc)
    apply (simp add: w5_def set_ncrreg8_def get_ncrreg8_def rc)
    done
  from r5 b5 t5 i5 e show ?thesis by blast
qed


lemma takeover_owned:
  assumes "card_owned (a4091_save w) \<noteq> 0"
  shows "\<exists>w'. a4091_state_takeover env w = Some w' \<and> istat_events w (new_events w w') = []"
proof -
  define w1 where "w1 = (if cleanup_installed (a4091_save w) = 0 then
      emit Atexit_cleanup (upd_save (\<lambda>s. s\<lparr>cleanup_installed := 1\<rparr>) w) else w)"
  have c1: "card_owned (a4091_save w1) \<noteq> 0"
    using assms by (simp add: w1_def upd_save_def)
  have "a4091_state_takeover env w = Some w1"
    unfolding a4091_state_takeover_def Let_def
    apply (fold w1_def)
    apply (simp add: c1)
    done
  moreover have "istat_events w (new_events w w1) = []"
    by (simp add: w1_def new_events_def emit_def upd_save_def istat_events_def)
  ultimately show ?thesis by blast
qed

lemma takeover_result:
  assumes o: "card_owned (a4091_save w) = 0" and u: "\<forall>m<n. waiting env m" and d: "\<not> waiting env n"
  shows "\<exists>w'. a4091_state_takeover env w = Some w' \<and>
     istat_events w (new_events w w') =
          [Read8 (window w REG_ISTAT),
           Write8 (shadow w REG_ISTAT) (te_istat env OR 0x40),
           Read8 (window w REG_ISTAT),
           Write8 (shadow w REG_ISTAT) (te_istat env),
           Write8 (shadow w REG_ISTAT) (te_istat env OR 0x40)] @
          replicate (Suc n) (Read8 (window w REG_ISTAT)) @
          [Write8 (shadow w REG_ISTAT) (te_istat env AND NOT 0x40)]"
proof -
  from takeover_prologue [OF o, of env] obtain w5 es where
    r5: "reg_istat (a4091_save w5) = te_istat env" and b5: "a4091_base w5 = a4091_base w"
    and t5: "trace w5 = trace w @ es"
    and i5: "istat_events w es =
          [Read8 (window w REG_ISTAT),
           Write8 (shadow w REG_ISTAT) (te_istat env OR 0x40),
           Read8 (window w REG_ISTAT),
           Write8 (shadow w REG_ISTAT) (te_istat env),
           Write8 (shadow w REG_ISTAT) (te_istat env OR 0x40)]"
    and e: "a4091_state_takeover env w =
       (case takeover_wait env 0 w5 of
          None \<Rightarrow> None
        | Some w6 \<Rightarrow>
            Some (set_ncrreg8 REG_ISTAT
                    (ucast (ucast (reg_istat (a4091_save w6)) AND NOT REG_ISTAT_RST)) w6))"
    by blast
  from wait_result [OF u d, of w5] obtain w6 where
    wd: "waited w5 w6 (Suc n)" and r: "takeover_wait env 0 w5 = Some w6" by blast
  from wd obtain es6 where b6: "a4091_base w6 = a4091_base w5"
    and s6: "a4091_save w6 = a4091_save w5" and t6: "trace w6 = trace w5 @ es6"
    and i6: "istat_events w5 es6 = replicate (Suc n) (Read8 (window w5 REG_ISTAT))"
    unfolding waited_def by blast
  from b5 have x: "istat_events w5 es6 = istat_events w es6"
    "window w5 REG_ISTAT = window w REG_ISTAT"
    by (simp_all add: istat_events_def istat_access_base [OF b5] window_def)
  let ?w' = "set_ncrreg8 REG_ISTAT (te_istat env AND NOT 0x40) w6"
  have res: "a4091_state_takeover env w = Some ?w'"
    by (simp add: e r s6 r5 and_not_rst_u8)
  have "trace ?w' = trace w @ (es @ es6 @ [Write8 (shadow w REG_ISTAT) (te_istat env AND NOT 0x40)])"
    using b5 b6 by (simp add: set_ncrreg8_def emit_def t6 t5 shadow_def)
  then have "new_events w ?w' = es @ es6 @ [Write8 (shadow w REG_ISTAT) (te_istat env AND NOT 0x40)]"
    by (simp add: new_events_def)
  then have "istat_events w (new_events w ?w') =
      istat_events w es @ istat_events w es6 @
        [Write8 (shadow w REG_ISTAT) (te_istat env AND NOT 0x40)]"
    by (simp add: istat_events_def is_istat_access_def)
  with i5 i6 x res show ?thesis by (intro exI [of _ ?w']) simp
qed

text \<open>
  C2, as the code has it.  A call of \<^verbatim>\<open>a4091_state_takeover\<close> on a card that is not
  owned returns exactly when some turn of its wait loop reads ISTAT with RST set or
  finds more than 2 ticks passed.  When it returns after turn \<open>n\<close> (counted from 0), its
  accesses to ISTAT are, in this order: the read that is saved in \<^verbatim>\<open>reg_istat\<close>; a write
  of the saved value with RST set; a read back; a write of the saved value as it was
  read; a second write of the saved value with RST set; the \<open>n + 1\<close> reads of the wait
  loop; and last a write of the saved value with RST cleared.  No read of ISTAT follows
  that last write.  A call on a card that is already owned returns without any access
  to ISTAT.
\<close>

theorem takeover_soft_reset_order:
  "(card_owned (a4091_save w) = 0 \<longrightarrow>
      ((\<exists>w'. a4091_state_takeover env w = Some w') = (\<exists>n. \<not> waiting env n)) \<and>
      (\<forall>n w'. (\<forall>m<n. waiting env m) \<and> \<not> waiting env n \<and>
           a4091_state_takeover env w = Some w' \<longrightarrow>
         istat_events w (new_events w w') =
           [Read8 (window w REG_ISTAT),
            Write8 (shadow w REG_ISTAT) (te_istat env OR 0x40),
            Read8 (window w REG_ISTAT),
            Write8 (shadow w REG_ISTAT) (te_istat env),
            Write8 (shadow w REG_ISTAT) (te_istat env OR 0x40)] @
           replicate (Suc n) (Read8 (window w REG_ISTAT)) @
           [Write8 (shadow w REG_ISTAT) (te_istat env AND NOT 0x40)])) \<and>
   (card_owned (a4091_save w) \<noteq> 0 \<longrightarrow>
      (\<exists>w'. a4091_state_takeover env w = Some w' \<and> istat_events w (new_events w w') = []))"
proof (intro conjI impI allI)
  assume o: "card_owned (a4091_save w) = 0"
  show "(\<exists>w'. a4091_state_takeover env w = Some w') = (\<exists>n. \<not> waiting env n)"
  proof
    assume "\<exists>w'. a4091_state_takeover env w = Some w'"
    then obtain w' where r: "a4091_state_takeover env w = Some w'" ..
    from takeover_prologue [OF o, of env] obtain w5 where
      e: "a4091_state_takeover env w =
       (case takeover_wait env 0 w5 of
          None \<Rightarrow> None
        | Some w6 \<Rightarrow>
            Some (set_ncrreg8 REG_ISTAT
                    (ucast (ucast (reg_istat (a4091_save w6)) AND NOT REG_ISTAT_RST)) w6))"
      by blast
    from r e obtain w6 where "takeover_wait env 0 w5 = Some w6"
      by (cases "takeover_wait env 0 w5") simp_all
    from wait_returns_decided [OF this] show "\<exists>n. \<not> waiting env n" by blast
  next
    assume "\<exists>n. \<not> waiting env n"
    then obtain k where k: "\<not> waiting env k" ..
    define n where "n = (LEAST j. \<not> waiting env j)"
    from k have d: "\<not> waiting env n" unfolding n_def by (rule LeastI)
    have u: "\<forall>m<n. waiting env m"
      using not_less_Least [of _ "\<lambda>j. \<not> waiting env j"] unfolding n_def by blast
    from takeover_result [OF o u d] show "\<exists>w'. a4091_state_takeover env w = Some w'" by blast
  qed
next
  fix n w'
  assume o: "card_owned (a4091_save w) = 0"
    and a: "(\<forall>m<n. waiting env m) \<and> \<not> waiting env n \<and> a4091_state_takeover env w = Some w'"
  then have u: "\<forall>m<n. waiting env m" and d: "\<not> waiting env n"
    and r: "a4091_state_takeover env w = Some w'" by simp_all
  from takeover_result [OF o u d] r
  show "istat_events w (new_events w w') =
           [Read8 (window w REG_ISTAT),
            Write8 (shadow w REG_ISTAT) (te_istat env OR 0x40),
            Read8 (window w REG_ISTAT),
            Write8 (shadow w REG_ISTAT) (te_istat env),
            Write8 (shadow w REG_ISTAT) (te_istat env OR 0x40)] @
           replicate (Suc n) (Read8 (window w REG_ISTAT)) @
           [Write8 (shadow w REG_ISTAT) (te_istat env AND NOT 0x40)]"
    by auto
next
  assume "card_owned (a4091_save w) \<noteq> 0"
  from takeover_owned [OF this]
  show "\<exists>w'. a4091_state_takeover env w = Some w' \<and> istat_events w (new_events w w') = []" .
qed


lemma reset_ack_wait:
  "takeover_wait reset_ack_run 0 w = Some (get_ncrreg8 REG_ISTAT w)"
  by (subst takeover_wait.simps) (simp add: reset_ack_run_def Let_def rst_bit)

lemma reset_ack_trace:
  "map_option trace (a4091_state_takeover reset_ack_run released_world) =
     Some [Atexit_cleanup, AllocMem 22 0x00200000, AddIntServer 3 0x00200000,
           Read8 0x40800022, Write8 0x40800062 0x40, Read8 0x40800022,
           Write8 0x40800062 0, Write8 0x40800062 0x40,
           Read8 0x40800022, Write8 0x40800062 0]"
  unfolding a4091_state_takeover_def Let_def reset_ack_wait
  by (simp add: released_world_def idle_save_def upd_save_def emit_def
      a4091_add_local_irq_handler_def a4091_disable_driver_irq_handler_def
      get_ncrreg8_def set_ncrreg8_def debug_on_def FLAG_DEBUG_def Let_def
      A4091_OFFSET_REGISTERS_def A4091_IRQ_def sizeof_Interrupt_def REG_ISTAT_def
      rst_bit reset_ack_run_def)

theorem takeover_soft_reset_order_witness:
  "card_owned (a4091_save released_world) = 0 \<and> \<not> waiting reset_ack_run 0 \<and>
   (\<exists>w'. a4091_state_takeover reset_ack_run released_world = Some w' \<and>
      istat_events released_world (new_events released_world w') =
        [Read8 0x40800022, Write8 0x40800062 0x40, Read8 0x40800022,
         Write8 0x40800062 0, Write8 0x40800062 0x40,
         Read8 0x40800022, Write8 0x40800062 0]) \<and>
   card_owned (a4091_save owned_world) \<noteq> 0 \<and>
   (\<exists>w'. a4091_state_takeover reset_ack_run owned_world = Some w' \<and>
      istat_events owned_world (new_events owned_world w') = [])"
proof -
  have o: "card_owned (a4091_save released_world) = 0"
    by (simp add: released_world_def idle_save_def)
  have d: "\<not> waiting reset_ack_run 0"
    by (simp add: waiting_def rst_seen_def reset_ack_run_def)
  have u: "\<forall>m<0. waiting reset_ack_run m" by simp
  note a = takeover_soft_reset_order [of released_world reset_ack_run]
  from a o d obtain w' where r: "a4091_state_takeover reset_ack_run released_world = Some w'"
    by blast
  from a o d u r have "istat_events released_world (new_events released_world w') =
           [Read8 (window released_world REG_ISTAT),
            Write8 (shadow released_world REG_ISTAT) (te_istat reset_ack_run OR 0x40),
            Read8 (window released_world REG_ISTAT),
            Write8 (shadow released_world REG_ISTAT) (te_istat reset_ack_run),
            Write8 (shadow released_world REG_ISTAT) (te_istat reset_ack_run OR 0x40)] @
           replicate (Suc 0) (Read8 (window released_world REG_ISTAT)) @
           [Write8 (shadow released_world REG_ISTAT) (te_istat reset_ack_run AND NOT 0x40)]"
    by blast
  then have i: "istat_events released_world (new_events released_world w') =
        [Read8 0x40800022, Write8 0x40800062 0x40, Read8 0x40800022,
         Write8 0x40800062 0, Write8 0x40800062 0x40,
         Read8 0x40800022, Write8 0x40800062 0]"
    by (simp add: window_def shadow_def released_world_def reset_ack_run_def
        A4091_OFFSET_REGISTERS_def REG_ISTAT_def)
  have c: "card_owned (a4091_save owned_world) \<noteq> 0"
    by (simp add: owned_world_def)
  note b = takeover_soft_reset_order [of owned_world reset_ack_run]
  from b c have "\<exists>w'. a4091_state_takeover reset_ack_run owned_world = Some w' \<and>
      istat_events owned_world (new_events owned_world w') = []"
    by blast
  with o d r i c show ?thesis by blast
qed

text \<open>
  The claim as stated fails.  In this run ISTAT reads 0 when it is saved and reads
  \<open>0x40\<close> (RST set) at the first read of the wait loop, with the clock still at its
  starting tick.  Between the write that restores the saved value and the wait there
  is a second write with RST set, and after the read that finds RST set the function
  writes ISTAT once more and returns: it never reads ISTAT again, so RST is not
  observed clear, and no timeout has elapsed.
\<close>

theorem takeover_observes_clear_counterexample:
  "map_option trace (a4091_state_takeover reset_ack_run released_world) =
     Some [Atexit_cleanup, AllocMem 22 0x00200000, AddIntServer 3 0x00200000,
           Read8 0x40800022, Write8 0x40800062 0x40, Read8 0x40800022,
           Write8 0x40800062 0, Write8 0x40800062 0x40,
           Read8 0x40800022, Write8 0x40800062 0] \<and>
   te_poll reset_ack_run 0 = 0x40 \<and> te_tick reset_ack_run 0 = te_tick_start reset_ack_run"
  using reset_ack_trace by (simp add: reset_ack_run_def)

subsection \<open>SCSI pin test\<close>

lemma ucast_or_single_bit:
  "k < 8 \<Longrightarrow>
   (ucast ((ucast (x :: 8 word) :: 32 word) OR push_bit k 1) :: 8 word) = x OR push_bit k 1"
  by (rule bit_word_eqI) (auto simp add: bit_simps)

lemma or_single_bit:
  assumes k: "k < 8"
  shows "((x :: 8 word) OR push_bit k 1 = - 1) = (x = - 1 \<or> x = NOT (push_bit k 1))"
proof
  assume a: "x OR push_bit k 1 = - 1"
  have b: "bit x n \<or> n = k" if "n < 8" for n
  proof -
    from a have "bit (x OR push_bit k 1) n = bit (- 1 :: 8 word) n" by simp
    with that show ?thesis by (auto simp add: bit_simps)
  qed
  show "x = - 1 \<or> x = NOT (push_bit k 1)"
  proof (cases "bit x k")
    case True
    have "x = - 1"
    proof (rule bit_word_eqI)
      fix n assume "n < LENGTH(8)"
      with b [of n] True show "bit x n = bit (- 1 :: 8 word) n" by auto
    qed
    then show ?thesis ..
  next
    case False
    have "x = NOT (push_bit k 1)"
    proof (rule bit_word_eqI)
      fix n assume "n < LENGTH(8)"
      with b [of n] False show "bit x n = bit (NOT (push_bit k 1) :: 8 word) n"
        by (auto simp add: bit_simps)
    qed
    then show ?thesis ..
  qed
next
  assume "x = - 1 \<or> x = NOT (push_bit k 1)"
  then show "x OR push_bit k 1 = - 1"
  proof
    assume "x = - 1" then show ?thesis by simp
  next
    assume "x = NOT (push_bit k 1)"
    then show ?thesis using k by (intro bit_word_eqI) (auto simp add: bit_simps)
  qed
qed

lemma or_bsy_u8: "(ucast ((ucast (x :: 8 word) :: 32 word) OR 0x20) :: 8 word) = x OR 0x20"
  using ucast_or_single_bit [of 5 x] by simp

lemma u8_neg: "(- 1 :: 8 word) = 0xff" "(- 33 :: 8 word) = 0xdf"
  by (simp_all add: neg_eq_iff_add_eq_0)

lemma or_bsy_all_ones: "((x :: 8 word) OR 0x20 = 0xff) = (x = 0xff \<or> x = 0xdf)"
  using or_single_bit [of 5 x] by (simp add: u8_neg)


lemma sstat1_rst_bit: "REG_SSTAT1_RST = 0x02"
  by (simp add: REG_SSTAT1_RST_def BIT_def)

lemma pins_prologue_trace:
  "trace (get_ncrreg8 REG_SBCL (get_ncrreg8 REG_SBDL (emit (Delay 1) (a4091_reset
      (get_ncrreg8 REG_DCNTL (get_ncrreg8 REG_SCNTL1 (get_ncrreg8 REG_SCNTL0
        (get_ncrreg8 REG_CTEST4 (show_test_state ''SCSI pin test:'' (- 1) w))))))))) =
   trace w @
     [Printf ''  %-15s '' [PStr ''SCSI pin test:''],
      Read8 (window w REG_CTEST4), Read8 (window w REG_SCNTL0),
      Read8 (window w REG_SCNTL1), Read8 (window w REG_DCNTL),
      Write8 (shadow w REG_DCNTL) 0x20, Write8 (shadow w REG_ISTAT) 0x40,
      Read8 (window w REG_ISTAT), Write8 (shadow w REG_ISTAT) 0,
      Read8 (window w REG_ISTAT), Write8 (shadow w REG_SCID) 0x80,
      Write8 (shadow w REG_DCNTL) 0x20, Write8 (shadow w REG_DWT) 0xff,
      Delay 1, Read8 (window w REG_SBDL), Read8 (window w REG_SBCL)]"
  by (simp add: show_test_state_def a4091_reset_def get_ncrreg8_def set_ncrreg8_def emit_def
      Let_def window_def shadow_def REG_DCNTL_EA_def REG_ISTAT_RST_def BIT_def)

lemma pins_prologue_base:
  "a4091_base (get_ncrreg8 REG_SBCL (get_ncrreg8 REG_SBDL (emit (Delay 1) (a4091_reset
      (get_ncrreg8 REG_DCNTL (get_ncrreg8 REG_SCNTL1 (get_ncrreg8 REG_SCNTL0
        (get_ncrreg8 REG_CTEST4 (show_test_state ''SCSI pin test:'' (- 1) w))))))))) =
   a4091_base w"
  by (simp add: show_test_state_def a4091_reset_def get_ncrreg8_def set_ncrreg8_def emit_def
      Let_def)

lemma window_sstat1_distinct:
  "window w REG_SSTAT1 \<noteq> window w REG_CTEST4" "window w REG_SSTAT1 \<noteq> window w REG_SCNTL0"
  "window w REG_SSTAT1 \<noteq> window w REG_SCNTL1" "window w REG_SSTAT1 \<noteq> window w REG_DCNTL"
  "window w REG_SSTAT1 \<noteq> window w REG_ISTAT" "window w REG_SSTAT1 \<noteq> window w REG_SBDL"
  "window w REG_SSTAT1 \<noteq> window w REG_SBCL"
  by (simp_all add: window_def REG_SSTAT1_def REG_CTEST4_def REG_SCNTL0_def REG_SCNTL1_def
      REG_DCNTL_def REG_ISTAT_def REG_SBDL_def REG_SBCL_def)

lemma pins_abort:
  assumes "sp_sbdl env = 0xff \<and> (sp_sbcl env = 0xff \<or> sp_sbcl env = 0xdf)"
  shows "\<exists>w'. test_scsi_pins env w = Returned 1 w' \<and>
     last (trace w') =
       Printf ''All SCSI pins low (check term power D309A and F309A/F309B)\<newline>'' [] \<and>
     Read8 (window w REG_SSTAT1) \<notin> set (new_events w w')"
proof -
  let ?w0 = "get_ncrreg8 REG_SBCL (get_ncrreg8 REG_SBDL (emit (Delay 1) (a4091_reset
      (get_ncrreg8 REG_DCNTL (get_ncrreg8 REG_SCNTL1 (get_ncrreg8 REG_SCNTL0
        (get_ncrreg8 REG_CTEST4 (show_test_state ''SCSI pin test:'' (- 1) w))))))))"
  let ?w' = "emit (Printf ''All SCSI pins low (check term power D309A and F309A/F309B)\<newline>'' [])
      (emit (Printf ''\<newline>'' []) ?w0)"
  from assms have c: "sp_sbcl env OR 0x20 = 0xff" "sp_sbdl env = 0xff"
    by (simp_all add: or_bsy_all_ones)
  have r: "test_scsi_pins env w = Returned 1 ?w'"
    unfolding test_scsi_pins_def Let_def or_bsy_u8 by (simp add: c)
  have t: "trace ?w' = trace ?w0 @ [Printf ''\<newline>'' [],
      Printf ''All SCSI pins low (check term power D309A and F309A/F309B)\<newline>'' []]"
    by (simp add: emit_def)
  have l: "last (trace ?w') =
       Printf ''All SCSI pins low (check term power D309A and F309A/F309B)\<newline>'' []"
    unfolding t by simp
  have n: "Read8 (window w REG_SSTAT1) \<notin> set (new_events w ?w')"
    unfolding new_events_def t pins_prologue_trace
    using window_sstat1_distinct [of w] by simp
  from r l n show ?thesis by blast
qed

lemma pins_proceed:
  assumes "\<not> (sp_sbdl env = 0xff \<and> (sp_sbcl env = 0xff \<or> sp_sbcl env = 0xdf))"
  shows "Printf ''All SCSI pins low (check term power D309A and F309A/F309B)\<newline>'' []
       \<notin> set (new_events w (exit_world (test_scsi_pins env w))) \<and>
     Read8 (window w REG_SSTAT1) \<in> set (new_events w (exit_world (test_scsi_pins env w)))"
proof -
  define w0 where "w0 = get_ncrreg8 REG_SBCL (get_ncrreg8 REG_SBDL (emit (Delay 1) (a4091_reset
      (get_ncrreg8 REG_DCNTL (get_ncrreg8 REG_SCNTL1 (get_ncrreg8 REG_SCNTL0
        (get_ncrreg8 REG_CTEST4 (show_test_state ''SCSI pin test:'' (- 1) w))))))))"
  define pre where "pre = [Printf ''  %-15s '' [PStr ''SCSI pin test:''],
      Read8 (window w REG_CTEST4), Read8 (window w REG_SCNTL0),
      Read8 (window w REG_SCNTL1), Read8 (window w REG_DCNTL),
      Write8 (shadow w REG_DCNTL) 0x20, Write8 (shadow w REG_ISTAT) 0x40,
      Read8 (window w REG_ISTAT), Write8 (shadow w REG_ISTAT) 0,
      Read8 (window w REG_ISTAT), Write8 (shadow w REG_SCID) 0x80,
      Write8 (shadow w REG_DCNTL) 0x20, Write8 (shadow w REG_DWT) 0xff,
      Delay 1, Read8 (window w REG_SBDL), Read8 (window w REG_SBCL)]"
  have t0: "trace w0 = trace w @ pre"
    unfolding w0_def pre_def by (rule pins_prologue_trace)
  have b0: "a4091_base w0 = a4091_base w"
    unfolding w0_def by (rule pins_prologue_base)
  have p0: "Printf ''All SCSI pins low (check term power D309A and F309A/F309B)\<newline>'' []
      \<notin> set pre"
    by (simp add: pre_def)
  from assms have c: "\<not> (sp_sbcl env OR 0x20 = 0xff \<and> sp_sbdl env = 0xff)"
    by (auto simp add: or_bsy_all_ones)
  show ?thesis
    unfolding test_scsi_pins_def Let_def or_bsy_u8
    apply (fold w0_def)
    using c p0
    apply (auto simp add: new_events_def t0 b0 emit_def get_ncrreg8_def
        set_ncrreg8_def window_def)
    done
qed


text \<open>
  C9, as the code has it.  The SCSI pin test sets bit 5 (\<^verbatim>\<open>SCTRL_BSY\<close>) in the value read
  from SBCL before it compares.  It returns early with the termination-power
  diagnostic exactly when SBDL reads \<open>0xFF\<close> and SBCL reads \<open>0xFF\<close> or \<open>0xDF\<close>; the return
  value is then 1 and SSTAT1 has not been read.  For every other pair of values the
  diagnostic is not printed and the test goes on to the reset check: it reads SSTAT1.
\<close>

theorem scsi_pins_term_power_abort:
  "(sp_sbdl env = 0xff \<and> (sp_sbcl env = 0xff \<or> sp_sbcl env = 0xdf) \<longrightarrow>
      (\<exists>w'. test_scsi_pins env w = Returned 1 w' \<and>
         last (trace w') =
           Printf ''All SCSI pins low (check term power D309A and F309A/F309B)\<newline>'' [] \<and>
         Read8 (window w REG_SSTAT1) \<notin> set (new_events w w'))) \<and>
   (\<not> (sp_sbdl env = 0xff \<and> (sp_sbcl env = 0xff \<or> sp_sbcl env = 0xdf)) \<longrightarrow>
      Printf ''All SCSI pins low (check term power D309A and F309A/F309B)\<newline>'' []
        \<notin> set (new_events w (exit_world (test_scsi_pins env w))) \<and>
      Read8 (window w REG_SSTAT1) \<in> set (new_events w (exit_world (test_scsi_pins env w))))"
  using pins_abort [of env w] pins_proceed [of env w] by blast

theorem scsi_pins_term_power_abort_witness:
  "sp_sbdl bsy_clear_pins = 0xff \<and> sp_sbcl bsy_clear_pins = 0xdf \<and>
   (\<exists>w'. test_scsi_pins bsy_clear_pins released_world = Returned 1 w' \<and>
      last (trace w') =
        Printf ''All SCSI pins low (check term power D309A and F309A/F309B)\<newline>'' [] \<and>
      Read8 (window released_world REG_SSTAT1) \<notin> set (new_events released_world w')) \<and>
   sp_sbdl quiet_pins = 0 \<and> sp_sbcl quiet_pins = 0 \<and>
   Printf ''All SCSI pins low (check term power D309A and F309A/F309B)\<newline>'' []
     \<notin> set (new_events released_world (exit_world (test_scsi_pins quiet_pins released_world))) \<and>
   Read8 (window released_world REG_SSTAT1)
     \<in> set (new_events released_world (exit_world (test_scsi_pins quiet_pins released_world)))"
proof -
  have a: "sp_sbdl bsy_clear_pins = 0xff" "sp_sbcl bsy_clear_pins = 0xdf"
    by (simp_all add: bsy_clear_pins_def)
  have q: "sp_sbdl quiet_pins = 0" "sp_sbcl quiet_pins = 0"
    by (simp_all add: quiet_pins_def)
  then have nq: "\<not> (sp_sbdl quiet_pins = 0xff \<and> (sp_sbcl quiet_pins = 0xff \<or> sp_sbcl quiet_pins = 0xdf))"
    by simp
  from a scsi_pins_term_power_abort [of bsy_clear_pins released_world]
  have x: "\<exists>w'. test_scsi_pins bsy_clear_pins released_world = Returned 1 w' \<and>
      last (trace w') =
        Printf ''All SCSI pins low (check term power D309A and F309A/F309B)\<newline>'' [] \<and>
      Read8 (window released_world REG_SSTAT1) \<notin> set (new_events released_world w')"
    by blast
  from nq scsi_pins_term_power_abort [of quiet_pins released_world]
  have y: "Printf ''All SCSI pins low (check term power D309A and F309A/F309B)\<newline>'' []
     \<notin> set (new_events released_world (exit_world (test_scsi_pins quiet_pins released_world))) \<and>
   Read8 (window released_world REG_SSTAT1)
     \<in> set (new_events released_world (exit_world (test_scsi_pins quiet_pins released_world)))"
    by blast
  from a q x y show ?thesis by blast
qed

text \<open>
  The claim as stated fails.  With SBDL reading \<open>0xFF\<close> and SBCL reading \<open>0xDF\<close>, not
  \<open>0xFF\<close>, the test returns 1 right after printing the termination-power diagnostic.
\<close>

theorem scsi_pins_sbcl_df_counterexample:
  "sp_sbdl bsy_clear_pins = 0xff \<and> sp_sbcl bsy_clear_pins = 0xdf \<and>
   test_scsi_pins bsy_clear_pins released_world =
     Returned 1 (exit_world (test_scsi_pins bsy_clear_pins released_world)) \<and>
   last (trace (exit_world (test_scsi_pins bsy_clear_pins released_world))) =
     Printf ''All SCSI pins low (check term power D309A and F309A/F309B)\<newline>'' []"
proof -
  have a: "sp_sbdl bsy_clear_pins = 0xff" "sp_sbcl bsy_clear_pins = 0xdf"
    by (simp_all add: bsy_clear_pins_def)
  then have "sp_sbdl bsy_clear_pins = 0xff \<and>
      (sp_sbcl bsy_clear_pins = 0xff \<or> sp_sbcl bsy_clear_pins = 0xdf)" by simp
  from pins_abort [OF this, of released_world] obtain w' where
    "test_scsi_pins bsy_clear_pins released_world = Returned 1 w'"
    "last (trace w') =
       Printf ''All SCSI pins low (check term power D309A and F309A/F309B)\<newline>'' []"
    by blast
  with a show ?thesis by simp
qed

subsection \<open>Listing with no card present\<close>

lemma parse_list_only:
  "parse_args env
     \<lparr>ms_argv = [Some prog, Some ''-P''], ms_arg = 1, flag_config = 0, flag_dma = 0,
      flag_force = 0, flag_loop = 0, flag_kill = 0, flag_list = 0, flag_regs = 0,
      flag_switches = 0, flag_test = 0, test_flags = 0, ms_addr = 0,
      ms_dma = [0, 0, 0], ms_world = w\<rparr> =
   Inr \<lparr>ms_argv = [Some prog, Some ''-P''], ms_arg = 2, flag_config = 0, flag_dma = 0,
      flag_force = 0, flag_loop = 0, flag_kill = 0, flag_list = 1, flag_regs = 0,
      flag_switches = 0, flag_test = 0, test_flags = 0, ms_addr = 0,
      ms_dma = [0, 0, 0], ms_world = w\<rparr>"
  apply (subst parse_args.simps)
  apply (simp add: is_digit_def)
  apply (subst parse_args.simps)
  apply simp
  done

lemma list_no_cards:
  assumes "he_library_opens env" and "he_cards env = []"
  shows "a4091_list env a w = (1, emit (Printf ''No A4091 cards detected\<newline>'' []) w)"
  using assms by (simp add: a4091_list_def)

text \<open>
  C10, as the code has it: run with the single option \<open>-P\<close> on a machine where
  \<^verbatim>\<open>expansion.library\<close> opens and no A4091 card is found, the program prints
  \<open>No A4091 cards detected\<close> and nothing else, and leaves through \<^verbatim>\<open>exit\<close> with
  status 1 (\<^verbatim>\<open>a4091_list\<close> returns \<open>count == 0\<close>, and \<^verbatim>\<open>main\<close> hands that to \<^verbatim>\<open>exit\<close>).
\<close>

theorem list_only_no_cards_exit_status:
  assumes "he_library_opens env" and "he_cards env = []"
  shows "main env [prog, ''-P''] w =
           Exit 1 (emit (Printf ''No A4091 cards detected\<newline>'' []) w)"
  unfolding main_def list.map parse_list_only
  by (simp add: list_no_cards [OF assms])

theorem list_only_no_cards_exit_status_witness:
  "he_library_opens cardless_host \<and> he_cards cardless_host = [] \<and>
   main cardless_host [''a4091'', ''-P''] released_world =
     Exit 1 (emit (Printf ''No A4091 cards detected\<newline>'' []) released_world)"
proof -
  have a: "he_library_opens cardless_host" and b: "he_cards cardless_host = []"
    by (simp_all add: cardless_host_def)
  from list_only_no_cards_exit_status [OF a b, of "''a4091''" released_world] a b
  show ?thesis by simp
qed

text \<open>
  C10 as stated fails: for the command line \<open>a4091 -P\<close> with no card the message is
  printed, but the exit status is 1 and not 0.
\<close>

theorem list_only_exit_zero_counterexample:
  "trace (emit (Printf ''No A4091 cards detected\<newline>'' []) released_world) =
     [Printf ''No A4091 cards detected\<newline>'' []] \<and>
   main cardless_host list_only_argv released_world =
     Exit 1 (emit (Printf ''No A4091 cards detected\<newline>'' []) released_world) \<and>
   main cardless_host list_only_argv released_world \<noteq>
     Exit 0 (emit (Printf ''No A4091 cards detected\<newline>'' []) released_world)"
proof -
  have a: "he_library_opens cardless_host" and b: "he_cards cardless_host = []"
    by (simp_all add: cardless_host_def)
  have "main cardless_host list_only_argv released_world =
     Exit 1 (emit (Printf ''No A4091 cards detected\<newline>'' []) released_world)"
    unfolding list_only_argv_def main_def list.map parse_list_only
    by (simp add: list_no_cards [OF a b])
  moreover have "trace (emit (Printf ''No A4091 cards detected\<newline>'' []) released_world) =
     [Printf ''No A4091 cards detected\<newline>'' []]"
    by (simp add: emit_def released_world_def)
  ultimately show ?thesis by simp
qed

subsection \<open>The DMA FIFO test pops what it has pushed\<close>

lemma writes8_append [simp]: "writes8 a (xs @ ys) = writes8 a xs @ writes8 a ys"
  by (simp add: writes8_def)

lemma writes8_Nil [simp]: "writes8 a [] = []"
  by (simp add: writes8_def)

lemma nine_bits_gen:
  fixes r :: "32 word" and c :: "8 word"
  assumes "k = 3"
  shows "(ucast (ucast (ucast (drop_bit 8 r) :: 16 word) :: 8 word) :: 16 word) OR
         push_bit 5
           (ucast (ucast ((ucast (ucast ((ucast c :: 32 word) AND NOT (push_bit k 1)) :: 8 word) :: 32 word) OR
                          (drop_bit 5 (ucast (ucast (drop_bit 8 r) :: 16 word)) AND push_bit k 1)) :: 8 word)
            AND push_bit k 1) =
         ucast (drop_bit 8 r AND mask 9)"
proof (rule bit_word_eqI)
  fix n :: nat
  assume "n < LENGTH(16)"
  then have n: "n < 16" by simp
  show "bit ((ucast (ucast (ucast (drop_bit 8 r) :: 16 word) :: 8 word) :: 16 word) OR
         push_bit 5
           (ucast (ucast ((ucast (ucast ((ucast c :: 32 word) AND NOT (push_bit k 1)) :: 8 word) :: 32 word) OR
                          (drop_bit 5 (ucast (ucast (drop_bit 8 r) :: 16 word)) AND push_bit k 1)) :: 8 word)
            AND push_bit k 1)) n =
        bit (ucast (drop_bit 8 r AND mask 9) :: 16 word) n"
    apply (simp add: bit_simps)
    using n assms apply auto
     apply (subgoal_tac "n = 8", simp, arith)
    apply (subgoal_tac "n = 8", simp, arith)
    done
qed

lemma nine_bits:
  fixes r :: "32 word" and c :: "8 word"
  shows "(ucast (ucast (ucast (drop_bit 8 r) :: 16 word) :: 8 word) :: 16 word) OR
         push_bit 5
           (ucast (ucast ((ucast (ucast ((ucast c :: 32 word) AND NOT (BIT 3)) :: 8 word) :: 32 word) OR
                          (drop_bit 5 (ucast (ucast (drop_bit 8 r) :: 16 word)) AND BIT 3)) :: 8 word)
            AND 8) =
         ucast (drop_bit 8 r AND (BIT 9 - 1))"
proof -
  have m: "(BIT 9 - 1 :: 32 word) = mask 9" "(BIT 3 :: 32 word) = push_bit 3 1"
    "(8 :: 16 word) = push_bit 3 1"
    by (simp_all add: BIT_def mask_eq_exp_minus_1)
  show ?thesis
    unfolding m by (rule nine_bits_gen) simp
qed


lemma rand32_eq:
  "rand32 w = (rand_step (rand_seed w), w\<lparr>rand_seed := rand_step (rand_seed w)\<rparr>)"
  by (simp add: rand32_def rand_step_def Let_def)

lemma push_byte:
  "rand_seed (fifo_push_byte c7 i w) = rand_step (rand_seed w)"
  "a4091_base (fifo_push_byte c7 i w) = a4091_base w"
  "runtime_flags (fifo_push_byte c7 i w) = runtime_flags w"
  "writes8 (shadow w REG_CTEST6) (trace (fifo_push_byte c7 i w)) =
     writes8 (shadow w REG_CTEST6) (trace w) @ [fifo_data (rand_step (rand_seed w))]"
  "writes8 (shadow w REG_CTEST7) (trace (fifo_push_byte c7 i w)) =
     writes8 (shadow w REG_CTEST7) (trace w) @ [fifo_parity c7 (rand_step (rand_seed w))]"
  by (simp_all add: fifo_push_byte_def rand32_eq Let_def set_ncrreg8_def emit_def debug_on_def
        writes8_def shadow_def fifo_data_def fifo_parity_def
        REG_CTEST6_def REG_CTEST7_def A4091_OFFSET_REGISTERS_def)

lemma fold_upt_Suc: "fold f [0..<Suc n] x = f n (fold f [0..<n] x)"
  by simp

lemma push_bytes:
  "rand_seed (fold (fifo_push_byte c7) [0..<n] w) = (rand_step ^^ n) (rand_seed w) \<and>
   a4091_base (fold (fifo_push_byte c7) [0..<n] w) = a4091_base w \<and>
   runtime_flags (fold (fifo_push_byte c7) [0..<n] w) = runtime_flags w \<and>
   writes8 (shadow w REG_CTEST6) (trace (fold (fifo_push_byte c7) [0..<n] w)) =
     writes8 (shadow w REG_CTEST6) (trace w) @
       map (\<lambda>k. fifo_data ((rand_step ^^ Suc k) (rand_seed w))) [0..<n] \<and>
   writes8 (shadow w REG_CTEST7) (trace (fold (fifo_push_byte c7) [0..<n] w)) =
     writes8 (shadow w REG_CTEST7) (trace w) @
       map (\<lambda>k. fifo_parity c7 ((rand_step ^^ Suc k) (rand_seed w))) [0..<n]"
proof (induction n)
  case 0
  show ?case by simp
next
  case (Suc n)
  define w' where "w' = fold (fifo_push_byte c7) [0..<n] w"
  have b: "a4091_base w' = a4091_base w" using Suc.IH by (simp add: w'_def)
  have s: "shadow w r = shadow w' r" for r
    by (rule shadow_base [symmetric]) (rule b)
  show ?case
    unfolding fold_upt_Suc
    apply (fold w'_def)
    unfolding s push_byte
    using Suc.IH
    apply (fold w'_def)
    apply (simp add: s)
    done
qed


lemma map_upt_shift: "map f [0..<a] @ map (\<lambda>k. f (a + k)) [0..<b] = map f [0..<a + b]"
  by (induction b) simp_all

lemma funpow_shift: "(f ^^ Suc k) ((f ^^ a) x) = (f ^^ Suc (a + k)) x"
proof -
  have "(f ^^ (Suc k + a)) x = (f ^^ Suc k) ((f ^^ a) x)"
    unfolding funpow_add by simp
  then show ?thesis by (simp add: add.commute)
qed

lemma push_lane:
  "rand_seed (fifo_push_lane c4 c7 lane w) = (rand_step ^^ 16) (rand_seed w) \<and>
   a4091_base (fifo_push_lane c4 c7 lane w) = a4091_base w \<and>
   writes8 (shadow w REG_CTEST6) (trace (fifo_push_lane c4 c7 lane w)) =
     writes8 (shadow w REG_CTEST6) (trace w) @
       map (\<lambda>k. fifo_data ((rand_step ^^ Suc k) (rand_seed w))) [0..<16] \<and>
   writes8 (shadow w REG_CTEST7) (trace (fifo_push_lane c4 c7 lane w)) =
     writes8 (shadow w REG_CTEST7) (trace w) @
       map (\<lambda>k. fifo_parity c7 ((rand_step ^^ Suc k) (rand_seed w))) [0..<16]"
proof -
  define w0 where "w0 = set_ncrreg8 REG_CTEST4 (fifo_lane_select c4 lane) w"
  have a: "rand_seed w0 = rand_seed w" "a4091_base w0 = a4091_base w"
    "writes8 (shadow w REG_CTEST6) (trace w0) = writes8 (shadow w REG_CTEST6) (trace w)"
    "writes8 (shadow w REG_CTEST7) (trace w0) = writes8 (shadow w REG_CTEST7) (trace w)"
    by (simp_all add: w0_def set_ncrreg8_def emit_def writes8_def shadow_def
          REG_CTEST4_def REG_CTEST6_def REG_CTEST7_def)
  have s: "shadow w0 r = shadow w r" for r
    by (rule shadow_base) (rule a(2))
  have e: "fifo_push_lane c4 c7 lane w = fold (fifo_push_byte c7) [0..<16] w0"
    by (simp add: fifo_push_lane_def NCR_FIFO_SIZE_def w0_def)
  show ?thesis
    unfolding e using push_bytes [of c7 16 w0] unfolding s a by simp
qed

lemma push_lanes:
  "rand_seed (fold (fifo_push_lane c4 c7) [0..<m] w) = (rand_step ^^ (16 * m)) (rand_seed w) \<and>
   a4091_base (fold (fifo_push_lane c4 c7) [0..<m] w) = a4091_base w \<and>
   writes8 (shadow w REG_CTEST6) (trace (fold (fifo_push_lane c4 c7) [0..<m] w)) =
     writes8 (shadow w REG_CTEST6) (trace w) @
       map (\<lambda>k. fifo_data ((rand_step ^^ Suc k) (rand_seed w))) [0..<16 * m] \<and>
   writes8 (shadow w REG_CTEST7) (trace (fold (fifo_push_lane c4 c7) [0..<m] w)) =
     writes8 (shadow w REG_CTEST7) (trace w) @
       map (\<lambda>k. fifo_parity c7 ((rand_step ^^ Suc k) (rand_seed w))) [0..<16 * m]"
proof (induction m)
  case 0
  show ?case by simp
next
  case (Suc m)
  define w' where "w' = fold (fifo_push_lane c4 c7) [0..<m] w"
  have ih: "rand_seed w' = (rand_step ^^ (16 * m)) (rand_seed w)"
    "a4091_base w' = a4091_base w"
    "writes8 (shadow w REG_CTEST6) (trace w') =
       writes8 (shadow w REG_CTEST6) (trace w) @
         map (\<lambda>k. fifo_data ((rand_step ^^ Suc k) (rand_seed w))) [0..<16 * m]"
    "writes8 (shadow w REG_CTEST7) (trace w') =
       writes8 (shadow w REG_CTEST7) (trace w) @
         map (\<lambda>k. fifo_parity c7 ((rand_step ^^ Suc k) (rand_seed w))) [0..<16 * m]"
    using Suc.IH by (simp_all add: w'_def)
  have s: "shadow w' r = shadow w r" for r
    by (rule shadow_base) (rule ih(2))
  have n: "16 * Suc m = 16 * m + 16" by simp
  have d: "map (\<lambda>k. fifo_data ((rand_step ^^ Suc k) (rand_seed w))) [0..<16 * m] @
           map (\<lambda>k. fifo_data ((rand_step ^^ Suc k) ((rand_step ^^ (16 * m)) (rand_seed w)))) [0..<16] =
           map (\<lambda>k. fifo_data ((rand_step ^^ Suc k) (rand_seed w))) [0..<16 * m + 16]"
    unfolding funpow_shift
    by (rule map_upt_shift [of "\<lambda>k. fifo_data ((rand_step ^^ Suc k) (rand_seed w))"])
  have p: "map (\<lambda>k. fifo_parity c7 ((rand_step ^^ Suc k) (rand_seed w))) [0..<16 * m] @
           map (\<lambda>k. fifo_parity c7 ((rand_step ^^ Suc k) ((rand_step ^^ (16 * m)) (rand_seed w)))) [0..<16] =
           map (\<lambda>k. fifo_parity c7 ((rand_step ^^ Suc k) (rand_seed w))) [0..<16 * m + 16]"
    unfolding funpow_shift
    by (rule map_upt_shift [of "\<lambda>k. fifo_parity c7 ((rand_step ^^ Suc k) (rand_seed w))"])
  have l: "rand_seed (fifo_push_lane c4 c7 m w') = (rand_step ^^ (16 * m + 16)) (rand_seed w)"
    using push_lane [of c4 c7 m w'] unfolding ih(1)
    by (simp only: funpow_add o_apply add.commute [of "16 * m" 16])
  show ?case
    unfolding fold_upt_Suc n
    apply (fold w'_def)
    apply (intro conjI)
       apply (rule l)
      apply (simp add: push_lane ih(2))
     apply (simp only: push_lane [of c4 c7 m w', unfolded s] ih append_assoc d)
    apply (simp only: push_lane [of c4 c7 m w', unfolded s] ih append_assoc p)
    done
qed


lemma pop_byte:
  "rand_seed (ps_world (fifo_pop_byte env lane i st)) = rand_step (rand_seed (ps_world st))"
  "a4091_base (ps_world (fifo_pop_byte env lane i st)) = a4091_base (ps_world st)"
  "writes8 a (trace (ps_world (fifo_pop_byte env lane i st))) = writes8 a (trace (ps_world st))"
  "ps_rc (fifo_pop_byte env lane i st) =
     (if fifo_popped env lane i \<noteq>
         ucast (drop_bit 8 (rand_step (rand_seed (ps_world st))) AND (BIT 9 - 1))
      then ps_rc st OR BIT lane else ps_rc st)"
  by (simp_all add: fifo_pop_byte_def rand32_eq Let_def get_ncrreg8_def emit_def writes8_def
        fifo_popped_def)

lemma pop_bytes:
  "rand_seed (ps_world (fold (fifo_pop_byte env lane) [0..<n] st)) =
     (rand_step ^^ n) (rand_seed (ps_world st)) \<and>
   a4091_base (ps_world (fold (fifo_pop_byte env lane) [0..<n] st)) = a4091_base (ps_world st) \<and>
   writes8 a (trace (ps_world (fold (fifo_pop_byte env lane) [0..<n] st))) =
     writes8 a (trace (ps_world st)) \<and>
   ps_rc (fold (fifo_pop_byte env lane) [0..<n] st) =
     (if \<exists>i<n. fifo_popped env lane i \<noteq>
           ucast (drop_bit 8 ((rand_step ^^ Suc i) (rand_seed (ps_world st))) AND (BIT 9 - 1))
      then ps_rc st OR BIT lane else ps_rc st)"
proof (induction n)
  case 0
  show ?case by simp
next
  case (Suc n)
  define st' where "st' = fold (fifo_pop_byte env lane) [0..<n] st"
  have ih: "rand_seed (ps_world st') = (rand_step ^^ n) (rand_seed (ps_world st))"
    "a4091_base (ps_world st') = a4091_base (ps_world st)"
    "writes8 a (trace (ps_world st')) = writes8 a (trace (ps_world st))"
    "ps_rc st' =
     (if \<exists>i<n. fifo_popped env lane i \<noteq>
           ucast (drop_bit 8 ((rand_step ^^ Suc i) (rand_seed (ps_world st))) AND (BIT 9 - 1))
      then ps_rc st OR BIT lane else ps_rc st)"
    using Suc.IH by (simp_all add: st'_def)
  show ?case
    unfolding fold_upt_Suc
    apply (fold st'_def)
    unfolding pop_byte ih
    apply (auto simp add: less_Suc_eq)
    done
qed


lemma pop_lane:
  "rand_seed (ps_world (fifo_pop_lane env c4 lane st)) = (rand_step ^^ 16) (rand_seed (ps_world st)) \<and>
   a4091_base (ps_world (fifo_pop_lane env c4 lane st)) = a4091_base (ps_world st) \<and>
   writes8 (shadow (ps_world st) REG_CTEST6) (trace (ps_world (fifo_pop_lane env c4 lane st))) =
     writes8 (shadow (ps_world st) REG_CTEST6) (trace (ps_world st)) \<and>
   writes8 (shadow (ps_world st) REG_CTEST7) (trace (ps_world (fifo_pop_lane env c4 lane st))) =
     writes8 (shadow (ps_world st) REG_CTEST7) (trace (ps_world st)) \<and>
   ps_rc (fifo_pop_lane env c4 lane st) =
     (if \<exists>i<16. fifo_popped env lane i \<noteq>
           ucast (drop_bit 8 ((rand_step ^^ Suc i) (rand_seed (ps_world st))) AND (BIT 9 - 1))
      then ps_rc st OR BIT lane else ps_rc st)"
proof -
  define st0 where "st0 = st\<lparr>ps_count := 0,
    ps_world := set_ncrreg8 REG_CTEST4 (fifo_lane_select c4 lane) (ps_world st)\<rparr>"
  have a: "rand_seed (ps_world st0) = rand_seed (ps_world st)"
    "a4091_base (ps_world st0) = a4091_base (ps_world st)"
    "writes8 (shadow (ps_world st) REG_CTEST6) (trace (ps_world st0)) =
       writes8 (shadow (ps_world st) REG_CTEST6) (trace (ps_world st))"
    "writes8 (shadow (ps_world st) REG_CTEST7) (trace (ps_world st0)) =
       writes8 (shadow (ps_world st) REG_CTEST7) (trace (ps_world st))"
    "ps_rc st0 = ps_rc st"
    by (simp_all add: st0_def set_ncrreg8_def emit_def writes8_def shadow_def
          REG_CTEST4_def REG_CTEST6_def REG_CTEST7_def)
  have e: "fifo_pop_lane env c4 lane st = fold (fifo_pop_byte env lane) [0..<16] st0"
    by (simp add: fifo_pop_lane_def NCR_FIFO_SIZE_def st0_def)
  show ?thesis
    unfolding e
    using pop_bytes [of env lane 16 st0 "shadow (ps_world st) REG_CTEST6"]
      pop_bytes [of env lane 16 st0 "shadow (ps_world st) REG_CTEST7"]
    unfolding a by simp
qed

lemma bit_or_BIT: "lane < 32 \<Longrightarrow> bit (x OR BIT lane) l = (bit x l \<or> l = lane)"
  by (auto simp add: BIT_def bit_simps)

lemma pop_lanes:
  assumes "m \<le> 32"
  shows
  "rand_seed (ps_world (fold (fifo_pop_lane env c4) [0..<m] st)) =
     (rand_step ^^ (16 * m)) (rand_seed (ps_world st)) \<and>
   a4091_base (ps_world (fold (fifo_pop_lane env c4) [0..<m] st)) = a4091_base (ps_world st) \<and>
   writes8 (shadow (ps_world st) REG_CTEST6) (trace (ps_world (fold (fifo_pop_lane env c4) [0..<m] st))) =
     writes8 (shadow (ps_world st) REG_CTEST6) (trace (ps_world st)) \<and>
   writes8 (shadow (ps_world st) REG_CTEST7) (trace (ps_world (fold (fifo_pop_lane env c4) [0..<m] st))) =
     writes8 (shadow (ps_world st) REG_CTEST7) (trace (ps_world st)) \<and>
   (\<forall>l. bit (ps_rc (fold (fifo_pop_lane env c4) [0..<m] st)) l =
     (bit (ps_rc st) l \<or>
      (l < m \<and> (\<exists>i<16. fifo_popped env l i \<noteq>
           ucast (drop_bit 8 ((rand_step ^^ Suc (16 * l + i)) (rand_seed (ps_world st)))
                    AND (BIT 9 - 1))))))"
  using assms
proof (induction m)
  case 0
  show ?case by simp
next
  case (Suc m)
  define st' where "st' = fold (fifo_pop_lane env c4) [0..<m] st"
  have m: "m < 32" using Suc.prems by simp
  have ih: "rand_seed (ps_world st') = (rand_step ^^ (16 * m)) (rand_seed (ps_world st))"
    "a4091_base (ps_world st') = a4091_base (ps_world st)"
    "writes8 (shadow (ps_world st) REG_CTEST6) (trace (ps_world st')) =
       writes8 (shadow (ps_world st) REG_CTEST6) (trace (ps_world st))"
    "writes8 (shadow (ps_world st) REG_CTEST7) (trace (ps_world st')) =
       writes8 (shadow (ps_world st) REG_CTEST7) (trace (ps_world st))"
    "\<And>l. bit (ps_rc st') l =
     (bit (ps_rc st) l \<or>
      (l < m \<and> (\<exists>i<16. fifo_popped env l i \<noteq>
           ucast (drop_bit 8 ((rand_step ^^ Suc (16 * l + i)) (rand_seed (ps_world st)))
                    AND (BIT 9 - 1)))))"
    using Suc.IH m by (simp_all add: st'_def)
  have s: "shadow (ps_world st') r = shadow (ps_world st) r" for r
    by (rule shadow_base) (rule ih(2))
  note step = pop_lane [of env c4 m st', unfolded s ih(1) funpow_shift]
  have n: "16 * Suc m = 16 * m + 16" by simp
  have l: "rand_seed (ps_world (fifo_pop_lane env c4 m st')) =
             (rand_step ^^ (16 * m + 16)) (rand_seed (ps_world st))"
    using pop_lane [of env c4 m st'] unfolding ih(1)
    by (simp only: funpow_add o_apply add.commute [of "16 * m" 16])
  show ?case
    unfolding fold_upt_Suc n
    apply (fold st'_def)
    apply (intro conjI allI)
        apply (rule l)
       apply (simp add: step ih(2))
      apply (simp only: step ih)
     apply (simp only: step ih)
    apply (simp only: step [THEN conjunct2, THEN conjunct2, THEN conjunct2, THEN conjunct2])
    apply (simp add: bit_or_BIT [OF m] ih(5) less_Suc_eq)
    apply blast
    done
qed


lemma nine_bits_pushed:
  "(ucast (fifo_data r) :: 16 word) OR
   push_bit 5 (ucast (fifo_parity (ucast ((ucast (c :: 8 word) :: 32 word) AND NOT (BIT 3))) r) AND 8) =
   ucast (drop_bit 8 r AND (BIT 9 - 1))"
  unfolding fifo_data_def fifo_parity_def by (rule nine_bits)

lemma and_BIT_iff: "(x AND BIT l \<noteq> 0) = bit x l"
  unfolding BIT_def by (simp add: bit_iff_and_push_bit_not_eq_0)

subsection \<open>The bus traffic of the DMA FIFO test\<close>

lemma fifo_bus_append [simp]: "fifo_bus w (xs @ ys) = fifo_bus w xs @ fifo_bus w ys"
  by (simp add: fifo_bus_def)

lemma fifo_bus_Nil [simp]: "fifo_bus w [] = []"
  by (simp add: fifo_bus_def)

lemma fifo_bus_base: "a4091_base w' = a4091_base w \<Longrightarrow> fifo_bus w' = fifo_bus w"
  by (simp add: fifo_bus_def shadow_def window_def fun_eq_iff cong: event.case_cong)

lemma fifo_ran_refl [simp]: "fifo_ran env w w []"
  by (simp add: fifo_ran_def)

lemma fifo_ran_trans:
  assumes "fifo_ran env w w' s1" and "fifo_ran env w' w'' s2"
  shows "fifo_ran env w w'' (s1 @ s2)"
proof -
  from assms(1) obtain es1 where a: "a4091_base w' = a4091_base w"
    "runtime_flags w' = runtime_flags w" "trace w' = trace w @ es1" "fifo_bus w es1 = s1"
    "list_all (\<lambda>e. is_lane_report e \<longrightarrow> truthful_report env e) es1"
    unfolding fifo_ran_def by blast
  from assms(2) obtain es2 where b: "a4091_base w'' = a4091_base w'"
    "runtime_flags w'' = runtime_flags w'" "trace w'' = trace w' @ es2" "fifo_bus w' es2 = s2"
    "list_all (\<lambda>e. is_lane_report e \<longrightarrow> truthful_report env e) es2"
    unfolding fifo_ran_def by blast
  have "trace w'' = trace w @ (es1 @ es2)" using a(3) b(3) by simp
  moreover have "fifo_bus w (es1 @ es2) = s1 @ s2"
    using a(4) b(4) fifo_bus_base [OF a(1)] by simp
  moreover have "list_all (\<lambda>e. is_lane_report e \<longrightarrow> truthful_report env e) (es1 @ es2)"
    using a(5) b(5) by simp
  ultimately show ?thesis
    unfolding fifo_ran_def using a(1,2) b(1,2) by (intro conjI exI [of _ "es1 @ es2"]) simp_all
qed

lemma fifo_ran_quiet:
  "fifo_ran env w w' s \<Longrightarrow> fifo_ran env w' w'' [] \<Longrightarrow> fifo_ran env w w'' s"
  using fifo_ran_trans [of env w w' s w'' "[]"] by simp

lemma fifo_ran_emit: "\<not> is_lane_report e \<Longrightarrow> fifo_ran env w (emit e w) (fifo_bus w [e])"
  by (simp add: fifo_ran_def emit_def)

lemma fifo_ran_print:
  "f \<noteq> ''Lane %d byte %d FIFO got %03x, expected %03x\<newline>'' \<Longrightarrow>
   fifo_ran env w (emit (Printf f args) w) []"
  using fifo_ran_emit [of "Printf f args" env w] by (simp add: is_lane_report_def fifo_bus_def)

lemma fifo_ran_get_other:
  "r \<noteq> REG_CTEST6 \<Longrightarrow> r \<noteq> REG_CTEST2 \<Longrightarrow> fifo_ran env w (get_ncrreg8 r w) []"
  using fifo_ran_emit [of "Read8 (window w r)" env w]
  by (simp add: is_lane_report_def fifo_bus_def get_ncrreg8_def window_def)

lemma fifo_ran_get_fifo:
  "r = REG_CTEST6 \<or> r = REG_CTEST2 \<Longrightarrow>
   fifo_ran env w (get_ncrreg8 r w) [Read8 (window w r)]"
  using fifo_ran_emit [of "Read8 (window w r)" env w]
  by (auto simp add: is_lane_report_def fifo_bus_def get_ncrreg8_def window_def)

lemma fifo_ran_set_other:
  "r \<noteq> REG_CTEST4 \<Longrightarrow> r \<noteq> REG_CTEST6 \<Longrightarrow> r \<noteq> REG_CTEST7 \<Longrightarrow>
   fifo_ran env w (set_ncrreg8 r v w) []"
  using fifo_ran_emit [of "Write8 (shadow w r) v" env w]
  by (simp add: is_lane_report_def fifo_bus_def set_ncrreg8_def shadow_def)

lemma fifo_ran_set_fifo:
  "r = REG_CTEST4 \<or> r = REG_CTEST6 \<or> r = REG_CTEST7 \<Longrightarrow>
   fifo_ran env w (set_ncrreg8 r v w) [Write8 (shadow w r) v]"
  using fifo_ran_emit [of "Write8 (shadow w r) v" env w]
  by (auto simp add: is_lane_report_def fifo_bus_def set_ncrreg8_def shadow_def)

lemma fifo_ran_srand: "fifo_ran env w (srand32 seed w) []"
  by (simp add: fifo_ran_def srand32_def)

lemma fifo_ran_show: "fifo_ran env w (show_test_state name st w) []"
  unfolding show_test_state_def Let_def
  by (auto intro!: fifo_ran_print fifo_ran_quiet [OF fifo_ran_print fifo_ran_print])

lemma fifo_ran_reset: "fifo_ran env w (a4091_reset w) []"
  unfolding a4091_reset_def Let_def
  by (intro fifo_ran_quiet [OF _ fifo_ran_set_other] fifo_ran_quiet [OF _ fifo_ran_get_other]
        fifo_ran_refl)
     (simp_all add: REG_DCNTL_def REG_ISTAT_def REG_SCID_def REG_DWT_def REG_CTEST4_def
        REG_CTEST6_def REG_CTEST7_def REG_CTEST2_def)


lemma fifo_random_0: "fifo_random 0 = 19700119"
  by (simp add: fifo_random_def)

lemma fifo_random_funpow: "(rand_step ^^ n) (fifo_random k) = fifo_random (k + n)"
proof -
  have "(rand_step ^^ (n + k)) 19700119 = (rand_step ^^ n) ((rand_step ^^ k) 19700119)"
    unfolding funpow_add by simp
  then show ?thesis by (simp add: fifo_random_def add.commute)
qed

lemma fifo_random_Suc: "rand_step (fifo_random k) = fifo_random (Suc k)"
  by (simp add: fifo_random_def)

lemma push_byte_ran:
  "fifo_ran env w (fifo_push_byte c7 i w)
     [Write8 (shadow w REG_CTEST7) (fifo_parity c7 (rand_step (rand_seed w))),
      Write8 (shadow w REG_CTEST6) (fifo_data (rand_step (rand_seed w)))]"
  by (simp add: fifo_ran_def fifo_push_byte_def rand32_eq Let_def set_ncrreg8_def emit_def
      debug_on_def fifo_bus_def shadow_def is_lane_report_def fifo_data_def fifo_parity_def)

lemma push_bytes_ran:
  assumes "rand_seed w = fifo_random k0"
  shows "fifo_ran env w (fold (fifo_push_byte c7) [0..<n] w)
     (concat (map (\<lambda>k.
        [Write8 (shadow w REG_CTEST7) (fifo_parity c7 (fifo_random (Suc (k0 + k)))),
         Write8 (shadow w REG_CTEST6) (fifo_data (fifo_random (Suc (k0 + k))))]) [0..<n]))"
proof (induction n)
  case 0
  show ?case by simp
next
  case (Suc n)
  define w' where "w' = fold (fifo_push_byte c7) [0..<n] w"
  have r: "rand_seed w' = fifo_random (k0 + n)" and b: "a4091_base w' = a4091_base w"
    using push_bytes [of c7 n w] by (simp_all add: w'_def assms fifo_random_funpow)
  have s: "shadow w' r = shadow w r" for r
    by (rule shadow_base) (rule b)
  from fifo_ran_trans [OF Suc.IH [folded w'_def] push_byte_ran [of env w' c7 n]]
  show ?case
    unfolding fold_upt_Suc
    apply (fold w'_def)
    apply (simp add: s r fifo_random_Suc)
    done
qed

lemma push_lane_ran:
  assumes "rand_seed w = fifo_random (16 * lane)"
  shows "fifo_ran env w (fifo_push_lane c4 c7 lane w)
     (Write8 (shadow w REG_CTEST4) (fifo_lane_select c4 lane) #
      concat (map (\<lambda>k.
        [Write8 (shadow w REG_CTEST7) (fifo_parity c7 (fifo_random (Suc (16 * lane + k)))),
         Write8 (shadow w REG_CTEST6) (fifo_data (fifo_random (Suc (16 * lane + k))))]) [0..<16]))"
proof -
  define w0 where "w0 = set_ncrreg8 REG_CTEST4 (fifo_lane_select c4 lane) w"
  have a: "rand_seed w0 = fifo_random (16 * lane)" "a4091_base w0 = a4091_base w"
    by (simp_all add: w0_def set_ncrreg8_def emit_def assms)
  have s: "shadow w0 r = shadow w r" for r
    by (rule shadow_base) (rule a(2))
  have e: "fifo_push_lane c4 c7 lane w = fold (fifo_push_byte c7) [0..<16] w0"
    by (simp add: fifo_push_lane_def NCR_FIFO_SIZE_def w0_def)
  have f: "fifo_ran env w w0 [Write8 (shadow w REG_CTEST4) (fifo_lane_select c4 lane)]"
    unfolding w0_def by (rule fifo_ran_set_fifo) simp
  from fifo_ran_trans [OF f push_bytes_ran [OF a(1), of env c7 16]]
  show ?thesis unfolding e s by simp
qed

lemma push_script_Suc:
  "fifo_push_script w c4 c7 (Suc m) =
     fifo_push_script w c4 c7 m @
     (Write8 (shadow w REG_CTEST4) (fifo_lane_select c4 m) #
      concat (map (\<lambda>k.
        [Write8 (shadow w REG_CTEST7) (fifo_parity c7 (fifo_random (Suc (16 * m + k)))),
         Write8 (shadow w REG_CTEST6) (fifo_data (fifo_random (Suc (16 * m + k))))]) [0..<16]))"
  by (simp add: fifo_push_script_def NCR_FIFO_SIZE_def)

lemma push_lanes_ran:
  assumes "rand_seed w = fifo_random 0"
  shows "fifo_ran env w (fold (fifo_push_lane c4 c7) [0..<m] w) (fifo_push_script w c4 c7 m)"
proof (induction m)
  case 0
  show ?case by (simp add: fifo_push_script_def)
next
  case (Suc m)
  define w' where "w' = fold (fifo_push_lane c4 c7) [0..<m] w"
  have r: "rand_seed w' = fifo_random (16 * m)" and b: "a4091_base w' = a4091_base w"
    using push_lanes [of c4 c7 m w] by (simp_all add: w'_def assms fifo_random_funpow)
  have s: "shadow w' r = shadow w r" for r
    by (rule shadow_base) (rule b)
  from fifo_ran_trans [OF Suc.IH [folded w'_def] push_lane_ran [OF r, of env c4 c7]]
  show ?case
    unfolding fold_upt_Suc push_script_Suc
    apply (fold w'_def)
    apply (simp only: s)
    done
qed


lemma pop_byte_ran:
  assumes seed: "rand_seed (ps_world st) = fifo_random (16 * lane + i)"
    and lane: "lane < 4" and i: "i < 16"
  shows "fifo_ran env (ps_world st) (ps_world (fifo_pop_byte env lane i st))
     [Read8 (window (ps_world st) REG_CTEST6), Read8 (window (ps_world st) REG_CTEST2)]"
proof -
  have e: "ucast (drop_bit 8 (rand_step (rand_seed (ps_world st))) AND (BIT 9 - 1)) =
           fifo_expected lane i"
    by (simp add: seed fifo_random_Suc fifo_expected_def NCR_FIFO_SIZE_def)
  have tr: "truthful_report env
      (Printf ''Lane %d byte %d FIFO got %03x, expected %03x\<newline>''
         [PInt (int lane), PInt (int i), PInt (uint (fifo_popped env lane i)),
          PInt (uint (fifo_expected lane i))])"
    if "fifo_popped env lane i \<noteq> fifo_expected lane i"
    unfolding truthful_report_def lane_report_def NCR_FIFO_SIZE_def
    using lane i that by blast
  show ?thesis
    unfolding fifo_pop_byte_def rand32_eq Let_def fst_conv snd_conv
    unfolding fifo_popped_def [symmetric] e
    by (simp add: fifo_ran_def get_ncrreg8_def emit_def fifo_bus_def window_def
        is_lane_report_def tr)
qed

lemma pop_bytes_ran:
  assumes seed: "rand_seed (ps_world st) = fifo_random (16 * lane)" and lane: "lane < 4"
  shows "n \<le> 16 \<Longrightarrow>
     fifo_ran env (ps_world st) (ps_world (fold (fifo_pop_byte env lane) [0..<n] st))
       (concat (map (\<lambda>k. [Read8 (window (ps_world st) REG_CTEST6),
                           Read8 (window (ps_world st) REG_CTEST2)]) [0..<n]))"
proof (induction n)
  case 0
  show ?case by simp
next
  case (Suc n)
  define st' where "st' = fold (fifo_pop_byte env lane) [0..<n] st"
  have r: "rand_seed (ps_world st') = fifo_random (16 * lane + n)"
    and b: "a4091_base (ps_world st') = a4091_base (ps_world st)"
    using pop_bytes [of env lane n st] by (simp_all add: st'_def seed fifo_random_funpow)
  have s: "window (ps_world st') r = window (ps_world st) r" for r
    by (simp add: window_def b)
  from Suc.prems have n: "n < 16" "n \<le> 16" by simp_all
  from fifo_ran_trans [OF Suc.IH [OF n(2), folded st'_def] pop_byte_ran [OF r lane n(1), of env]]
  show ?case
    unfolding fold_upt_Suc
    apply (fold st'_def)
    apply (simp add: s)
    done
qed

lemma pop_lane_ran:
  assumes seed: "rand_seed (ps_world st) = fifo_random (16 * lane)" and lane: "lane < 4"
  shows "fifo_ran env (ps_world st) (ps_world (fifo_pop_lane env c4 lane st))
     (Write8 (shadow (ps_world st) REG_CTEST4) (fifo_lane_select c4 lane) #
      concat (map (\<lambda>k. [Read8 (window (ps_world st) REG_CTEST6),
                          Read8 (window (ps_world st) REG_CTEST2)]) [0..<16]))"
proof -
  define st0 where "st0 = st\<lparr>ps_count := 0,
    ps_world := set_ncrreg8 REG_CTEST4 (fifo_lane_select c4 lane) (ps_world st)\<rparr>"
  have a: "rand_seed (ps_world st0) = fifo_random (16 * lane)"
    "a4091_base (ps_world st0) = a4091_base (ps_world st)"
    by (simp_all add: st0_def set_ncrreg8_def emit_def seed)
  have s: "window (ps_world st0) r = window (ps_world st) r" for r
    by (simp add: window_def a(2))
  have e: "fifo_pop_lane env c4 lane st = fold (fifo_pop_byte env lane) [0..<16] st0"
    by (simp add: fifo_pop_lane_def NCR_FIFO_SIZE_def st0_def)
  have f: "fifo_ran env (ps_world st) (ps_world st0)
      [Write8 (shadow (ps_world st) REG_CTEST4) (fifo_lane_select c4 lane)]"
    unfolding st0_def using fifo_ran_set_fifo [of REG_CTEST4 env "ps_world st"] by simp
  from fifo_ran_trans [OF f pop_bytes_ran [OF a(1) lane, of 16 env]]
  show ?thesis unfolding e s by simp
qed

lemma pop_script_Suc:
  "fifo_pop_script w c4 (Suc m) =
     fifo_pop_script w c4 m @
     (Write8 (shadow w REG_CTEST4) (fifo_lane_select c4 m) #
      concat (map (\<lambda>k. [Read8 (window w REG_CTEST6), Read8 (window w REG_CTEST2)]) [0..<16]))"
  by (simp add: fifo_pop_script_def NCR_FIFO_SIZE_def)

lemma pop_lanes_ran:
  assumes seed: "rand_seed (ps_world st) = fifo_random 0"
  shows "m \<le> 4 \<Longrightarrow>
     fifo_ran env (ps_world st) (ps_world (fold (fifo_pop_lane env c4) [0..<m] st))
       (fifo_pop_script (ps_world st) c4 m)"
proof (induction m)
  case 0
  show ?case by (simp add: fifo_pop_script_def)
next
  case (Suc m)
  define st' where "st' = fold (fifo_pop_lane env c4) [0..<m] st"
  from Suc.prems have m: "m < 4" "m \<le> 4" "m \<le> 32" by simp_all
  have r: "rand_seed (ps_world st') = fifo_random (16 * m)"
    and b: "a4091_base (ps_world st') = a4091_base (ps_world st)"
    using pop_lanes [OF m(3), of env c4 st] by (simp_all add: st'_def seed fifo_random_funpow)
  have s: "window (ps_world st') r = window (ps_world st) r"
    "shadow (ps_world st') r = shadow (ps_world st) r" for r
    by (simp_all add: window_def shadow_def b)
  from fifo_ran_trans [OF Suc.IH [OF m(2), folded st'_def] pop_lane_ran [OF r m(1), of env c4]]
  show ?case
    unfolding fold_upt_Suc pop_script_Suc
    apply (fold st'_def)
    apply (simp only: s)
    done
qed


lemma fifo_ran_base: "fifo_ran env w w' s \<Longrightarrow> a4091_base w' = a4091_base w"
  by (simp add: fifo_ran_def)

lemma fifo_ran_flags: "fifo_ran env w w' s \<Longrightarrow> runtime_flags w' = runtime_flags w"
  by (simp add: fifo_ran_def)

lemma script_base:
  assumes "a4091_base w' = a4091_base w"
  shows "fifo_pop_script w' = fifo_pop_script w" and "fifo_push_script w' = fifo_push_script w"
    and "shadow w' = shadow w" and "window w' = window w"
  using assms
  by (simp_all add: fifo_pop_script_def fifo_push_script_def shadow_def window_def fun_eq_iff)

lemma fail_ran:
  "fifo_ran env w (snd (fifo_fail c4 rc w))
     [Write8 (shadow w REG_CTEST4) (ucast ((ucast c4 :: uint32_t) AND NOT 7))] \<and>
   fst (fifo_fail c4 rc w) = rc"
proof -
  define w1 where "w1 = set_ncrreg8 REG_CTEST4 (ucast ((ucast c4 :: uint32_t) AND NOT 7)) w"
  have f1: "fifo_ran env w w1 [Write8 (shadow w REG_CTEST4) (ucast ((ucast c4 :: uint32_t) AND NOT 7))]"
    unfolding w1_def by (rule fifo_ran_set_fifo) simp
  have e: "fifo_fail c4 rc w = (rc, show_test_state ''DMA FIFO test:'' rc w1)"
    by (simp add: fifo_fail_def Let_def w1_def)
  show ?thesis
    unfolding e using fifo_ran_quiet [OF f1 fifo_ran_show] by simp
qed

lemma pop_phase_ran:
  "fifo_ran env w (snd (fifo_pop_phase env c4 rc w))
     (fifo_pop_script w c4 4 @
      [Write8 (shadow w REG_CTEST4) (ucast ((ucast c4 :: uint32_t) AND NOT 7))]) \<and>
   (ff_ctest1_end env \<noteq> 0xf0 \<longrightarrow> fst (fifo_pop_phase env c4 rc w) = 0xff) \<and>
   (ff_ctest1_end env = 0xf0 \<longrightarrow>
      (\<forall>l. bit (fst (fifo_pop_phase env c4 rc w)) l =
         (bit rc l \<or> l < 4 \<and> (\<exists>i<16. fifo_popped env l i \<noteq> fifo_expected l i))))"
proof -
  define w1 where "w1 = srand32 19700119 w"
  define st0 where "st0 = \<lparr>ps_rc = rc, ps_count = 0, ps_world = w1\<rparr>"
  define st where "st = fold (fifo_pop_lane env c4) [0..<4] st0"
  define w2 where "w2 = get_ncrreg8 REG_CTEST1 (ps_world st)"
  define w3 where "w3 = (if ff_ctest1_end env \<noteq> 0xf0 then
       emit (Printf
         ''\<newline>DMA FIFO not empty after test: CTEST1 should be 0xf0, but is 0x%02x\<newline>''
         [PInt (uint (ff_ctest1_end env))]) w2 else w2)"
  define rc' where "rc' = (if ff_ctest1_end env \<noteq> 0xf0 then 0xff else ps_rc st)"
  have e: "fifo_pop_phase env c4 rc w = fifo_fail c4 rc' w3"
    unfolding fifo_pop_phase_def Let_def
    apply (fold w1_def)
    apply (fold st0_def)
    apply (fold st_def)
    apply (fold w2_def)
    apply (fold w3_def)
    apply (fold rc'_def)
    apply (rule refl)
    done
  have z: "ps_world st0 = w1" "ps_rc st0 = rc" by (simp_all add: st0_def)
  have sd: "rand_seed w1 = fifo_random 0" by (simp add: w1_def srand32_def fifo_random_0)
  have f1: "fifo_ran env w w1 []" unfolding w1_def by (rule fifo_ran_srand)
  have b1: "a4091_base w1 = a4091_base w" by (rule fifo_ran_base [OF f1])
  have "(4 :: nat) \<le> 4" by simp
  from pop_lanes_ran [of st0 4 env c4, unfolded z, OF sd this, folded st_def]
  have f2: "fifo_ran env w1 (ps_world st) (fifo_pop_script w c4 4)"
    unfolding script_base [OF b1] .
  have f3: "fifo_ran env (ps_world st) w3 []"
    unfolding w3_def w2_def
    by (auto intro!: fifo_ran_quiet [OF fifo_ran_get_other fifo_ran_print] fifo_ran_get_other
        simp add: REG_CTEST1_def REG_CTEST6_def REG_CTEST2_def)
  have f13: "fifo_ran env w w3 (fifo_pop_script w c4 4)"
    using fifo_ran_trans [OF fifo_ran_trans [OF f1 f2] f3] by simp
  have b3: "a4091_base w3 = a4091_base w" by (rule fifo_ran_base [OF f13])
  from fail_ran [of env w3 c4 rc']
  have f4: "fifo_ran env w3 (snd (fifo_fail c4 rc' w3))
     [Write8 (shadow w REG_CTEST4) (ucast ((ucast c4 :: uint32_t) AND NOT 7))]"
    and r4: "fst (fifo_fail c4 rc' w3) = rc'"
    unfolding script_base [OF b3] by simp_all
  have "(4 :: nat) \<le> 32" by simp
  from pop_lanes [OF this, of env c4 st0, folded st_def, unfolded z]
  have bits: "bit (ps_rc st) l =
     (bit rc l \<or> l < 4 \<and> (\<exists>i<16. fifo_popped env l i \<noteq>
           ucast (drop_bit 8 ((rand_step ^^ Suc (16 * l + i)) (rand_seed w1)) AND (BIT 9 - 1))))"
    for l by blast
  have x: "ucast (drop_bit 8 ((rand_step ^^ Suc (16 * l + i)) (rand_seed w1)) AND (BIT 9 - 1)) =
      fifo_expected l i" for l i
    unfolding sd fifo_random_funpow by (simp add: fifo_expected_def NCR_FIFO_SIZE_def)
  have bits': "bit (ps_rc st) l =
     (bit rc l \<or> l < 4 \<and> (\<exists>i<16. fifo_popped env l i \<noteq> fifo_expected l i))" for l
    using bits [of l] unfolding x .
  show ?thesis
    unfolding e r4
    apply (intro conjI)
      apply (rule fifo_ran_trans [OF f13 f4])
     apply (simp add: rc'_def)
    apply (simp add: rc'_def bits')
    done
qed


lemma push_phase_ran:
  fixes env w rc1
  defines "c4 \<equiv> ff_ctest4 env"
    and "c7 \<equiv> (ucast ((ucast (ff_ctest7 env) :: uint32_t) AND NOT (BIT 3)) :: uint8_t)"
    and "dfe \<equiv> (ucast (ff_dstat_full env) AND REG_DSTAT_DFE) \<noteq> (0 :: uint32_t)"
    and "not_full \<equiv> ff_ctest1_full env \<noteq> 0x0f"
    and "quiet \<equiv> runtime_flags w AND FLAG_MORE_DEBUG = 0"
  shows "(dfe \<and> quiet \<longrightarrow>
           fst (fifo_push_phase env rc1 w) = 0x0f \<and>
           fifo_ran env w (snd (fifo_push_phase env rc1 w)) (fifo_push_script w c4 c7 4)) \<and>
         (\<not> (dfe \<and> quiet) \<and> not_full \<and> quiet \<longrightarrow>
           fst (fifo_push_phase env rc1 w) = 0xff \<and>
           fifo_ran env w (snd (fifo_push_phase env rc1 w))
             (fifo_push_script w c4 c7 4 @
              [Write8 (shadow w REG_CTEST4) (ucast ((ucast c4 :: uint32_t) AND NOT 7))])) \<and>
         (\<not> (dfe \<and> quiet) \<and> \<not> (not_full \<and> quiet) \<longrightarrow>
           (\<exists>w'. fifo_ran env w w' (fifo_push_script w c4 c7 4) \<and>
              fifo_push_phase env rc1 w =
                fifo_pop_phase env c4
                  (if not_full then 0xff else if dfe then rc1 + 1 else rc1) w'))"
proof -
  define w1 where "w1 = srand32 19700119 (get_ncrreg8 REG_CTEST7 (get_ncrreg8 REG_CTEST4 w))"
  define w2 where "w2 = fold (fifo_push_lane c4 c7) [0..<4] w1"
  define w3 where "w3 = get_ncrreg8 REG_DSTAT w2"
  define w4 where "w4 = (if dfe \<and> rc1 = 0 then emit (Printf ''\<newline>'' []) w3 else w3)"
  define w5 where "w5 = (if dfe then
       emit (Printf ''DMA FIFO is empty: DSTAT DFE not 1\<newline>'' []) w4 else w4)"
  define rc2 where "rc2 = (if dfe then rc1 + 1 else rc1)"
  define w6 where "w6 = get_ncrreg8 REG_CTEST1 w5"
  define w7 where "w7 = (if not_full then
       emit (Printf ''DMA FIFO not full: CTEST1 should be 0x0f, but is 0x%02x\<newline>''
         [PInt (uint (ff_ctest1_full env))]) w6 else w6)"
  define rc3 where "rc3 = (if not_full then 0xff else rc2)"
  have e: "fifo_push_phase env rc1 w =
      (if dfe \<and> runtime_flags w5 AND FLAG_MORE_DEBUG = 0 then (0x0f, w5)
       else if not_full \<and> runtime_flags w7 AND FLAG_MORE_DEBUG = 0 then fifo_fail c4 rc3 w7
       else fifo_pop_phase env c4 rc3 w7)"
    unfolding fifo_push_phase_def Let_def
    apply (fold c4_def)
    apply (fold c7_def)
    apply (fold dfe_def)
    apply (fold not_full_def)
    apply (fold w1_def)
    apply (fold w2_def)
    apply (fold w3_def)
    apply (fold w4_def)
    apply (fold w5_def)
    apply (fold rc2_def)
    apply (fold w6_def)
    apply (fold w7_def)
    apply (fold rc3_def)
    apply (rule refl)
    done
  have f1: "fifo_ran env w w1 []"
    unfolding w1_def
    by (intro fifo_ran_quiet [OF _ fifo_ran_srand] fifo_ran_quiet [OF _ fifo_ran_get_other]
          fifo_ran_get_other)
       (simp_all add: REG_CTEST4_def REG_CTEST7_def REG_CTEST6_def REG_CTEST2_def)
  have b1: "a4091_base w1 = a4091_base w" by (rule fifo_ran_base [OF f1])
  have sd: "rand_seed w1 = fifo_random 0" by (simp add: w1_def srand32_def fifo_random_0)
  from push_lanes_ran [OF sd, of env c4 c7 4, folded w2_def]
  have f2: "fifo_ran env w1 w2 (fifo_push_script w c4 c7 4)"
    unfolding script_base [OF b1] .
  have f5: "fifo_ran env w2 w5 []"
    unfolding w5_def w4_def w3_def
    by (auto intro!: fifo_ran_quiet [OF _ fifo_ran_print] fifo_ran_get_other
        simp add: REG_DSTAT_def REG_CTEST6_def REG_CTEST2_def)
  have f15: "fifo_ran env w w5 (fifo_push_script w c4 c7 4)"
    using fifo_ran_trans [OF fifo_ran_trans [OF f1 f2] f5] by simp
  have f7: "fifo_ran env w5 w7 []"
    unfolding w7_def w6_def
    by (auto intro!: fifo_ran_quiet [OF _ fifo_ran_print] fifo_ran_get_other
        simp add: REG_CTEST1_def REG_CTEST6_def REG_CTEST2_def)
  have f17: "fifo_ran env w w7 (fifo_push_script w c4 c7 4)"
    using fifo_ran_trans [OF f15 f7] by simp
  have g5: "runtime_flags w5 = runtime_flags w" by (rule fifo_ran_flags [OF f15])
  have g7: "runtime_flags w7 = runtime_flags w" by (rule fifo_ran_flags [OF f17])
  have b7: "a4091_base w7 = a4091_base w" by (rule fifo_ran_base [OF f17])
  from fail_ran [of env w7 c4 rc3]
  have ff: "fifo_ran env w7 (snd (fifo_fail c4 rc3 w7))
     [Write8 (shadow w REG_CTEST4) (ucast ((ucast c4 :: uint32_t) AND NOT 7))]"
    and rf: "fst (fifo_fail c4 rc3 w7) = rc3"
    unfolding script_base [OF b7] by simp_all
  have a: "dfe \<and> quiet \<longrightarrow>
           fst (fifo_push_phase env rc1 w) = 0x0f \<and>
           fifo_ran env w (snd (fifo_push_phase env rc1 w)) (fifo_push_script w c4 c7 4)"
    unfolding e g5 g7 quiet_def using f15 by simp
  have b: "\<not> (dfe \<and> quiet) \<and> not_full \<and> quiet \<longrightarrow>
           fst (fifo_push_phase env rc1 w) = 0xff \<and>
           fifo_ran env w (snd (fifo_push_phase env rc1 w))
             (fifo_push_script w c4 c7 4 @
              [Write8 (shadow w REG_CTEST4) (ucast ((ucast c4 :: uint32_t) AND NOT 7))])"
    unfolding e g5 g7 quiet_def using fifo_ran_trans [OF f17 ff] rf
    by (auto simp add: rc3_def)
  have c: "\<not> (dfe \<and> quiet) \<and> \<not> (not_full \<and> quiet) \<longrightarrow>
           (\<exists>w'. fifo_ran env w w' (fifo_push_script w c4 c7 4) \<and>
              fifo_push_phase env rc1 w =
                fifo_pop_phase env c4
                  (if not_full then 0xff else if dfe then rc1 + 1 else rc1) w')"
    unfolding e g5 g7 quiet_def using f17
    by (auto simp add: rc3_def rc2_def)
  from a b c show ?thesis by blast
qed


lemma entry_ran:
  fixes env w
  defines "not_empty \<equiv> (ucast (ff_dstat_start env) AND REG_DSTAT_DFE) = (0 :: uint32_t)"
  shows "(fifo_pushes env w \<longrightarrow>
           (\<exists>w'. fifo_ran env w w' [] \<and>
              test_dma_fifo env w = fifo_push_phase env (if not_empty then 1 else 0) w')) \<and>
         (\<not> fifo_pushes env w \<longrightarrow> fifo_ran env w (snd (test_dma_fifo env w)) [])"
proof -
  define w1 where "w1 = get_ncrreg8 REG_CTEST1
      (a4091_reset (show_test_state ''DMA FIFO test:'' (- 1) w))"
  define w2 where "w2 = (if ff_ctest1_start env \<noteq> 0xf0 then
       emit (Printf
         ''DMA FIFO not empty before test: CTEST1 should be 0xf0, but is 0x%02x\<newline>''
         [PInt (uint (ff_ctest1_start env))]) w1 else w1)"
  define w3 where "w3 = get_ncrreg8 REG_DSTAT w2"
  define w4 where "w4 = (if not_empty then emit (Printf ''\<newline>'' []) w3 else w3)"
  define w5 where "w5 = (if not_empty then
       emit (Printf ''DMA FIFO not empty: DSTAT DFE not 1\<newline>'' []) w4 else w4)"
  have e: "test_dma_fifo env w =
      (if is_running_in_uae (ff_servers env) \<noteq> 0 then (0, w)
       else if ff_ctest1_start env \<noteq> 0xf0 \<and> runtime_flags w2 AND FLAG_MORE_DEBUG = 0
            then (0x0f, w2)
       else if not_empty \<and> runtime_flags w5 AND FLAG_MORE_DEBUG = 0 then (0x0f, w5)
       else fifo_push_phase env (if not_empty then 1 else 0) w5)"
    unfolding test_dma_fifo_def Let_def
    apply (fold not_empty_def)
    apply (fold w1_def)
    apply (fold w2_def)
    apply (fold w3_def)
    apply (simp add: w5_def w4_def)
    done
  have f2: "fifo_ran env w w2 []"
    unfolding w2_def w1_def
    by (auto intro!: fifo_ran_quiet [OF _ fifo_ran_print] fifo_ran_quiet [OF _ fifo_ran_get_other]
          fifo_ran_quiet [OF fifo_ran_show fifo_ran_reset]
        simp add: REG_CTEST1_def REG_CTEST6_def REG_CTEST2_def)
  have f25: "fifo_ran env w2 w5 []"
    unfolding w5_def w4_def w3_def
    by (auto intro!: fifo_ran_quiet [OF _ fifo_ran_print] fifo_ran_get_other
        simp add: REG_DSTAT_def REG_CTEST6_def REG_CTEST2_def)
  have f5: "fifo_ran env w w5 []" by (rule fifo_ran_quiet [OF f2 f25])
  have g2: "runtime_flags w2 = runtime_flags w" by (rule fifo_ran_flags [OF f2])
  have g5: "runtime_flags w5 = runtime_flags w" by (rule fifo_ran_flags [OF f5])
  have a: "fifo_pushes env w \<longrightarrow>
           (\<exists>w'. fifo_ran env w w' [] \<and>
              test_dma_fifo env w = fifo_push_phase env (if not_empty then 1 else 0) w')"
    unfolding e g2 g5 fifo_pushes_def using f5
    by (auto simp add: not_empty_def)
  have b: "\<not> fifo_pushes env w \<longrightarrow> fifo_ran env w (snd (test_dma_fifo env w)) []"
    unfolding e g2 g5 fifo_pushes_def using f2 f5
    by (auto simp add: not_empty_def)
  from a b show ?thesis by blast
qed

lemma writes8_first:
  "writes8 a (e # es) =
     (case e of Write8 a' v \<Rightarrow> (if a' = a then [v] else []) | _ \<Rightarrow> []) @ writes8 a es"
  by (simp add: writes8_def)

lemma writes8_concat: "writes8 a (concat xss) = concat (map (writes8 a) xss)"
  by (induction xss) simp_all

lemma writes8_fifo_bus:
  assumes "a = shadow w REG_CTEST4 \<or> a = shadow w REG_CTEST6 \<or> a = shadow w REG_CTEST7"
  shows "writes8 a (fifo_bus w es) = writes8 a es"
proof (induction es)
  case Nil
  show ?case by simp
next
  case (Cons e es)
  have "writes8 a (fifo_bus w [e]) = writes8 a [e]"
    using assms by (cases e) (auto simp add: fifo_bus_def writes8_def)
  with Cons.IH show ?case
    using fifo_bus_append [of w "[e]" es] writes8_append [of a "[e]" es] by simp
qed

lemma fifo_distinct:
  "shadow w REG_CTEST6 \<noteq> shadow w REG_CTEST7" "shadow w REG_CTEST6 \<noteq> shadow w REG_CTEST4"
  "shadow w REG_CTEST7 \<noteq> shadow w REG_CTEST4"
  by (simp_all add: shadow_def REG_CTEST4_def REG_CTEST6_def REG_CTEST7_def)

lemma writes8_push_script:
  "writes8 (shadow w REG_CTEST6) (fifo_push_script w c4 c7 m) =
     map (\<lambda>k. fifo_data (fifo_random (Suc k))) [0..<16 * m]"
  "writes8 (shadow w REG_CTEST7) (fifo_push_script w c4 c7 m) =
     map (\<lambda>k. fifo_parity c7 (fifo_random (Suc k))) [0..<16 * m]"
proof (induction m)
  case 0
  show "writes8 (shadow w REG_CTEST6) (fifo_push_script w c4 c7 0) =
     map (\<lambda>k. fifo_data (fifo_random (Suc k))) [0..<16 * 0]"
    and "writes8 (shadow w REG_CTEST7) (fifo_push_script w c4 c7 0) =
     map (\<lambda>k. fifo_parity c7 (fifo_random (Suc k))) [0..<16 * 0]"
    by (simp_all add: fifo_push_script_def)
next
  case (Suc m)
  have n: "16 * Suc m = 16 * m + 16" by simp
  have six: "writes8 (shadow w REG_CTEST6)
      (Write8 (shadow w REG_CTEST4) (fifo_lane_select c4 m) #
       concat (map (\<lambda>k.
        [Write8 (shadow w REG_CTEST7) (fifo_parity c7 (fifo_random (Suc (16 * m + k)))),
         Write8 (shadow w REG_CTEST6) (fifo_data (fifo_random (Suc (16 * m + k))))]) [0..<16])) =
      map (\<lambda>k. fifo_data (fifo_random (Suc (16 * m + k)))) [0..<16]"
    using fifo_distinct [of w]
    unfolding writes8_first writes8_concat
    by (simp add: writes8_def o_def concat_map_single del: upt_rec_numeral upt_Suc)
  have seven: "writes8 (shadow w REG_CTEST7)
      (Write8 (shadow w REG_CTEST4) (fifo_lane_select c4 m) #
       concat (map (\<lambda>k.
        [Write8 (shadow w REG_CTEST7) (fifo_parity c7 (fifo_random (Suc (16 * m + k)))),
         Write8 (shadow w REG_CTEST6) (fifo_data (fifo_random (Suc (16 * m + k))))]) [0..<16])) =
      map (\<lambda>k. fifo_parity c7 (fifo_random (Suc (16 * m + k)))) [0..<16]"
    using fifo_distinct [of w]
    unfolding writes8_first writes8_concat
    by (simp add: writes8_def o_def concat_map_single del: upt_rec_numeral upt_Suc)
  show "writes8 (shadow w REG_CTEST6) (fifo_push_script w c4 c7 (Suc m)) =
     map (\<lambda>k. fifo_data (fifo_random (Suc k))) [0..<16 * Suc m]"
    unfolding push_script_Suc writes8_append Suc.IH six n
    by (rule map_upt_shift [of "\<lambda>k. fifo_data (fifo_random (Suc k))"])
  show "writes8 (shadow w REG_CTEST7) (fifo_push_script w c4 c7 (Suc m)) =
     map (\<lambda>k. fifo_parity c7 (fifo_random (Suc k))) [0..<16 * Suc m]"
    unfolding push_script_Suc writes8_append Suc.IH seven n
    by (rule map_upt_shift [of "\<lambda>k. fifo_parity c7 (fifo_random (Suc k))"])
qed

lemma writes8_pop_script:
  "writes8 (shadow w REG_CTEST6) (fifo_pop_script w c4 m) = []"
  "writes8 (shadow w REG_CTEST7) (fifo_pop_script w c4 m) = []"
  using fifo_distinct [of w]
  unfolding fifo_pop_script_def writes8_concat
  by (simp_all add: writes8_def o_def del: upt_rec_numeral upt_Suc)


lemma lane_select_gen:
  fixes x y :: "32 word"
  assumes "k = 2"
  shows "(ucast ((x AND NOT (mask k)) OR push_bit k 1 OR take_bit k y) :: 8 word) AND mask (Suc k) =
         push_bit k 1 OR take_bit k (ucast y)"
proof (rule bit_word_eqI)
  fix n :: nat
  assume "n < LENGTH(8)"
  then have n: "n < 8" by simp
  show "bit ((ucast ((x AND NOT (mask k)) OR push_bit k 1 OR take_bit k y) :: 8 word)
              AND mask (Suc k)) n =
        bit (push_bit k 1 OR take_bit k (ucast y) :: 8 word) n"
    apply (simp add: bit_simps)
    using n assms apply auto
    done
qed


lemma lane_select_bits:
  assumes "lane < 4"
  shows "fifo_lane_select c4 lane AND 7 = of_nat (4 + lane)"
proof -
  from assms consider "lane = 0" | "lane = 1" | "lane = 2" | "lane = 3" by linarith
  then show ?thesis
  proof cases
    case 1
    show ?thesis unfolding 1
      using lane_select_gen [OF refl, of "ucast c4" 0]
      by (simp add: fifo_lane_select_def REG_CTEST4_FBL2_def BIT_def mask_eq_exp_minus_1)
  next
    case 2
    show ?thesis unfolding 2
      using lane_select_gen [OF refl, of "ucast c4" 1]
      by (simp add: fifo_lane_select_def REG_CTEST4_FBL2_def BIT_def mask_eq_exp_minus_1)
  next
    case 3
    show ?thesis unfolding 3
      using lane_select_gen [OF refl, of "ucast c4" 2]
      by (simp add: fifo_lane_select_def REG_CTEST4_FBL2_def BIT_def mask_eq_exp_minus_1)
  next
    case 4
    show ?thesis unfolding 4
      using lane_select_gen [OF refl, of "ucast c4" 3]
      by (simp add: fifo_lane_select_def REG_CTEST4_FBL2_def BIT_def mask_eq_exp_minus_1)
  qed
qed


lemma fifo_run:
  fixes env w
  defines "c4 \<equiv> ff_ctest4 env"
    and "c7 \<equiv> (ucast ((ucast (ff_ctest7 env) :: uint32_t) AND NOT (BIT 3)) :: uint8_t)"
    and "restore \<equiv> Write8 (shadow w REG_CTEST4) (ucast ((ucast (ff_ctest4 env) :: uint32_t) AND NOT 7))"
  shows "(fifo_pushes env w \<and> \<not> fifo_pops env w \<longrightarrow>
           fifo_ran env w (snd (test_dma_fifo env w)) (fifo_push_script w c4 c7 4) \<or>
           fifo_ran env w (snd (test_dma_fifo env w)) (fifo_push_script w c4 c7 4 @ [restore])) \<and>
         (fifo_pops env w \<longrightarrow>
           fifo_ran env w (snd (test_dma_fifo env w))
             (fifo_push_script w c4 c7 4 @ fifo_pop_script w c4 4 @ [restore]) \<and>
           (ff_ctest1_end env \<noteq> 0xf0 \<longrightarrow> fst (test_dma_fifo env w) = 0xff) \<and>
           (ff_ctest1_end env = 0xf0 \<longrightarrow>
              (\<forall>l. bit (fst (test_dma_fifo env w)) l =
                 (bit (fifo_entry_rc env) l \<or>
                  l < 4 \<and> (\<exists>i<16. fifo_popped env l i \<noteq> fifo_expected l i))))) \<and>
         (\<not> fifo_pushes env w \<longrightarrow> fifo_ran env w (snd (test_dma_fifo env w)) [])"
proof (cases "fifo_pushes env w")
  case False
  with entry_ran [of env w] show ?thesis by (simp add: fifo_pops_def)
next
  case True
  define rc1 :: uint32_t where
    "rc1 = (if (ucast (ff_dstat_start env) AND REG_DSTAT_DFE) = (0 :: uint32_t) then 1 else 0)"
  from True entry_ran [of env w] obtain wA where fA: "fifo_ran env w wA []"
    and eA: "test_dma_fifo env w = fifo_push_phase env rc1 wA"
    unfolding rc1_def by blast
  have bA: "a4091_base wA = a4091_base w" by (rule fifo_ran_base [OF fA])
  have gA: "runtime_flags wA = runtime_flags w" by (rule fifo_ran_flags [OF fA])
  note ph = push_phase_ran [of env wA rc1, folded c4_def c7_def,
      unfolded script_base [OF bA] gA eA [symmetric]]
  let ?dfe = "(ucast (ff_dstat_full env) AND REG_DSTAT_DFE) \<noteq> (0 :: uint32_t)"
  let ?nf = "ff_ctest1_full env \<noteq> 0x0f"
  let ?quiet = "runtime_flags w AND FLAG_MORE_DEBUG = 0"
  have pops: "fifo_pops env w = (\<not> (?dfe \<and> ?quiet) \<and> \<not> (?nf \<and> ?quiet))"
    using True by (auto simp add: fifo_pops_def)
  show ?thesis
  proof (cases "fifo_pops env w")
    case False
    then consider "?dfe \<and> ?quiet" | "\<not> (?dfe \<and> ?quiet) \<and> ?nf \<and> ?quiet"
      unfolding pops by blast
    then have "fifo_ran env w (snd (test_dma_fifo env w)) (fifo_push_script w c4 c7 4) \<or>
           fifo_ran env w (snd (test_dma_fifo env w)) (fifo_push_script w c4 c7 4 @ [restore])"
    proof cases
      case 1
      with ph have "fifo_ran env wA (snd (test_dma_fifo env w)) (fifo_push_script w c4 c7 4)"
        by blast
      from fifo_ran_trans [OF fA this] show ?thesis by simp
    next
      case 2
      with ph have "fifo_ran env wA (snd (test_dma_fifo env w))
          (fifo_push_script w c4 c7 4 @ [restore])"
        unfolding restore_def c4_def by blast
      from fifo_ran_trans [OF fA this] show ?thesis by simp
    qed
    with True False show ?thesis by simp
  next
    case pp: True
    then have c: "\<not> (?dfe \<and> ?quiet) \<and> \<not> (?nf \<and> ?quiet)" unfolding pops .
    with ph obtain wB where fB: "fifo_ran env wA wB (fifo_push_script w c4 c7 4)"
      and eB: "test_dma_fifo env w =
                fifo_pop_phase env c4 (if ?nf then 0xff else if ?dfe then rc1 + 1 else rc1) wB"
      by blast
    have rc: "(if ?nf then 0xff else if ?dfe then rc1 + 1 else rc1) = fifo_entry_rc env"
      by (simp add: fifo_entry_rc_def rc1_def)
    have fwB: "fifo_ran env w wB (fifo_push_script w c4 c7 4)"
      using fifo_ran_trans [OF fA fB] by simp
    have bB: "a4091_base wB = a4091_base w" by (rule fifo_ran_base [OF fwB])
    note pop = pop_phase_ran [of env wB c4 "fifo_entry_rc env",
        unfolded script_base [OF bB] eB [unfolded rc, symmetric]]
    from pop have fP: "fifo_ran env wB (snd (test_dma_fifo env w))
        (fifo_pop_script w c4 4 @ [restore])"
      unfolding restore_def c4_def by blast
    have "fifo_ran env w (snd (test_dma_fifo env w))
             (fifo_push_script w c4 c7 4 @ fifo_pop_script w c4 4 @ [restore])"
      by (rule fifo_ran_trans [OF fwB fP])
    with pop True pp show ?thesis by blast
  qed
qed


lemma ran_observed:
  assumes "fifo_ran env w w' script"
  shows "fifo_bus w (new_events w w') = script"
    and "list_all (\<lambda>e. is_lane_report e \<longrightarrow> truthful_report env e) (new_events w w')"
    and "written8 (shadow w REG_CTEST6) w w' = writes8 (shadow w REG_CTEST6) script"
    and "written8 (shadow w REG_CTEST7) w w' = writes8 (shadow w REG_CTEST7) script"
proof -
  from assms obtain es where t: "trace w' = trace w @ es" and b: "fifo_bus w es = script"
    and l: "list_all (\<lambda>e. is_lane_report e \<longrightarrow> truthful_report env e) es"
    unfolding fifo_ran_def by blast
  have n: "new_events w w' = es" by (simp add: new_events_def t)
  show "fifo_bus w (new_events w w') = script" unfolding n by (rule b)
  show "list_all (\<lambda>e. is_lane_report e \<longrightarrow> truthful_report env e) (new_events w w')"
    unfolding n by (rule l)
  have "writes8 (shadow w REG_CTEST6) (fifo_bus w es) = writes8 (shadow w REG_CTEST6) es"
    by (rule writes8_fifo_bus) simp
  then show "written8 (shadow w REG_CTEST6) w w' = writes8 (shadow w REG_CTEST6) script"
    unfolding b by (simp add: written8_def t)
  have "writes8 (shadow w REG_CTEST7) (fifo_bus w es) = writes8 (shadow w REG_CTEST7) es"
    by (rule writes8_fifo_bus) simp
  then show "written8 (shadow w REG_CTEST7) w w' = writes8 (shadow w REG_CTEST7) script"
    unfolding b by (simp add: written8_def t)
qed

lemma writes8_restore:
  "writes8 (shadow w REG_CTEST6) [Write8 (shadow w REG_CTEST4) v] = []"
  "writes8 (shadow w REG_CTEST7) [Write8 (shadow w REG_CTEST4) v] = []"
  using fifo_distinct [of w] by (simp_all add: writes8_def)

text \<open>
  C7.  In every run of the DMA FIFO test that reaches the push loop, the FIFO traffic
  starts with the push sequence: for each lane 0 to 3 in turn, a write to CTEST4 that
  selects the lane (FBL2 set, the lane number in the two low bits), then for each of
  the 16 bytes the parity to CTEST7 and the data byte to CTEST6, taken from the
  generator seeded with 19700119.  The run then has written 64 bytes to each of the
  two registers, and for every lane and byte the value the pop phase expects there,
  \<open>(rand32() >> 8) & 0x1ff\<close> after re-seeding with 19700119, is the 9-bit value pushed:
  the byte written to CTEST6 with bit 3 of the byte written to CTEST7 as bit 8.

  In every run that reaches the pop loop, the traffic goes on with the pop sequence
  (per lane the same selection in CTEST4, then per byte a read of CTEST6 and a read of
  CTEST2) and the write that restores CTEST4.  If CTEST1 reads \<open>0xf0\<close> at the end the
  result has bit \<open>lane\<close> set exactly when that bit was set in \<^verbatim>\<open>rc\<close> before the pop
  loop or the card hands back, at some byte of that lane, a 9-bit value other than the
  one pushed there; otherwise the result is \<open>0xff\<close>.  Every miscompare the test reports
  names a lane and byte where the value handed back differs from the expected value,
  and shows these two values.  A run that does not reach the push loop has no FIFO
  traffic.
\<close>

theorem dma_fifo_round_trip:
  "(fifo_pushes env w \<longrightarrow>
      length (written8 (shadow w REG_CTEST6) w (snd (test_dma_fifo env w))) = 64 \<and>
      length (written8 (shadow w REG_CTEST7) w (snd (test_dma_fifo env w))) = 64 \<and>
      (\<forall>lane<4. \<forall>cbyte<16.
         fifo_expected lane cbyte = fifo_pushed w (snd (test_dma_fifo env w)) lane cbyte) \<and>
      (\<exists>rest. fifo_bus w (new_events w (snd (test_dma_fifo env w))) =
         fifo_push_script w (ff_ctest4 env)
           (ucast ((ucast (ff_ctest7 env) :: uint32_t) AND NOT (BIT 3))) 4 @ rest)) \<and>
   (fifo_pops env w \<longrightarrow>
      fifo_bus w (new_events w (snd (test_dma_fifo env w))) =
        fifo_push_script w (ff_ctest4 env)
          (ucast ((ucast (ff_ctest7 env) :: uint32_t) AND NOT (BIT 3))) 4 @
        fifo_pop_script w (ff_ctest4 env) 4 @
        [Write8 (shadow w REG_CTEST4) (ucast ((ucast (ff_ctest4 env) :: uint32_t) AND NOT 7))] \<and>
      (ff_ctest1_end env \<noteq> 0xf0 \<longrightarrow> fst (test_dma_fifo env w) = 0xff) \<and>
      (ff_ctest1_end env = 0xf0 \<longrightarrow>
         (\<forall>lane. (fst (test_dma_fifo env w) AND BIT lane \<noteq> 0) =
            (fifo_entry_rc env AND BIT lane \<noteq> 0 \<or>
             lane < 4 \<and>
             (\<exists>cbyte<16. fifo_popped env lane cbyte \<noteq>
                           fifo_pushed w (snd (test_dma_fifo env w)) lane cbyte))))) \<and>
   (\<not> fifo_pushes env w \<longrightarrow> fifo_bus w (new_events w (snd (test_dma_fifo env w))) = []) \<and>
   list_all (\<lambda>e. is_lane_report e \<longrightarrow> truthful_report env e)
     (new_events w (snd (test_dma_fifo env w))) \<and>
   (\<forall>lane<4. fifo_lane_select (ff_ctest4 env) lane AND 7 = of_nat (4 + lane))"
proof -
  let ?w' = "snd (test_dma_fifo env w)"
  let ?c4 = "ff_ctest4 env"
  let ?c7 = "ucast ((ucast (ff_ctest7 env) :: uint32_t) AND NOT (BIT 3)) :: uint8_t"
  let ?restore = "Write8 (shadow w REG_CTEST4) (ucast ((ucast (ff_ctest4 env) :: uint32_t) AND NOT 7))"
  note run = fifo_run [of env w]
  have pushed: "\<exists>rest. fifo_ran env w ?w' (fifo_push_script w ?c4 ?c7 4 @ rest) \<and>
      writes8 (shadow w REG_CTEST6) rest = [] \<and> writes8 (shadow w REG_CTEST7) rest = []"
    if p: "fifo_pushes env w"
  proof (cases "fifo_pops env w")
    case True
    with run have "fifo_ran env w ?w'
        (fifo_push_script w ?c4 ?c7 4 @ fifo_pop_script w ?c4 4 @ [?restore])"
      by blast
    then show ?thesis
      by (intro exI [of _ "fifo_pop_script w ?c4 4 @ [?restore]"])
         (simp add: writes8_pop_script writes8_restore)
  next
    case False
    with run p consider "fifo_ran env w ?w' (fifo_push_script w ?c4 ?c7 4)"
      | "fifo_ran env w ?w' (fifo_push_script w ?c4 ?c7 4 @ [?restore])"
      by blast
    then show ?thesis
    proof cases
      case 1
      then show ?thesis by (intro exI [of _ "[]"]) simp
    next
      case 2
      then show ?thesis by (intro exI [of _ "[?restore]"]) (simp add: writes8_restore)
    qed
  qed
  have six: "written8 (shadow w REG_CTEST6) w ?w' =
        map (\<lambda>k. fifo_data (fifo_random (Suc k))) [0..<64]"
    and seven: "written8 (shadow w REG_CTEST7) w ?w' =
        map (\<lambda>k. fifo_parity ?c7 (fifo_random (Suc k))) [0..<64]"
    and prefix: "\<exists>rest. fifo_bus w (new_events w ?w') = fifo_push_script w ?c4 ?c7 4 @ rest"
    if p: "fifo_pushes env w"
  proof -
    from pushed [OF p] obtain rest where
      f: "fifo_ran env w ?w' (fifo_push_script w ?c4 ?c7 4 @ rest)"
      and r: "writes8 (shadow w REG_CTEST6) rest = []" "writes8 (shadow w REG_CTEST7) rest = []"
      by blast
    show "written8 (shadow w REG_CTEST6) w ?w' =
        map (\<lambda>k. fifo_data (fifo_random (Suc k))) [0..<64]"
      unfolding ran_observed(3) [OF f] writes8_append writes8_push_script r by simp
    show "written8 (shadow w REG_CTEST7) w ?w' =
        map (\<lambda>k. fifo_parity ?c7 (fifo_random (Suc k))) [0..<64]"
      unfolding ran_observed(4) [OF f] writes8_append writes8_push_script r by simp
    from ran_observed(1) [OF f]
    show "\<exists>rest. fifo_bus w (new_events w ?w') = fifo_push_script w ?c4 ?c7 4 @ rest" ..
  qed
  have same: "fifo_pushed w ?w' lane cbyte = fifo_expected lane cbyte"
    if p: "fifo_pushes env w" and "lane < 4" and "cbyte < 16" for lane cbyte
  proof -
    from that have k: "16 * lane + cbyte < 64" by simp
    have n: "map f [0..<64] ! (16 * lane + cbyte) = f (16 * lane + cbyte)" for f :: "nat \<Rightarrow> 8 word"
      using k by simp
    have e: "fifo_expected lane cbyte =
        ucast (drop_bit 8 (fifo_random (Suc (16 * lane + cbyte))) AND (BIT 9 - 1))"
      by (simp add: fifo_expected_def NCR_FIFO_SIZE_def)
    show ?thesis
      unfolding fifo_pushed_def Let_def NCR_FIFO_SIZE_def six [OF p] seven [OF p] n e
      by (rule nine_bits_pushed)
  qed
  have a: "fifo_pushes env w \<longrightarrow>
      length (written8 (shadow w REG_CTEST6) w ?w') = 64 \<and>
      length (written8 (shadow w REG_CTEST7) w ?w') = 64 \<and>
      (\<forall>lane<4. \<forall>cbyte<16. fifo_expected lane cbyte = fifo_pushed w ?w' lane cbyte) \<and>
      (\<exists>rest. fifo_bus w (new_events w ?w') = fifo_push_script w ?c4 ?c7 4 @ rest)"
    using six seven prefix same by simp
  have b: "fifo_pops env w \<longrightarrow>
      fifo_bus w (new_events w ?w') =
        fifo_push_script w ?c4 ?c7 4 @ fifo_pop_script w ?c4 4 @ [?restore] \<and>
      (ff_ctest1_end env \<noteq> 0xf0 \<longrightarrow> fst (test_dma_fifo env w) = 0xff) \<and>
      (ff_ctest1_end env = 0xf0 \<longrightarrow>
         (\<forall>lane. (fst (test_dma_fifo env w) AND BIT lane \<noteq> 0) =
            (fifo_entry_rc env AND BIT lane \<noteq> 0 \<or>
             lane < 4 \<and>
             (\<exists>cbyte<16. fifo_popped env lane cbyte \<noteq> fifo_pushed w ?w' lane cbyte))))"
  proof
    assume pp: "fifo_pops env w"
    then have p: "fifo_pushes env w" by (simp add: fifo_pops_def)
    from run pp have f: "fifo_ran env w ?w'
        (fifo_push_script w ?c4 ?c7 4 @ fifo_pop_script w ?c4 4 @ [?restore])"
      and bad: "ff_ctest1_end env \<noteq> 0xf0 \<longrightarrow> fst (test_dma_fifo env w) = 0xff"
      and good: "ff_ctest1_end env = 0xf0 \<longrightarrow>
              (\<forall>l. bit (fst (test_dma_fifo env w)) l =
                 (bit (fifo_entry_rc env) l \<or>
                  l < 4 \<and> (\<exists>i<16. fifo_popped env l i \<noteq> fifo_expected l i)))"
      by blast+
    have "ff_ctest1_end env = 0xf0 \<longrightarrow>
         (\<forall>lane. (fst (test_dma_fifo env w) AND BIT lane \<noteq> 0) =
            (fifo_entry_rc env AND BIT lane \<noteq> 0 \<or>
             lane < 4 \<and>
             (\<exists>cbyte<16. fifo_popped env lane cbyte \<noteq> fifo_pushed w ?w' lane cbyte)))"
      unfolding and_BIT_iff using good same [OF p] by auto
    with ran_observed(1) [OF f] bad
    show "fifo_bus w (new_events w ?w') =
        fifo_push_script w ?c4 ?c7 4 @ fifo_pop_script w ?c4 4 @ [?restore] \<and>
      (ff_ctest1_end env \<noteq> 0xf0 \<longrightarrow> fst (test_dma_fifo env w) = 0xff) \<and>
      (ff_ctest1_end env = 0xf0 \<longrightarrow>
         (\<forall>lane. (fst (test_dma_fifo env w) AND BIT lane \<noteq> 0) =
            (fifo_entry_rc env AND BIT lane \<noteq> 0 \<or>
             lane < 4 \<and>
             (\<exists>cbyte<16. fifo_popped env lane cbyte \<noteq> fifo_pushed w ?w' lane cbyte))))"
      by blast
  qed
  have c: "\<not> fifo_pushes env w \<longrightarrow> fifo_bus w (new_events w ?w') = []"
    using run ran_observed(1) by blast
  have d: "list_all (\<lambda>e. is_lane_report e \<longrightarrow> truthful_report env e) (new_events w ?w')"
  proof (cases "fifo_pushes env w")
    case True
    from pushed [OF True] ran_observed(2) show ?thesis by blast
  next
    case False
    with run ran_observed(2) show ?thesis by blast
  qed
  have e: "\<forall>lane<4. fifo_lane_select (ff_ctest4 env) lane AND 7 = of_nat (4 + lane)"
    using lane_select_bits by blast
  from a b c d e show ?thesis by blast
qed


theorem dma_fifo_round_trip_witness:
  "fifo_pushes stuck_fifo released_world \<and> fifo_pops stuck_fifo released_world \<and>
   ff_ctest1_end stuck_fifo = 0xf0 \<and> fifo_entry_rc stuck_fifo = 0 \<and>
   length (written8 (shadow released_world REG_CTEST6) released_world
             (snd (test_dma_fifo stuck_fifo released_world))) = 64 \<and>
   fifo_pushed released_world (snd (test_dma_fifo stuck_fifo released_world)) 0 0 = 0x103 \<and>
   fifo_popped stuck_fifo 0 0 = 0 \<and>
   fst (test_dma_fifo stuck_fifo released_world) AND BIT 0 \<noteq> 0 \<and>
   fst (test_dma_fifo stuck_fifo released_world) AND BIT 4 = 0 \<and>
   fifo_bus released_world (new_events released_world (snd (test_dma_fifo stuck_fifo released_world))) =
     fifo_push_script released_world 0 0 4 @ fifo_pop_script released_world 0 4 @
     [Write8 0x4080005b 0] \<and>
   fifo_lane_select (ff_ctest4 stuck_fifo) 2 AND 7 = 6 \<and>
   fifo_pushes failing_fifo debug_world \<and> fifo_pops failing_fifo debug_world \<and>
   ff_ctest1_end failing_fifo \<noteq> 0xf0 \<and>
   fst (test_dma_fifo failing_fifo debug_world) = 0xff \<and>
   length (written8 (shadow debug_world REG_CTEST7) debug_world
             (snd (test_dma_fifo failing_fifo debug_world))) = 64 \<and>
   fifo_expected 3 15 = fifo_pushed debug_world (snd (test_dma_fifo failing_fifo debug_world)) 3 15 \<and>
   \<not> fifo_pushes dirty_fifo released_world \<and>
   fifo_bus released_world (new_events released_world (snd (test_dma_fifo dirty_fifo released_world))) = []"
proof -
  have h1: "fifo_pushes stuck_fifo released_world" "fifo_pops stuck_fifo released_world"
    "ff_ctest1_end stuck_fifo = 0xf0" "fifo_entry_rc stuck_fifo = 0"
    by (simp_all add: fifo_pushes_def fifo_pops_def fifo_entry_rc_def stuck_fifo_def
        is_running_in_uae_def REG_DSTAT_DFE_def BIT_def)
  have h2: "fifo_pushes failing_fifo debug_world" "fifo_pops failing_fifo debug_world"
    "ff_ctest1_end failing_fifo \<noteq> 0xf0"
    by (simp_all add: fifo_pushes_def fifo_pops_def failing_fifo_def debug_world_def
        released_world_def is_running_in_uae_def FLAG_MORE_DEBUG_def)
  have h3: "\<not> fifo_pushes dirty_fifo released_world"
    by (simp add: fifo_pushes_def dirty_fifo_def stuck_fifo_def released_world_def
        FLAG_MORE_DEBUG_def)
  note t1 = dma_fifo_round_trip [of stuck_fifo released_world]
  note t2 = dma_fifo_round_trip [of failing_fifo debug_world]
  note t3 = dma_fifo_round_trip [of dirty_fifo released_world]
  have e: "fifo_expected 0 0 = 0x103"
    by (simp add: fifo_expected_def fifo_random_def rand_step_def NCR_FIFO_SIZE_def BIT_def)
  have p: "fifo_popped stuck_fifo 0 0 = 0"
    by (simp add: fifo_popped_def stuck_fifo_def)
  from t1 h1 have len1: "length (written8 (shadow released_world REG_CTEST6) released_world
             (snd (test_dma_fifo stuck_fifo released_world))) = 64"
    by blast
  from t1 h1 have "fifo_expected 0 0 =
      fifo_pushed released_world (snd (test_dma_fifo stuck_fifo released_world)) 0 0"
    by simp
  then have a: "fifo_pushed released_world (snd (test_dma_fifo stuck_fifo released_world)) 0 0 = 0x103"
    using e by simp
  from t1 h1 have bits: "(fst (test_dma_fifo stuck_fifo released_world) AND BIT lane \<noteq> 0) =
      (fifo_entry_rc stuck_fifo AND BIT lane \<noteq> 0 \<or> lane < 4 \<and>
       (\<exists>cbyte<16. fifo_popped stuck_fifo lane cbyte \<noteq>
         fifo_pushed released_world (snd (test_dma_fifo stuck_fifo released_world)) lane cbyte))"
    for lane by blast
  have "\<exists>cbyte<16. fifo_popped stuck_fifo 0 cbyte \<noteq>
         fifo_pushed released_world (snd (test_dma_fifo stuck_fifo released_world)) 0 cbyte"
    unfolding Bex_def
    by (rule exI [of _ 0]) (simp add: a p)
  with bits [of 0] have b0: "fst (test_dma_fifo stuck_fifo released_world) AND BIT 0 \<noteq> 0"
    by simp
  from bits [of 4] h1(4) have b4: "fst (test_dma_fifo stuck_fifo released_world) AND BIT 4 = 0"
    by simp
  from t1 h1 have "fifo_bus released_world
      (new_events released_world (snd (test_dma_fifo stuck_fifo released_world))) =
      fifo_push_script released_world (ff_ctest4 stuck_fifo)
          (ucast ((ucast (ff_ctest7 stuck_fifo) :: uint32_t) AND NOT (BIT 3))) 4 @
        fifo_pop_script released_world (ff_ctest4 stuck_fifo) 4 @
        [Write8 (shadow released_world REG_CTEST4)
           (ucast ((ucast (ff_ctest4 stuck_fifo) :: uint32_t) AND NOT 7))]"
    by blast
  then have bus: "fifo_bus released_world
      (new_events released_world (snd (test_dma_fifo stuck_fifo released_world))) =
     fifo_push_script released_world 0 0 4 @ fifo_pop_script released_world 0 4 @
     [Write8 0x4080005b 0]"
    by (simp add: stuck_fifo_def shadow_def released_world_def A4091_OFFSET_REGISTERS_def
        REG_CTEST4_def)
  from t1 have "fifo_lane_select (ff_ctest4 stuck_fifo) 2 AND 7 = of_nat (4 + 2)"
    by simp
  then have sel: "fifo_lane_select (ff_ctest4 stuck_fifo) 2 AND 7 = 6" by simp
  from t2 h2 have r2: "fst (test_dma_fifo failing_fifo debug_world) = 0xff" by blast
  from t2 h2 have len2: "length (written8 (shadow debug_world REG_CTEST7) debug_world
             (snd (test_dma_fifo failing_fifo debug_world))) = 64"
    by blast
  from t2 h2 have x2: "fifo_expected 3 15 =
      fifo_pushed debug_world (snd (test_dma_fifo failing_fifo debug_world)) 3 15"
    by simp
  from t3 h3 have r3: "fifo_bus released_world
      (new_events released_world (snd (test_dma_fifo dirty_fifo released_world))) = []"
    by blast
  from h1 len1 a p b0 b4 bus sel h2 r2 len2 x2 h3 r3 show ?thesis by blast
qed


subsection \<open>The protection grid of the DMA copy test\<close>

lemma fold_events:
  assumes "\<And>x s. T (f x s) = T s @ ev x"
  shows "T (fold f xs s) = T s @ concat (map ev xs)"
  by (induction xs arbitrary: s) (simp_all add: assms)

lemma protect_entry_view:
  "grid_entry (protect_entry env len dst b1 b2 st) i j =
     (if i = b1 \<and> j = b2 then protected_entry env dst b1 b2 (bf_flags st b1 b2)
      else grid_entry st i j)"
  by (simp add: grid_entry_def protect_entry_def protected_entry_def flip_address_def
      grid_update_def Let_def BIT_def)

lemma protect_entry_trace:
  "trace (fg_world (protect_entry env len dst b1 b2 st)) =
     trace (fg_world st) @ protect_events env len dst b1 b2"
  by (simp add: protect_entry_def protect_events_def flip_address_def grid_update_def
      Let_def emit_def BIT_def)

lemma protect_entry_globals:
  "a4091_base (fg_world (protect_entry env len dst b1 b2 st)) = a4091_base (fg_world st)"
  "runtime_flags (fg_world (protect_entry env len dst b1 b2 st)) = runtime_flags (fg_world st)"
  by (simp_all add: protect_entry_def grid_update_def Let_def emit_def)

lemma protect_row_view:
  "grid_entry (fold (protect_entry env len dst b1) [b1..<b1 + k] st) i j =
     (if i = b1 \<and> b1 \<le> j \<and> j < b1 + k then protected_entry env dst b1 j (bf_flags st b1 j)
      else grid_entry st i j)"
proof (induction k arbitrary: i j)
  case 0
  show ?case by auto
next
  case (Suc k)
  define st' where "st' = fold (protect_entry env len dst b1) [b1..<b1 + k] st"
  have f: "bf_flags st' b1 (b1 + k) = bf_flags st b1 (b1 + k)"
    using Suc.IH [of b1 "b1 + k", folded st'_def] by (simp add: grid_entry_def)
  have u: "[b1..<b1 + Suc k] = [b1..<b1 + k] @ [b1 + k]" by simp
  show ?case
    unfolding u fold_append o_apply
    apply (fold st'_def)
    apply (simp add: protect_entry_view f Suc.IH [folded st'_def])
    apply (auto simp add: less_Suc_eq)
    done
qed


lemma protect_row_full:
  assumes "b1 \<le> 32"
  shows "grid_entry (fold (protect_entry env len dst b1) [b1..<32] st) i j =
     (if i = b1 \<and> b1 \<le> j \<and> j < 32 then protected_entry env dst b1 j (bf_flags st b1 j)
      else grid_entry st i j)"
proof -
  from assms have "b1 + (32 - b1) = 32" by simp
  with protect_row_view [of env len dst b1 "32 - b1" st i j] show ?thesis by simp
qed

lemma protect_rows_view:
  assumes "12 + m \<le> 32"
  shows "grid_entry (fold (\<lambda>b1. fold (protect_entry env len dst b1) [b1..<32]) [12..<12 + m] st) i j =
     (if 12 \<le> i \<and> i < 12 + m \<and> i \<le> j \<and> j < 32
      then protected_entry env dst i j (bf_flags st i j)
      else grid_entry st i j)"
  using assms
proof (induction m arbitrary: i j)
  case 0
  show ?case by auto
next
  case (Suc m)
  define st' where
    "st' = fold (\<lambda>b1. fold (protect_entry env len dst b1) [b1..<32]) [12..<12 + m] st"
  from Suc.prems have m: "12 + m \<le> 32" by simp
  note ih = Suc.IH [OF m, folded st'_def]
  have f: "bf_flags st' (12 + m) j = bf_flags st (12 + m) j" for j
    using ih [of "12 + m" j] by (simp add: grid_entry_def)
  have u: "[12..<12 + Suc m] = [12..<12 + m] @ [12 + m]"
    unfolding add_Suc_right by (rule upt_Suc_append) simp
  show ?case
    unfolding u fold_append o_apply
    apply (fold st'_def)
    apply (simp add: protect_row_full [OF m] f ih)
    apply (auto simp add: less_Suc_eq)
    done
qed

lemma protect_grid_view:
  "grid_entry (protect_grid env len dst st) i j =
     (if in_grid i j then protected_entry env dst i j (bf_flags st i j) else grid_entry st i j)"
proof -
  have "(12 :: nat) + 20 \<le> 32" by simp
  from protect_rows_view [OF this, of env len dst st i j] show ?thesis
    by (simp add: protect_grid_def in_grid_def DMA_LEN_BIT_def del: upt_rec_numeral)
qed

lemma protect_grid_trace:
  "trace (fg_world (protect_grid env len dst st)) =
     trace (fg_world st) @
     concat (map (\<lambda>b1. concat (map (protect_events env len dst b1) [b1..<32]))
               [DMA_LEN_BIT..<32])"
  unfolding protect_grid_def
  by (rule fold_events [where T = "\<lambda>s. trace (fg_world s)"])
     (rule fold_events [where T = "\<lambda>s. trace (fg_world s)"], rule protect_entry_trace)

lemma protect_grid_globals:
  "runtime_flags (fg_world (protect_grid env len dst st)) = runtime_flags (fg_world st)"
proof -
  have row: "runtime_flags (fg_world (fold (protect_entry env len dst b1) xs s)) =
      runtime_flags (fg_world s)" for b1 xs s
    by (induction xs arbitrary: s) (simp_all add: protect_entry_globals)
  have "runtime_flags (fg_world
      (fold (\<lambda>b1. fold (protect_entry env len dst b1) [b1..<32]) ys s)) =
      runtime_flags (fg_world s)" for ys s
    by (induction ys arbitrary: s) (simp_all add: row)
  then show ?thesis by (simp add: protect_grid_def)
qed

lemma capture_grid_trace:
  "trace (capture_grid len st w) =
     trace w @
     concat (map (\<lambda>b1. concat (map (capture_events len st b1) [b1..<32])) [DMA_LEN_BIT..<32])"
  unfolding capture_grid_def
  by (rule fold_events [where T = trace], rule fold_events [where T = trace])
     (simp add: capture_entry_def capture_events_def emit_def)

lemma concat_member:
  assumes "x \<in> set xs" and "e \<in> set (f x)"
  shows "e \<in> set (concat (map f xs))"
  using assms by (induction xs) auto

lemma in_grid_events:
  assumes "in_grid i j" and "e \<in> set (ev i j)"
  shows "e \<in> set (concat (map (\<lambda>b1. concat (map (ev b1) [b1..<32])) [DMA_LEN_BIT..<32]))"
proof -
  from assms(1) have a: "DMA_LEN_BIT \<le> i" and b: "i \<le> j" and c: "j < 32"
    unfolding in_grid_def by blast+
  from b c have d: "i < 32" by (rule le_less_trans)
  from a d have i: "i \<in> set [DMA_LEN_BIT..<32]"
    unfolding set_upt atLeastLessThan_iff by (rule conjI)
  from b c have j: "j \<in> set [i..<32]"
    unfolding set_upt atLeastLessThan_iff by (rule conjI)
  from j assms(2) have "e \<in> set (concat (map (ev i) [i..<32]))"
    by (rule concat_member)
  with i show ?thesis
    by (rule concat_member [where f = "\<lambda>b1. concat (map (ev b1) [b1..<32])"])
qed

lemma fold_extends:
  assumes "\<And>x w. \<exists>es. trace (f x w) = trace w @ es"
  shows "\<exists>es. trace (fold f xs w) = trace w @ es"
proof (induction xs arbitrary: w)
  case Nil
  show ?case by simp
next
  case (Cons x xs)
  from assms [of x w] obtain es1 where a: "trace (f x w) = trace w @ es1" by blast
  from Cons.IH [of "f x w"] obtain es2 where "trace (fold f xs (f x w)) = trace (f x w) @ es2"
    by blast
  with a have "trace (fold f (x # xs) w) = trace w @ (es1 @ es2)" by simp
  then show ?case by blast
qed

lemma emit_extends: "\<exists>es. trace (emit e w) = trace w @ es"
  by (simp add: emit_def)

lemma show_flip_addrs_trace: "\<exists>es. trace (show_flip_addrs st w) = trace w @ es"
proof -
  have row: "\<exists>es. trace (emit (Printf ''\<newline>'' [])
                  (fold (\<lambda>bit2. emit (Printf '' %08x'' [PInt (uint (bf_addr st bit1 bit2))]))
                     [bit1..<32] w)) = trace w @ es" for bit1 w
  proof -
    from fold_extends [of "\<lambda>bit2. emit (Printf '' %08x'' [PInt (uint (bf_addr st bit1 bit2))])"
        "[bit1..<32]" w, OF emit_extends]
    obtain es where "trace (fold (\<lambda>bit2. emit (Printf '' %08x'' [PInt (uint (bf_addr st bit1 bit2))]))
                     [bit1..<32] w) = trace w @ es" by blast
    then show ?thesis by (simp add: emit_def)
  qed
  from fold_extends [of "\<lambda>bit1 w. emit (Printf ''\<newline>'' [])
                  (fold (\<lambda>bit2. emit (Printf '' %08x'' [PInt (uint (bf_addr st bit1 bit2))]))
                     [bit1..<32] w)" "[DMA_LEN_BIT..<32]"
      "emit (Printf ''Bit flip addrs:\<newline>'' []) w", OF row]
  obtain es where "trace (fold (\<lambda>bit1 w. emit (Printf ''\<newline>'' [])
                  (fold (\<lambda>bit2. emit (Printf '' %08x'' [PInt (uint (bf_addr st bit1 bit2))]))
                     [bit1..<32] w)) [DMA_LEN_BIT..<32]
      (emit (Printf ''Bit flip addrs:\<newline>'' []) w)) =
      trace (emit (Printf ''Bit flip addrs:\<newline>'' []) w) @ es" by blast
  then have "trace (fold (\<lambda>bit1 w. emit (Printf ''\<newline>'' [])
                  (fold (\<lambda>bit2. emit (Printf '' %08x'' [PInt (uint (bf_addr st bit1 bit2))]))
                     [bit1..<32] w)) [DMA_LEN_BIT..<32]
      (emit (Printf ''Bit flip addrs:\<newline>'' []) w)) =
      trace w @ (Printf ''Bit flip addrs:\<newline>'' [] # es)"
    by (simp add: emit_def)
  then show ?thesis
    unfolding show_flip_addrs_def by (cases "debug_on w") auto
qed


lemma copy_reaches_grid:
  assumes "test_dma_copy env w = Protected src dst g"
  shows "\<exists>w1. src = ce_src env \<and> dst = ce_dst_buf env + BIT DMA_LEN_BIT \<and>
           g = copy_protect env (BIT DMA_LEN_BIT) dst w1"
  using assms unfolding test_dma_copy_def AllocMem_aligned_def Let_def
  by (auto split: if_splits)

lemma copy_protect_entry:
  assumes "in_grid i j"
  shows "grid_entry (copy_protect env len dst w) i j = protected_entry env dst i j 0"
  using assms
  by (simp add: copy_protect_def Let_def grid_entry_def
      protect_grid_view [unfolded grid_entry_def, simplified])

lemma copy_protect_trace:
  "\<exists>es. trace (fg_world (copy_protect env len dst w)) =
     trace w @
     concat (map (\<lambda>b1. concat (map (protect_events env len dst b1) [b1..<32]))
               [DMA_LEN_BIT..<32]) @ es @ [Forbid] @
     concat (map (\<lambda>b1. concat (map (capture_events len (copy_protect env len dst w) b1) [b1..<32]))
               [DMA_LEN_BIT..<32])"
proof -
  define st where "st = protect_grid env len dst
      \<lparr>bf_addr = (\<lambda>i j. 0), bf_mem = (\<lambda>i j. 0), bf_flags = (\<lambda>i j. 0),
       bf_copies = 0, bf_buffers = 0, fg_world = w\<rparr>"
  have g: "copy_protect env len dst w =
      st\<lparr>fg_world := capture_grid len st (emit Forbid (show_flip_addrs st (fg_world st)))\<rparr>"
    by (simp add: copy_protect_def Let_def st_def)
  have c: "capture_events len (copy_protect env len dst w) = capture_events len st"
    by (intro ext) (simp add: g capture_events_def)
  from show_flip_addrs_trace [of st "fg_world st"] obtain es where
    es: "trace (show_flip_addrs st (fg_world st)) = trace (fg_world st) @ es" by blast
  have p: "trace (fg_world st) = trace w @
     concat (map (\<lambda>b1. concat (map (protect_events env len dst b1) [b1..<32]))
               [DMA_LEN_BIT..<32])"
    unfolding st_def by (simp add: protect_grid_trace)
  have "trace (fg_world (copy_protect env len dst w)) =
     trace w @
     concat (map (\<lambda>b1. concat (map (protect_events env len dst b1) [b1..<32]))
               [DMA_LEN_BIT..<32]) @ es @ [Forbid] @
     concat (map (\<lambda>b1. concat (map (capture_events len (copy_protect env len dst w) b1) [b1..<32]))
               [DMA_LEN_BIT..<32])"
    unfolding c by (simp add: g capture_grid_trace emit_def es p)
  then show ?thesis by blast
qed

lemma copy_protect_calls:
  assumes "in_grid i j"
  shows "set (protect_events env len dst i j) \<subseteq> set (trace (fg_world (copy_protect env len dst w)))"
    and "set (capture_events len (copy_protect env len dst w) i j)
           \<subseteq> set (trace (fg_world (copy_protect env len dst w)))"
proof -
  from copy_protect_trace [of env len dst w] obtain es where
    t: "trace (fg_world (copy_protect env len dst w)) =
     trace w @
     concat (map (\<lambda>b1. concat (map (protect_events env len dst b1) [b1..<32]))
               [DMA_LEN_BIT..<32]) @ es @ [Forbid] @
     concat (map (\<lambda>b1. concat (map (capture_events len (copy_protect env len dst w) b1) [b1..<32]))
               [DMA_LEN_BIT..<32])" by blast
  show "set (protect_events env len dst i j) \<subseteq> set (trace (fg_world (copy_protect env len dst w)))"
  proof
    fix e assume "e \<in> set (protect_events env len dst i j)"
    with assms have "e \<in> set (concat (map (\<lambda>b1. concat (map (protect_events env len dst b1) [b1..<32]))
               [DMA_LEN_BIT..<32]))" by (rule in_grid_events)
    then show "e \<in> set (trace (fg_world (copy_protect env len dst w)))"
      unfolding t set_append by blast
  qed
  show "set (capture_events len (copy_protect env len dst w) i j)
           \<subseteq> set (trace (fg_world (copy_protect env len dst w)))"
  proof
    fix e assume "e \<in> set (capture_events len (copy_protect env len dst w) i j)"
    with assms have "e \<in> set (concat (map (\<lambda>b1. concat (map (capture_events len (copy_protect env len dst w) b1) [b1..<32]))
               [DMA_LEN_BIT..<32]))" by (rule in_grid_events)
    then show "e \<in> set (trace (fg_world (copy_protect env len dst w)))"
      unfolding t set_append by blast
  qed
qed

lemma copy_flag_set:
  "BF_FLAG_COPY \<noteq> 0" "BF_FLAG_COPY AND BF_FLAG_COPY \<noteq> 0"
  "(0 :: uint8_t) OR BF_FLAG_COPY = BF_FLAG_COPY"
  by (simp_all add: BF_FLAG_COPY_def)

lemma copy_protected_pair:
  assumes "test_dma_copy env w = Protected src dst g" and "in_grid bit1 bit2"
  shows "dst = ce_dst_buf env + BIT DMA_LEN_BIT"
    and "bf_addr g bit1 bit2 = flip_address dst bit1 bit2"
    and "AllocAbs (BIT DMA_LEN_BIT) (flip_address dst bit1 bit2) \<in> set (trace (fg_world g))"
    and "ce_abs env bit1 bit2 \<noteq> 0 \<Longrightarrow>
           bf_mem g bit1 bit2 = ce_abs env bit1 bit2 \<and> bf_flags g bit1 bit2 = 0 \<and>
           Memset (ce_abs env bit1 bit2) 0 (BIT DMA_LEN_BIT) \<in> set (trace (fg_world g))"
    and "ce_abs env bit1 bit2 = 0 \<Longrightarrow>
           bf_mem g bit1 bit2 = ce_mem env bit1 bit2 \<and> bf_flags g bit1 bit2 = BF_FLAG_COPY \<and>
           AllocMem (BIT DMA_LEN_BIT) (ce_mem env bit1 bit2) \<in> set (trace (fg_world g)) \<and>
           Memcpy (ce_mem env bit1 bit2) (flip_address dst bit1 bit2) (BIT DMA_LEN_BIT)
             \<in> set (trace (fg_world g))"
proof -
  from copy_reaches_grid [OF assms(1)] obtain w1 where
    d: "dst = ce_dst_buf env + BIT DMA_LEN_BIT" and
    g: "g = copy_protect env (BIT DMA_LEN_BIT) dst w1" by blast
  from copy_protect_entry [OF assms(2), where env = env and len = "BIT DMA_LEN_BIT" and dst = dst and w = w1]
  have e: "grid_entry g bit1 bit2 = protected_entry env dst bit1 bit2 0"
    unfolding g .
  from copy_protect_calls [OF assms(2), where env = env and len = "BIT DMA_LEN_BIT" and dst = dst and w = w1]
  have p: "set (protect_events env (BIT DMA_LEN_BIT) dst bit1 bit2) \<subseteq> set (trace (fg_world g))"
    and c: "set (capture_events (BIT DMA_LEN_BIT) g bit1 bit2) \<subseteq> set (trace (fg_world g))"
    unfolding g by blast+
  show "dst = ce_dst_buf env + BIT DMA_LEN_BIT" by (rule d)
  show "bf_addr g bit1 bit2 = flip_address dst bit1 bit2"
    using e by (simp add: grid_entry_def protected_entry_def)
  show "AllocAbs (BIT DMA_LEN_BIT) (flip_address dst bit1 bit2) \<in> set (trace (fg_world g))"
    using p by (simp add: protect_events_def)
  show "bf_mem g bit1 bit2 = ce_abs env bit1 bit2 \<and> bf_flags g bit1 bit2 = 0 \<and>
           Memset (ce_abs env bit1 bit2) 0 (BIT DMA_LEN_BIT) \<in> set (trace (fg_world g))"
    if "ce_abs env bit1 bit2 \<noteq> 0"
    using e p that by (simp add: grid_entry_def protected_entry_def protect_events_def)
  show "bf_mem g bit1 bit2 = ce_mem env bit1 bit2 \<and> bf_flags g bit1 bit2 = BF_FLAG_COPY \<and>
           AllocMem (BIT DMA_LEN_BIT) (ce_mem env bit1 bit2) \<in> set (trace (fg_world g)) \<and>
           Memcpy (ce_mem env bit1 bit2) (flip_address dst bit1 bit2) (BIT DMA_LEN_BIT)
             \<in> set (trace (fg_world g))"
    if "ce_abs env bit1 bit2 = 0"
  proof -
    from e that have m: "bf_mem g bit1 bit2 = ce_mem env bit1 bit2"
      and f: "bf_flags g bit1 bit2 = BF_FLAG_COPY"
      and a: "bf_addr g bit1 bit2 = flip_address dst bit1 bit2"
      by (simp_all add: grid_entry_def protected_entry_def copy_flag_set)
    from c have "Memcpy (ce_mem env bit1 bit2) (flip_address dst bit1 bit2) (BIT DMA_LEN_BIT)
             \<in> set (trace (fg_world g))"
      by (simp add: capture_events_def m f a copy_flag_set)
    moreover from p that have
      "AllocMem (BIT DMA_LEN_BIT) (ce_mem env bit1 bit2) \<in> set (trace (fg_world g))"
      by (simp add: protect_events_def)
    ultimately show ?thesis using m f by simp
  qed
qed

lemma starved_host_protected:
  "test_dma_copy starved_host released_world \<noteq> Copy_failed rc w"
  by (simp add: test_dma_copy_def AllocMem_aligned_def starved_host_def Let_def)

text \<open>
  C5.  In the DMA copy test with \<^verbatim>\<open>dma_len = 4096\<close>, every pair of bits
  \<open>12 \<le> bit1 \<le> bit2 \<le> 31\<close> has the address \<^verbatim>\<open>dst\<close> with these bits flipped recorded in
  the grid, and the address is either reserved where it is and zeroed, or backed by a
  fallback buffer that receives its contents, the entry being flagged as a copy.  The
  code records the addresses and sets the flags in this way (\<open>copy_protected_pair\<close>),
  but it takes the fallback buffer from \<^verbatim>\<open>AllocMem\<close> without looking at what it got,
  whereas it does check \<^verbatim>\<open>src\<close>, \<^verbatim>\<open>dst_buf\<close> and the two arrays, and skips the null
  entries of \<^verbatim>\<open>bf_mem\<close> when it frees the buffers.  On \<open>starved_host\<close> the test gets past
  its allocation checks with \<^verbatim>\<open>dst = 0x07f03000\<close>; for the pair \<open>(31, 31)\<close> the address
  \<open>0x87f03000\<close> cannot be reserved and \<^verbatim>\<open>AllocMem\<close> returns \<^verbatim>\<open>NULL\<close>: the entry is flagged
  as a copy with the null pointer as its buffer, and the saving loop calls
  \<^verbatim>\<open>memcpy(NULL, 0x87f03000, 4096)\<close>.  The address is neither reserved nor backed by a
  buffer.
\<close>

theorem starved_copy_test:
  "case test_dma_copy starved_host released_world of
     Copy_failed rc w \<Rightarrow> False
   | Protected src dst g \<Rightarrow>
       dst = 0x07f03000 \<and>
       bf_addr g 31 31 = 0x87f03000 \<and> bf_mem g 31 31 = 0 \<and>
       bf_flags g 31 31 = BF_FLAG_COPY \<and>
       AllocMem 0x1000 0 \<in> set (trace (fg_world g)) \<and>
       Memcpy 0 0x87f03000 0x1000 \<in> set (trace (fg_world g))"
proof (cases "test_dma_copy starved_host released_world")
  case (Copy_failed rc w)
  with starved_host_protected [of rc w] show ?thesis by simp
next
  case (Protected src dst g)
  have i: "in_grid 31 31" by (simp add: in_grid_def DMA_LEN_BIT_def)
  have z: "ce_abs starved_host 31 31 = 0" "ce_mem starved_host 31 31 = 0"
    "ce_dst_buf starved_host = 0x07f02000"
    by (simp_all add: starved_host_def)
  have b: "BIT DMA_LEN_BIT = 0x1000" by (simp add: BIT_def DMA_LEN_BIT_def)
  note f = copy_protected_pair [OF Protected i]
  have d: "dst = 0x07f03000" using f(1) by (simp add: z b)
  have a: "flip_address 0x07f03000 31 31 = 0x87f03000"
    by (simp add: flip_address_def)
  from f(2) f(5) [OF z(1)] show ?thesis
    unfolding Protected copy_exit.case z b a d by simp
qed

end
